(* ===== verification/Qq_Prelude.thy ===== *)
theory Qq_Prelude
  imports Main "HOL-Library.Word" "HOL-Library.Monad_Syntax"
begin

text \<open>
  Shared vocabulary of the development: the names of the machine types the C++ code uses, the
  model of reading through a \<open>const uint8_t*\<close>, the conversions between \<open>char\<close> and
  \<open>uint8_t\<close>, and the lemma collections every component theory draws on.

  A \<open>std::vector<uint8_t>\<close> is a list of bytes, a \<open>std::string\<close> is a HOL \<open>string\<close> (a
  list of 8-bit characters), \<open>int\<close>, \<open>int32_t\<close> and \<open>uint32_t\<close> are 32-bit words (read with
  \<open>sint\<close> or \<open>unat\<close>), \<open>int64_t\<close> is a 64-bit word. A \<open>size_t\<close> is a natural number: sizes of
  vectors are below \<open>2 ^ 63\<close> and every \<open>size_t\<close> sum of the code adds at most \<open>2 ^ 32 + 7\<close> to
  one, so the 64-bit arithmetic does not wrap. Arithmetic the code does in \<open>uint32_t\<close> is done
  on 32-bit words.
\<close>

unbundle bit_operations_syntax

section \<open>Machine types\<close>

type_synonym byte = "8 word"
type_synonym bytes = "byte list"
type_synonym u16 = "16 word"
type_synonym u32 = "32 word"
type_synonym i32 = "32 word"
type_synonym i64 = "64 word"

text \<open>
  The result of a decoder that returns \<open>bool\<close> and fills an out parameter. It is wrapped in
  \<open>option\<close>: \<open>None\<close> means that the C++ code reads outside the buffer (undefined behaviour).
\<close>

datatype 'a decoded = Rejected | Decoded 'a

named_theorems wire_simps \<open>equations that evaluate reads and writes of wire fields\<close>
named_theorems field_defs \<open>definitions of the field readers and writers\<close>
named_theorems inv_intros \<open>preservation rules for the invariants of the stateful components\<close>

section \<open>Bytes and characters\<close>

definition byte_of_char :: "char \<Rightarrow> byte" where
  "byte_of_char c = of_char c"

definition char_of_byte :: "byte \<Rightarrow> char" where
  "char_of_byte b = char_of (unat b)"

abbreviation str_bytes :: "string \<Rightarrow> bytes" where
  "str_bytes s \<equiv> map byte_of_char s"

abbreviation bytes_str :: "bytes \<Rightarrow> string" where
  "bytes_str bs \<equiv> map char_of_byte bs"

lemma char_of_byte_of_char [simp]: "char_of_byte (byte_of_char c) = c"
proof -
  have "unat (of_char c :: byte) = of_char c mod 256"
    by (simp only: of_nat_of_char [symmetric, where ?'a = byte] unat_of_nat) simp
  then show ?thesis by (simp add: char_of_byte_def byte_of_char_def)
qed

lemma byte_of_char_of_byte [simp]: "byte_of_char (char_of_byte b) = b"
proof -
  have "unat b < 256" using unsigned_less [of b] by simp
  then have "(of_nat (of_char (char_of (unat b))) :: byte) = b" by simp
  then show ?thesis by (simp only: of_nat_of_char char_of_byte_def byte_of_char_def)
qed

lemma char_of_byte_comp [simp]: "char_of_byte \<circ> byte_of_char = id"
  by (simp add: fun_eq_iff)

lemma byte_of_char_comp [simp]: "byte_of_char \<circ> char_of_byte = id"
  by (simp add: fun_eq_iff)

lemma bytes_str_str_bytes [simp]: "bytes_str (str_bytes s) = s"
  by (induction s) auto

lemma str_bytes_bytes_str [simp]: "str_bytes (bytes_str bs) = bs"
  by (induction bs) auto

section \<open>Splitting words into bytes and shifting them back in\<close>

lemma low_byte: "(ucast (v AND 255 :: 'a::len word) :: byte) = ucast v"
proof -
  have "v AND 255 = take_bit 8 v" by (simp add: take_bit_eq_mask mask_eq_exp_minus_1)
  then show ?thesis by (auto intro!: bit_word_eqI simp: bit_simps)
qed

lemma shift_in_byte:
  "push_bit 8 (take_bit m (drop_bit 8 v)) OR ucast (ucast v :: byte) = take_bit (m + 8) (v :: 'a::len word)"
proof (rule bit_word_eqI)
  fix n assume "n < LENGTH('a)"
  then show "bit (push_bit 8 (take_bit m (drop_bit 8 v)) OR ucast (ucast v :: byte)) n
      = bit (take_bit (m + 8) v) n"
    by (cases "n < 8") (auto simp: bit_simps add.commute add.left_commute dest: bit_imp_le_length)
qed

lemma low_byte_shifted: "(ucast (push_bit 8 w OR ucast (b :: byte) :: 'a::len word) :: byte) = b"
  if "8 \<le> LENGTH('a)"
  by (rule bit_word_eqI) (use that in \<open>auto simp: bit_simps dest: bit_imp_le_length\<close>)

lemma drop_shifted_byte:
  "drop_bit 8 (push_bit 8 x OR ucast (b :: byte) :: 'a::len word) = take_bit (LENGTH('a) - 8) x"
  by (rule bit_word_eqI) (auto simp: bit_simps dest: bit_imp_le_length)

lemma byte_of_take_bit:
  "k + 8 \<le> m \<Longrightarrow> (ucast (drop_bit k (take_bit m x)) :: byte) = ucast (drop_bit k (x :: 'a::len word))"
  by (rule bit_word_eqI) (auto simp: bit_simps)

text \<open>The low byte of an arithmetic shift is the low byte of the logical one, inside the word.\<close>

lemma byte_of_signed_drop_bit:
  "k + 8 \<le> LENGTH('a) \<Longrightarrow>
     (ucast (signed_drop_bit k x) :: byte) = ucast (drop_bit k (x :: 'a::len word))"
  by (rule bit_word_eqI) (auto simp: bit_simps min_def)

section \<open>Reading through a pointer\<close>

text \<open>
  \<open>load d i\<close> is \<open>data[i]\<close> for a pointer into the vector \<open>d\<close>: \<open>None\<close> when \<open>i\<close> is not a valid
  index.
\<close>

definition load :: "bytes \<Rightarrow> nat \<Rightarrow> byte option" where
  "load d i = (if i < length d then Some (d ! i) else None)"

lemma load_in [simp]: "i < length d \<Longrightarrow> load d i = Some (d ! i)"
  by (simp add: load_def)

lemma load_out [simp]: "length d \<le> i \<Longrightarrow> load d i = None"
  by (simp add: load_def)

lemma load_eq_None_iff: "load d i = None \<longleftrightarrow> length d \<le> i"
  by (simp add: load_def)

lemma load_append_right: "length pre \<le> i \<Longrightarrow> load (pre @ d) i = load d (i - length pre)"
  by (auto simp: load_def nth_append)

lemma take_Suc_conv_nth: "n < length d \<Longrightarrow> take (Suc n) d = take n d @ [d ! n]"
  by (simp add: take_Suc_conv_app_nth)

lemma take_2_drop: "p + 2 \<le> length d \<Longrightarrow> take 2 (drop p d) = [d ! p, d ! Suc p]"
  by (simp add: numeral_2_eq_2 take_Suc_conv_app_nth)

lemma take_4_drop:
  "p + 4 \<le> length d \<Longrightarrow> take 4 (drop p d) = [d ! p, d ! Suc p, d ! Suc (Suc p), d ! Suc (Suc (Suc p))]"
  by (simp add: take_Suc_conv_app_nth eval_nat_numeral)

section \<open>Numbers\<close>

lemma unat_of_nat_u16: "n < 65536 \<Longrightarrow> unat (word_of_nat n :: u16) = n"
  by (simp add: unat_of_nat)

lemma unat_of_nat_u16_mod: "unat (word_of_nat n :: u16) = n mod 65536"
  by (simp add: unat_of_nat)

lemma unat_of_nat_u32: "n < 4294967296 \<Longrightarrow> unat (word_of_nat n :: u32) = n"
  by (simp add: unat_of_nat)

lemma unat_u16_less: "unat (w :: u16) < 65536"
  using unsigned_less [of w] by simp

lemma unat_u32_less: "unat (w :: u32) < 4294967296"
  using unsigned_less [of w] by simp

text \<open>Addition in \<open>uint32_t\<close>, on both sides of the wrap.\<close>

lemma unat_add_u32: "unat (a + b :: u32) = (unat a + unat b) mod 4294967296"
  by (simp add: unat_word_ariths)

lemma bit_imp_unat_ge: "bit (w :: 'a::len word) n \<Longrightarrow> 2 ^ n \<le> unat w"
proof (rule ccontr)
  assume "bit w n" and "\<not> 2 ^ n \<le> unat w"
  then have "bit (unat w) n" and "unat w div 2 ^ n = 0"
    by (auto simp: bit_unsigned_iff dest: bit_imp_le_length)
  then show False by (simp add: bit_iff_odd)
qed

end
