(* ===== verification/Wire_Types.thy ===== *)
theory Wire_Types
  imports Qq_Prelude
begin

text \<open>
  The data of the protocol as server/include/qqchat/protocol_codec.hpp declares it: the two
  enumerations, the packet, and the request and response structs.

  Both enumerations have the fixed underlying type \<open>uint16_t\<close>, so a \<open>static_cast\<close> from any
  16-bit value is a value of the enumeration, listed or not. The datatypes therefore carry one
  more constructor for the values the enumeration does not name.
\<close>

section \<open>Enumerations\<close>

datatype command_code =
    LOGIN_REQ | LOGIN_RESP | MESSAGE_REQ | MESSAGE_RESP | MESSAGE_NOTIFY
  | FRIEND_LIST_REQ | FRIEND_LIST_RESP | ADD_FRIEND_REQ | ADD_FRIEND_RESP
  | REGISTER_REQ | REGISTER_RESP | SECURITY_QUESTION_REQ | SECURITY_QUESTION_RESP
  | RESET_PASSWORD_REQ | RESET_PASSWORD_RESP | VERSION_CHECK_REQ | VERSION_CHECK_RESP
  | Unlisted_command u16

fun command_u16 :: "command_code \<Rightarrow> u16" where
  "command_u16 LOGIN_REQ = 0x0001"
| "command_u16 LOGIN_RESP = 0x0002"
| "command_u16 MESSAGE_REQ = 0x0003"
| "command_u16 MESSAGE_RESP = 0x0004"
| "command_u16 MESSAGE_NOTIFY = 0x0005"
| "command_u16 FRIEND_LIST_REQ = 0x0006"
| "command_u16 FRIEND_LIST_RESP = 0x0007"
| "command_u16 ADD_FRIEND_REQ = 0x0008"
| "command_u16 ADD_FRIEND_RESP = 0x0009"
| "command_u16 REGISTER_REQ = 0x000A"
| "command_u16 REGISTER_RESP = 0x000B"
| "command_u16 SECURITY_QUESTION_REQ = 0x000C"
| "command_u16 SECURITY_QUESTION_RESP = 0x000D"
| "command_u16 RESET_PASSWORD_REQ = 0x000E"
| "command_u16 RESET_PASSWORD_RESP = 0x000F"
| "command_u16 VERSION_CHECK_REQ = 0x0010"
| "command_u16 VERSION_CHECK_RESP = 0x0011"
| "command_u16 (Unlisted_command w) = w"

definition command_of_u16 :: "u16 \<Rightarrow> command_code" where
  "command_of_u16 w =
     (if w = 0x0001 then LOGIN_REQ
      else if w = 0x0002 then LOGIN_RESP
      else if w = 0x0003 then MESSAGE_REQ
      else if w = 0x0004 then MESSAGE_RESP
      else if w = 0x0005 then MESSAGE_NOTIFY
      else if w = 0x0006 then FRIEND_LIST_REQ
      else if w = 0x0007 then FRIEND_LIST_RESP
      else if w = 0x0008 then ADD_FRIEND_REQ
      else if w = 0x0009 then ADD_FRIEND_RESP
      else if w = 0x000A then REGISTER_REQ
      else if w = 0x000B then REGISTER_RESP
      else if w = 0x000C then SECURITY_QUESTION_REQ
      else if w = 0x000D then SECURITY_QUESTION_RESP
      else if w = 0x000E then RESET_PASSWORD_REQ
      else if w = 0x000F then RESET_PASSWORD_RESP
      else if w = 0x0010 then VERSION_CHECK_REQ
      else if w = 0x0011 then VERSION_CHECK_RESP
      else Unlisted_command w)"

text \<open>A command is canonical when its constructor is the one the cast of its value gives.\<close>

definition canonical_command :: "command_code \<Rightarrow> bool" where
  "canonical_command c \<longleftrightarrow> command_of_u16 (command_u16 c) = c"

lemma command_u16_of_u16 [simp]: "command_u16 (command_of_u16 w) = w"
  by (simp add: command_of_u16_def)

lemma canonical_command_of_u16 [simp]: "canonical_command (command_of_u16 w)"
  by (simp add: canonical_command_def)

lemma canonical_commandD: "canonical_command c \<Longrightarrow> command_of_u16 (command_u16 c) = c"
  by (simp add: canonical_command_def)

lemma canonical_listed: "(\<And>w. c \<noteq> Unlisted_command w) \<Longrightarrow> canonical_command c"
  by (cases c) (simp_all add: canonical_command_def command_of_u16_def)

datatype error_code =
    SUCCESS | USER_NOT_FOUND | WRONG_PASSWORD | USER_ALREADY_ONLINE | USER_OFFLINE
  | PROTOCOL_ERROR | DATABASE_ERROR | FRIEND_REQUEST_EXISTS | CANNOT_ADD_SELF
  | USERNAME_EXISTS | INVALID_ANSWER | SECURITY_QUESTION_NOT_SET | INVALID_REQUEST

fun error_u16 :: "error_code \<Rightarrow> u16" where
  "error_u16 SUCCESS = 0x0000"
| "error_u16 USER_NOT_FOUND = 0x0001"
| "error_u16 WRONG_PASSWORD = 0x0002"
| "error_u16 USER_ALREADY_ONLINE = 0x0003"
| "error_u16 USER_OFFLINE = 0x0004"
| "error_u16 PROTOCOL_ERROR = 0x0005"
| "error_u16 DATABASE_ERROR = 0x0006"
| "error_u16 FRIEND_REQUEST_EXISTS = 0x0007"
| "error_u16 CANNOT_ADD_SELF = 0x0008"
| "error_u16 USERNAME_EXISTS = 0x0009"
| "error_u16 INVALID_ANSWER = 0x000A"
| "error_u16 SECURITY_QUESTION_NOT_SET = 0x000B"
| "error_u16 INVALID_REQUEST = 0x000C"

text \<open>The server never casts an integer to \<open>ErrorCode\<close>, so no unlisted value is needed here.\<close>

lemma error_u16_inject: "error_u16 a = error_u16 b \<Longrightarrow> a = b"
  by (cases a; cases b) simp_all

section \<open>Requests, responses and the packet\<close>

record login_request =
  lreq_username :: string
  lreq_password :: string

record login_response =
  lresp_error_code :: error_code
  lresp_user_id :: i32
  lresp_username :: string

record message_request =
  mreq_to_id :: i32
  mreq_content :: string

record message_response =
  mresp_error_code :: error_code
  mresp_msg_id :: i32

record message_notify =
  mn_from_id :: i32
  mn_content :: string
  mn_timestamp :: i64

record friend_list_response =
  flresp_error_code :: error_code
  flresp_friends :: "(i32 \<times> string) list"

record add_friend_request =
  afreq_user_id :: i32
  afreq_friend_id :: i32

record add_friend_response =
  afresp_error_code :: error_code

record register_request =
  rreq_username :: string
  rreq_password :: string
  rreq_security_question :: string
  rreq_security_answer :: string

record register_response =
  rresp_error_code :: error_code
  rresp_user_id :: i32

record security_question_request =
  sqreq_username :: string

record security_question_response =
  sqresp_error_code :: error_code
  sqresp_question :: string

record reset_password_request =
  rpreq_username :: string
  rpreq_new_password :: string
  rpreq_security_answer :: string

record reset_password_response =
  rpresp_error_code :: error_code

record version_check_request =
  vcreq_client_version :: i32

record version_check_response =
  vcresp_error_code :: error_code
  vcresp_server_version :: i32
  vcresp_update_url :: string
  vcresp_update_desc :: string

record packet =
  pkt_version :: byte
  pkt_command :: command_code
  pkt_data :: bytes

definition VERSION :: byte where
  "VERSION = 1"

definition HEADER_SIZE :: nat where
  "HEADER_SIZE = 7"

end
