(* ===== verification/Wire_Interface.thy ===== *)
theory Wire_Interface
  imports Qq_Prelude
begin

text \<open>
  The contract between a writer of the wire format and a reader of it, which the server's and the
  client's codec both implement and both rely on: a fixed-width field (locale \<open>wire_field\<close>) and
  a 16-bit length followed by that many bytes (locale \<open>wire_text\<close>, which extends it). The
  big-endian coding of a word into \<open>n\<close> bytes satisfies the contract; a codec's own primitives are
  shown equal to it and interpreted.
\<close>

section \<open>Big-endian coding of words\<close>

definition be_bytes :: "nat \<Rightarrow> 'a::len word \<Rightarrow> bytes" where
  "be_bytes n v = map (\<lambda>k. ucast (drop_bit (8 * k) v)) (rev [0..<n])"

definition be_val :: "bytes \<Rightarrow> 'a::len word" where
  "be_val bs = foldl (\<lambda>v b. push_bit 8 v OR ucast b) 0 bs"

definition be_read :: "nat \<Rightarrow> bytes \<Rightarrow> nat \<Rightarrow> 'a::len word option" where
  "be_read n d p = (if p + n \<le> length d then Some (be_val (take n (drop p d))) else None)"

lemma length_be_bytes [simp]: "length (be_bytes n v) = n"
  by (simp add: be_bytes_def)

lemma be_bytes_0: "be_bytes 0 v = []"
  by (simp add: be_bytes_def)

lemma be_bytes_Suc: "be_bytes (Suc n) v = be_bytes n (drop_bit 8 v) @ [ucast v]"
proof -
  have "rev [0..<Suc n] = map Suc (rev [0..<n]) @ [0]"
    by (simp add: rev_map [symmetric] map_Suc_upt upt_conv_Cons del: upt_Suc)
  then show ?thesis by (simp add: be_bytes_def o_def add.commute)
qed

lemma be_val_snoc: "be_val (bs @ [b]) = push_bit 8 (be_val bs) OR ucast b"
  by (simp add: be_val_def)

lemma be_val_bytes: "be_val (be_bytes n v) = take_bit (8 * n) v"
proof (induction n arbitrary: v)
  case 0
  show ?case by (simp add: be_bytes_0 be_val_def)
next
  case (Suc n)
  show ?case by (simp add: be_bytes_Suc be_val_snoc Suc.IH shift_in_byte add.commute)
qed

lemma be_bytes_take_bit: "8 * n \<le> m \<Longrightarrow> be_bytes n (take_bit m v) = be_bytes n v"
  by (auto simp: be_bytes_def intro!: byte_of_take_bit)

lemma be_bytes_val: "8 * length bs \<le> LENGTH('a) \<Longrightarrow> be_bytes (length bs) (be_val bs :: 'a::len word) = bs"
proof (induction bs rule: rev_induct)
  case Nil
  show ?case by (simp add: be_bytes_0)
next
  case (snoc b bs)
  then have IH: "be_bytes (length bs) (be_val bs :: 'a word) = bs" and len: "8 \<le> LENGTH('a)"
    and m: "8 * length bs \<le> LENGTH('a) - 8"
    by simp_all
  have "be_bytes (length (bs @ [b])) (be_val (bs @ [b]) :: 'a word)
      = be_bytes (length bs) (take_bit (LENGTH('a) - 8) (be_val bs :: 'a word)) @ [b]"
    by (simp only: length_append_singleton be_bytes_Suc be_val_snoc drop_shifted_byte
        low_byte_shifted [OF len])
  with IH show ?case by (simp only: be_bytes_take_bit [OF m])
qed

text \<open>A read skips what was written before it and finds what was written at its place.\<close>

lemma be_read_skip [wire_simps]:
  "length pre \<le> p \<Longrightarrow> be_read n (pre @ d) p = be_read n d (p - length pre)"
  by (auto simp: be_read_def)

lemma be_read_skip1 [wire_simps]: "0 < p \<Longrightarrow> be_read n (b # d) p = be_read n d (p - 1)"
  by (cases p) (auto simp: be_read_def)

lemma be_read_hit [wire_simps]:
  "8 * n = LENGTH('a) \<Longrightarrow> be_read n (be_bytes n (v :: 'a::len word) @ d) 0 = Some v"
  by (simp add: be_read_def be_val_bytes)

lemma be_read_hit_last [wire_simps]:
  "8 * n = LENGTH('a) \<Longrightarrow> be_read n (be_bytes n (v :: 'a::len word)) 0 = Some v"
  by (simp add: be_read_def be_val_bytes)

section \<open>Fixed-width fields\<close>

locale wire_field =
  fixes put :: "bytes \<Rightarrow> 'a \<Rightarrow> bytes"
    and get :: "bytes \<Rightarrow> nat \<Rightarrow> 'a option"
    and width :: nat
  assumes put_append: "put buf v = buf @ put [] v"
    and put_width: "length (put [] v) = width"
    and get_put: "get (put [] v) 0 = Some v"
    and get_local: "get d p = (if p + width \<le> length d then get (take width (drop p d)) 0 else None)"
    and put_onto: "length d = width \<Longrightarrow> \<exists>v. d = put [] v"
begin

lemma length_put: "length (put buf v) = length buf + width"
  by (subst put_append) (simp add: put_width)

lemma get_defined: "p + width \<le> length d \<Longrightarrow> \<exists>v. get d p = Some v"
  using put_onto [of "take width (drop p d)"] by (subst get_local) (auto simp: get_put)

lemma get_out: "length d < p + width \<Longrightarrow> get d p = None"
  by (subst get_local) simp

lemma get_SomeD: "get d p = Some v \<Longrightarrow> p + width \<le> length d \<and> take width (drop p d) = put [] v"
  using put_onto [of "take width (drop p d)"]
  by (subst (asm) get_local) (auto simp: get_put split: if_splits)

lemma get_put_at: "p = length pre \<Longrightarrow> get (pre @ put [] v @ post) p = Some v"
  by (subst get_local) (simp add: put_width get_put)

lemma get_after: "p = length pre \<Longrightarrow> get (put pre v @ post) p = Some v"
  by (subst put_append) (simp add: get_put_at)

lemma get_prefix: "p + width \<le> length pre \<Longrightarrow> get (pre @ post) p = get pre p"
  by (subst (1 2) get_local) auto

lemma put_inject: "put buf v = put buf w \<longleftrightarrow> v = w"
proof
  assume "put buf v = put buf w"
  then have "put [] v = put [] w" by (subst (asm) (1 2) put_append) simp
  then have "get (put [] v) 0 = get (put [] w) 0" by simp
  then show "v = w" by (simp add: get_put)
qed simp

end

lemma wire_field_be:
  assumes "8 * n = LENGTH('a)"
  shows "wire_field (\<lambda>buf (v :: 'a::len word). buf @ be_bytes n v) (be_read n) n"
proof
  fix d :: bytes
  assume "length d = n"
  then have "be_bytes n (be_val d :: 'a word) = d"
    using be_bytes_val [of d, where 'a = 'a] assms by simp
  then show "\<exists>v :: 'a word. d = [] @ be_bytes n v" by (metis append_Nil)
qed (use assms in \<open>auto simp: be_read_def be_val_bytes\<close>)

section \<open>Length-prefixed text\<close>

text \<open>
  \<open>put_str\<close> writes the low 16 bits of the length and then every byte of the text; \<open>get_str\<close>
  reads as many bytes as it is told. The reader's side of the field is \<open>text_then\<close>: check the
  bound, read the length, check the bound again, read the bytes, go on at the next offset.
\<close>

locale wire_text = len: wire_field put_len get_len 2
  for put_len :: "bytes \<Rightarrow> u16 \<Rightarrow> bytes" and get_len :: "bytes \<Rightarrow> nat \<Rightarrow> u16 option" +
  fixes put_str :: "bytes \<Rightarrow> string \<Rightarrow> bytes"
    and get_str :: "bytes \<Rightarrow> nat \<Rightarrow> nat \<Rightarrow> string option"
  assumes put_str_eq: "put_str buf s = put_len buf (word_of_nat (length s)) @ str_bytes s"
    and get_str_eq: "get_str d p n = (if p + n \<le> length d then Some (bytes_str (take n (drop p d))) else None)"
begin

definition text_then :: "bytes \<Rightarrow> nat \<Rightarrow> (string \<Rightarrow> nat \<Rightarrow> 'b decoded option) \<Rightarrow> 'b decoded option" where
  "text_then d off k =
     (if off + 2 > length d then Some Rejected
      else do {
        n \<leftarrow> get_len d off;
        if off + 2 + unat n > length d then Some Rejected
        else do {
          s \<leftarrow> get_str d (off + 2) (unat n);
          k s (off + 2 + unat n) } })"

lemma length_put_str: "length (put_str buf s) = length buf + 2 + length s"
  by (simp add: put_str_eq len.length_put)

lemma put_str_append: "put_str buf s = buf @ put_str [] s"
  unfolding put_str_eq by (subst len.put_append) simp

text \<open>Reading a text field never leaves the buffer when what follows does not.\<close>

lemma text_then_safe:
  assumes "\<And>s p. p \<le> length d \<Longrightarrow> k s p \<noteq> None"
  shows "text_then d off k \<noteq> None"
proof (cases "off + 2 \<le> length d")
  case True
  then obtain n where n: "get_len d off = Some n" using len.get_defined by blast
  show ?thesis
  proof (cases "off + 2 + unat n \<le> length d")
    case in_bounds: True
    have "text_then d off k = k (bytes_str (take (unat n) (drop (off + 2) d))) (off + 2 + unat n)"
      using True n in_bounds by (simp add: text_then_def get_str_eq)
    then show ?thesis using assms [OF in_bounds] by simp
  qed (use True n in \<open>simp add: text_then_def\<close>)
qed (simp add: text_then_def)

text \<open>A text that fits its 16-bit length is read back whole; the reader goes on right behind it.\<close>

lemma text_then_put:
  assumes "length s < 65536" and "off = length pre"
  shows "text_then (put_str pre s @ post) off k = k s (length (put_str pre s))"
proof -
  let ?d = "put_str pre s @ post"
  have n: "get_len ?d off = Some (word_of_nat (length s))"
    using assms(2) by (simp add: put_str_eq len.get_after)
  have s: "get_str ?d (off + 2) (length s) = Some s"
    using assms(2) by (simp add: get_str_eq put_str_eq len.length_put)
  have "text_then ?d off k = k s (off + 2 + length s)"
    using n s by (simp add: text_then_def assms(2) unat_of_nat_u16 [OF assms(1)] length_put_str)
  then show ?thesis using assms(2) by (simp add: length_put_str add.assoc)
qed

lemma text_then_at:
  assumes "drop off d = put_str [] s @ post" and "length s < 65536" and "off \<le> length d"
  shows "text_then d off k = k s (off + 2 + length s)"
proof -
  have d: "d = put_str (take off d) s @ post"
    using assms(1) append_take_drop_id [of off d] by (subst put_str_append) simp
  then have "text_then d off k = k s (length (put_str (take off d) s))"
    using text_then_put [OF assms(2), of off "take off d" post k] assms(3) by simp
  with assms(3) show ?thesis by (simp add: length_put_str)
qed

text \<open>A text of 65536 bytes or more is cut: its length goes out modulo 65536.\<close>

lemma text_then_put_long:
  assumes "off = length pre"
  shows "text_then (put_str pre s @ post) off k
           = k (take (length s mod 65536) s) (off + 2 + length s mod 65536)"
proof -
  let ?d = "put_str pre s @ post"
  have n: "get_len ?d off = Some (word_of_nat (length s))"
    using assms by (simp add: put_str_eq len.get_after)
  have le: "length s mod 65536 \<le> length s" by simp
  have s: "get_str ?d (off + 2) (length s mod 65536) = Some (take (length s mod 65536) s)"
    using assms le by (simp add: get_str_eq put_str_eq len.length_put take_map trans_le_add1)
  have "length s mod 65536 \<le> length s + length post" using le by linarith
  with n s show ?thesis
    by (simp add: text_then_def unat_of_nat_u16_mod length_put_str assms)
qed

text \<open>What a successful read of a text field says about the bytes it read.\<close>

lemma text_then_DecodedE:
  assumes "text_then d off k = Some (Decoded r)"
  obtains s rest where "length s < 65536" "drop off d = put_str [] s @ rest"
    "k s (off + 2 + length s) = Some (Decoded r)" "off + 2 + length s \<le> length d"
    "drop (off + 2 + length s) d = rest"
proof -
  from assms obtain n where n: "get_len d off = Some n" and b: "off + 2 + unat n \<le> length d"
    and k: "k (bytes_str (take (unat n) (drop (off + 2) d))) (off + 2 + unat n) = Some (Decoded r)"
    by (auto simp: text_then_def get_str_eq split: if_splits bind_splits)
  let ?s = "bytes_str (take (unat n) (drop (off + 2) d))"
  have l: "length ?s = unat n" using b by simp
  then have w: "word_of_nat (length ?s) = n" by (simp only:) simp
  have "take 2 (drop off d) = put_len [] n" using len.get_SomeD [OF n] by simp
  then have "drop off d = put_len [] n @ drop (off + 2) d"
    by (metis append_take_drop_id drop_drop add.commute)
  also have "drop (off + 2) d = str_bytes ?s @ drop (off + 2 + unat n) d"
    by (simp only: str_bytes_bytes_str) (metis append_take_drop_id drop_drop add.commute)
  finally have "drop off d = put_str [] ?s @ drop (off + 2 + unat n) d"
    by (simp only: put_str_eq w append_assoc)
  with l k b unat_u16_less [of n] show ?thesis
    by (intro that [of ?s "drop (off + 2 + unat n) d"]) simp_all
qed

end

end
