(* ===== verification/Server_Codec.thy ===== *)
theory Server_Codec
  imports Wire_Types Wire_Interface
begin

text \<open>
  The server's codec, server/src/protocol_codec.cpp: the big-endian primitives, the packet
  framing, the request decoders and the response encoders. A writer takes the buffer and returns
  it extended; a reader takes the vector and the offset its pointer points at. A decoder returns
  \<open>None\<close> when it reads outside the vector, \<open>Some Rejected\<close> for \<open>return false\<close> and
  \<open>Some (Decoded r)\<close> for \<open>return true\<close> with the out parameter \<open>r\<close>.
\<close>

section \<open>Primitives\<close>

definition write_uint16 :: "bytes \<Rightarrow> u16 \<Rightarrow> bytes" where
  "write_uint16 buffer value =
     buffer @ [ucast (drop_bit 8 value AND 0xFF), ucast (value AND 0xFF)]"

definition write_uint32 :: "bytes \<Rightarrow> u32 \<Rightarrow> bytes" where
  "write_uint32 buffer value =
     buffer @ [ucast (drop_bit 24 value AND 0xFF), ucast (drop_bit 16 value AND 0xFF),
               ucast (drop_bit 8 value AND 0xFF), ucast (value AND 0xFF)]"

text \<open>\<open>int32_t\<close> and \<open>uint32_t\<close> are the same 32 bits, so the cast is the identity on words.\<close>

definition write_int32 :: "bytes \<Rightarrow> i32 \<Rightarrow> bytes" where
  "write_int32 buffer value = write_uint32 buffer value"

text \<open>The loop for \<open>i\<close> from 7 down to 0: \<open>write_int64_loop buffer value (Suc i)\<close> runs pass \<open>i\<close>.\<close>

fun write_int64_loop :: "bytes \<Rightarrow> i64 \<Rightarrow> nat \<Rightarrow> bytes" where
  "write_int64_loop buffer value 0 = buffer"
| "write_int64_loop buffer value (Suc i) =
     write_int64_loop (buffer @ [ucast (signed_drop_bit (8 * i) value AND 0xFF)]) value i"

definition write_int64 :: "bytes \<Rightarrow> i64 \<Rightarrow> bytes" where
  "write_int64 buffer value = write_int64_loop buffer value 8"

definition write_string :: "bytes \<Rightarrow> string \<Rightarrow> bytes" where
  "write_string buffer str =
     (let len = (word_of_nat (length str) :: u16)
      in write_uint16 buffer len @ str_bytes str)"

definition read_uint16 :: "bytes \<Rightarrow> nat \<Rightarrow> u16 option" where
  "read_uint16 d p = do {
     b0 \<leftarrow> load d p;
     b1 \<leftarrow> load d (p + 1);
     Some (push_bit 8 (ucast b0) OR ucast b1) }"

definition read_uint32 :: "bytes \<Rightarrow> nat \<Rightarrow> u32 option" where
  "read_uint32 d p = do {
     b0 \<leftarrow> load d p;
     b1 \<leftarrow> load d (p + 1);
     b2 \<leftarrow> load d (p + 2);
     b3 \<leftarrow> load d (p + 3);
     Some (push_bit 24 (ucast b0) OR push_bit 16 (ucast b1) OR push_bit 8 (ucast b2) OR ucast b3) }"

definition read_int32 :: "bytes \<Rightarrow> nat \<Rightarrow> i32 option" where
  "read_int32 d p = read_uint32 d p"

text \<open>The loop for \<open>i\<close> from 0 to 7; the last argument counts the passes that are left.\<close>

fun read_int64_loop :: "bytes \<Rightarrow> nat \<Rightarrow> i64 \<Rightarrow> nat \<Rightarrow> i64 option" where
  "read_int64_loop d p value 0 = Some value"
| "read_int64_loop d p value (Suc n) = do {
     b \<leftarrow> load d p;
     read_int64_loop d (p + 1) (push_bit 8 value OR ucast b) n }"

definition read_int64 :: "bytes \<Rightarrow> nat \<Rightarrow> i64 option" where
  "read_int64 d p = read_int64_loop d p 0 8"

text \<open>The constructor \<open>std::string(ptr, len)\<close> reads the \<open>len\<close> bytes from \<open>ptr\<close>.\<close>

definition read_string :: "bytes \<Rightarrow> nat \<Rightarrow> nat \<Rightarrow> string option" where
  "read_string d p len =
     (if p + len \<le> length d then Some (bytes_str (take len (drop p d))) else None)"

section \<open>Packet framing\<close>

definition encode :: "packet \<Rightarrow> bytes" where
  "encode packet =
     (let buffer = [pkt_version packet];
          cmd = command_u16 (pkt_command packet);
          buffer = write_uint16 buffer cmd;
          len = (word_of_nat (length (pkt_data packet)) :: u32);
          buffer = write_uint32 buffer len
      in buffer @ pkt_data packet)"

definition decode :: "bytes \<Rightarrow> packet decoded option" where
  "decode d =
     (if length d < HEADER_SIZE then Some Rejected
      else do {
        v \<leftarrow> load d 0;
        c \<leftarrow> read_uint16 d 1;
        len \<leftarrow> read_uint32 d 3;
        if length d \<noteq> HEADER_SIZE + unat len then Some Rejected
        else Some (Decoded \<lparr>pkt_version = v, pkt_command = command_of_u16 c,
                            pkt_data = drop HEADER_SIZE d\<rparr>) })"

section \<open>Request decoders\<close>

definition decode_login_request :: "bytes \<Rightarrow> login_request decoded option" where
  "decode_login_request d =
     (if length d < 4 then Some Rejected
      else do {
        let offset = 0;
        username_len \<leftarrow> read_uint16 d offset;
        let offset = offset + 2;
        if offset + unat username_len > length d then Some Rejected
        else do {
          username \<leftarrow> read_string d offset (unat username_len);
          let offset = offset + unat username_len;
          if offset + 2 > length d then Some Rejected
          else do {
            password_len \<leftarrow> read_uint16 d offset;
            let offset = offset + 2;
            if offset + unat password_len > length d then Some Rejected
            else do {
              password \<leftarrow> read_string d offset (unat password_len);
              Some (Decoded \<lparr>lreq_username = username, lreq_password = password\<rparr>) } } } })"

text \<open>
  The bound \<open>4 + 4 + content_len > data.size()\<close> is computed in \<open>uint32_t\<close> (the literals are
  \<open>int\<close>, \<open>content_len\<close> is \<open>uint32_t\<close>), so the sum wraps before it is widened for the
  comparison.
\<close>

definition decode_message_request :: "bytes \<Rightarrow> message_request decoded option" where
  "decode_message_request d =
     (if length d < 8 then Some Rejected
      else do {
        to_id \<leftarrow> read_int32 d 0;
        content_len \<leftarrow> read_uint32 d 4;
        if unat (4 + 4 + content_len) > length d then Some Rejected
        else do {
          content \<leftarrow> read_string d 8 (unat content_len);
          Some (Decoded \<lparr>mreq_to_id = to_id, mreq_content = content\<rparr>) } })"

text \<open>
  The same \<open>uint32_t\<close> arithmetic in \<open>8 + content_len + 8 > data.size()\<close> and in the index
  \<open>8 + content_len\<close>.
\<close>

definition decode_message_notify :: "bytes \<Rightarrow> message_notify decoded option" where
  "decode_message_notify d =
     (if length d < 16 then Some Rejected
      else do {
        from_id \<leftarrow> read_int32 d 0;
        content_len \<leftarrow> read_uint32 d 4;
        if unat (8 + content_len + 8) > length d then Some Rejected
        else do {
          content \<leftarrow> read_string d 8 (unat content_len);
          timestamp \<leftarrow> read_int64 d (unat (8 + content_len));
          Some (Decoded \<lparr>mn_from_id = from_id, mn_content = content,
                         mn_timestamp = timestamp\<rparr>) } })"

definition decode_register_request :: "bytes \<Rightarrow> register_request decoded option" where
  "decode_register_request d =
     (if length d < 6 then Some Rejected
      else do {
        let offset = 0;
        username_len \<leftarrow> read_uint16 d offset;
        let offset = offset + 2;
        if offset + unat username_len > length d then Some Rejected
        else do {
        username \<leftarrow> read_string d offset (unat username_len);
        let offset = offset + unat username_len;
        if offset + 2 > length d then Some Rejected
        else do {
        password_len \<leftarrow> read_uint16 d offset;
        let offset = offset + 2;
        if offset + unat password_len > length d then Some Rejected
        else do {
        password \<leftarrow> read_string d offset (unat password_len);
        let offset = offset + unat password_len;
        if offset + 2 > length d then Some Rejected
        else do {
        question_len \<leftarrow> read_uint16 d offset;
        let offset = offset + 2;
        if offset + unat question_len > length d then Some Rejected
        else do {
        question \<leftarrow> read_string d offset (unat question_len);
        let offset = offset + unat question_len;
        if offset + 2 > length d then Some Rejected
        else do {
        answer_len \<leftarrow> read_uint16 d offset;
        let offset = offset + 2;
        if offset + unat answer_len > length d then Some Rejected
        else do {
        answer \<leftarrow> read_string d offset (unat answer_len);
        Some (Decoded \<lparr>rreq_username = username, rreq_password = password,
                       rreq_security_question = question,
                       rreq_security_answer = answer\<rparr>) } } } } } } } })"

definition decode_security_question_request :: "bytes \<Rightarrow> security_question_request decoded option" where
  "decode_security_question_request d =
     (if length d < 2 then Some Rejected
      else do {
        username_len \<leftarrow> read_uint16 d 0;
        if 2 + unat username_len > length d then Some Rejected
        else do {
          username \<leftarrow> read_string d 2 (unat username_len);
          Some (Decoded \<lparr>sqreq_username = username\<rparr>) } })"

definition decode_reset_password_request :: "bytes \<Rightarrow> reset_password_request decoded option" where
  "decode_reset_password_request d =
     (if length d < 6 then Some Rejected
      else do {
        let offset = 0;
        username_len \<leftarrow> read_uint16 d offset;
        let offset = offset + 2;
        if offset + unat username_len > length d then Some Rejected
        else do {
        username \<leftarrow> read_string d offset (unat username_len);
        let offset = offset + unat username_len;
        if offset + 2 > length d then Some Rejected
        else do {
        password_len \<leftarrow> read_uint16 d offset;
        let offset = offset + 2;
        if offset + unat password_len > length d then Some Rejected
        else do {
        password \<leftarrow> read_string d offset (unat password_len);
        let offset = offset + unat password_len;
        if offset + 2 > length d then Some Rejected
        else do {
        answer_len \<leftarrow> read_uint16 d offset;
        let offset = offset + 2;
        if offset + unat answer_len > length d then Some Rejected
        else do {
        answer \<leftarrow> read_string d offset (unat answer_len);
        Some (Decoded \<lparr>rpreq_username = username, rpreq_new_password = password,
                       rpreq_security_answer = answer\<rparr>) } } } } } })"

definition decode_version_check_request :: "bytes \<Rightarrow> version_check_request decoded option" where
  "decode_version_check_request d =
     (if length d < 4 then Some Rejected
      else do {
        client_version \<leftarrow> read_int32 d 0;
        Some (Decoded \<lparr>vcreq_client_version = client_version\<rparr>) })"

section \<open>Response encoders\<close>

definition encode_login_response :: "login_response \<Rightarrow> bytes" where
  "encode_login_response resp =
     (let buffer = write_uint16 [] (error_u16 (lresp_error_code resp));
          buffer = write_int32 buffer (lresp_user_id resp)
      in write_string buffer (lresp_username resp))"

definition encode_message_response :: "message_response \<Rightarrow> bytes" where
  "encode_message_response resp =
     (let buffer = write_uint16 [] (error_u16 (mresp_error_code resp))
      in write_int32 buffer (mresp_msg_id resp))"

definition encode_message_notify :: "message_notify \<Rightarrow> bytes" where
  "encode_message_notify notify =
     (let buffer = write_int32 [] (mn_from_id notify);
          buffer = write_uint32 buffer (word_of_nat (length (mn_content notify)));
          buffer = buffer @ str_bytes (mn_content notify)
      in write_int64 buffer (mn_timestamp notify))"

fun encode_friends_loop :: "bytes \<Rightarrow> (i32 \<times> string) list \<Rightarrow> bytes" where
  "encode_friends_loop buffer [] = buffer"
| "encode_friends_loop buffer (friend_pair # rest) =
     (let buffer = write_int32 buffer (fst friend_pair);
          buffer = write_string buffer (snd friend_pair)
      in encode_friends_loop buffer rest)"

definition encode_friend_list_response :: "friend_list_response \<Rightarrow> bytes" where
  "encode_friend_list_response resp =
     (let buffer = write_uint16 [] (error_u16 (flresp_error_code resp));
          buffer = write_uint32 buffer (word_of_nat (length (flresp_friends resp)))
      in encode_friends_loop buffer (flresp_friends resp))"

definition encode_add_friend_response :: "add_friend_response \<Rightarrow> bytes" where
  "encode_add_friend_response resp = write_uint16 [] (error_u16 (afresp_error_code resp))"

definition encode_register_response :: "register_response \<Rightarrow> bytes" where
  "encode_register_response resp =
     (let buffer = write_uint16 [] (error_u16 (rresp_error_code resp))
      in write_int32 buffer (rresp_user_id resp))"

definition encode_security_question_response :: "security_question_response \<Rightarrow> bytes" where
  "encode_security_question_response resp =
     (let buffer = write_uint16 [] (error_u16 (sqresp_error_code resp))
      in write_string buffer (sqresp_question resp))"

definition encode_reset_password_response :: "reset_password_response \<Rightarrow> bytes" where
  "encode_reset_password_response resp = write_uint16 [] (error_u16 (rpresp_error_code resp))"

definition encode_version_check_response :: "version_check_response \<Rightarrow> bytes" where
  "encode_version_check_response resp =
     (let buffer = write_uint16 [] (error_u16 (vcresp_error_code resp));
          buffer = write_int32 buffer (vcresp_server_version resp);
          buffer = write_string buffer (vcresp_update_url resp)
      in write_string buffer (vcresp_update_desc resp))"

section \<open>The primitives satisfy the wire interface\<close>

lemma write_uint16_be: "write_uint16 buf v = buf @ be_bytes 2 v"
  by (simp add: write_uint16_def be_bytes_def low_byte upt_rec)

lemma write_uint32_be: "write_uint32 buf v = buf @ be_bytes 4 v"
  by (simp add: write_uint32_def be_bytes_def low_byte upt_rec)

lemma write_int64_loop_be: "n \<le> 8 \<Longrightarrow> write_int64_loop buf v n = buf @ be_bytes n v"
proof (induction n arbitrary: buf)
  case 0
  show ?case by (simp add: be_bytes_0)
next
  case (Suc n)
  then show ?case by (simp add: low_byte byte_of_signed_drop_bit be_bytes_def)
qed

lemma write_int64_be: "write_int64 buf v = buf @ be_bytes 8 v"
  by (simp add: write_int64_def write_int64_loop_be)

lemma read_uint16_be: "read_uint16 d p = be_read 2 d p"
proof (cases "p + 2 \<le> length d")
  case True
  then show ?thesis by (simp add: read_uint16_def be_read_def take_2_drop be_val_def)
next
  case False
  then show ?thesis
    by (cases "p < length d") (simp_all add: read_uint16_def be_read_def load_def)
qed

lemma read_uint32_be: "read_uint32 d p = be_read 4 d p"
proof (cases "p + 4 \<le> length d")
  case True
  then show ?thesis
    by (simp add: read_uint32_def be_read_def take_4_drop be_val_def push_bit_or or.assoc
        add_2_eq_Suc' numeral_3_eq_3)
next
  case False
  then have "load d (p + 3) = None" by simp
  then show ?thesis using False by (auto simp: read_uint32_def be_read_def split: bind_splits)
qed

lemma read_int64_loop_be:
  "read_int64_loop d p v n =
     (if p + n \<le> length d then Some (foldl (\<lambda>v b. push_bit 8 v OR ucast b) v (take n (drop p d)))
      else if n = 0 then Some v else None)"
proof (induction n arbitrary: p v)
  case (Suc n)
  show ?case
  proof (cases "p < length d")
    case True
    then have "drop p d = d ! p # drop (Suc p) d" by (simp add: Cons_nth_drop_Suc)
    with True show ?thesis by (auto simp: Suc.IH)
  qed simp
qed simp

lemma read_int64_be: "read_int64 d p = be_read 8 d p"
  by (simp add: read_int64_def read_int64_loop_be be_read_def be_val_def)

lemma write_uint16_eq: "write_uint16 = (\<lambda>buf v. buf @ be_bytes 2 v)"
  by (intro ext) (rule write_uint16_be)

lemma write_uint32_eq: "write_uint32 = (\<lambda>buf v. buf @ be_bytes 4 v)"
  by (intro ext) (rule write_uint32_be)

lemma write_int32_eq: "write_int32 = write_uint32"
  by (intro ext) (simp add: write_int32_def)

lemma write_int64_eq: "write_int64 = (\<lambda>buf v. buf @ be_bytes 8 v)"
  by (intro ext) (rule write_int64_be)

lemma read_uint16_eq: "read_uint16 = be_read 2"
  by (intro ext) (rule read_uint16_be)

lemma read_uint32_eq: "read_uint32 = be_read 4"
  by (intro ext) (rule read_uint32_be)

lemma read_int32_eq: "read_int32 = read_uint32"
  by (intro ext) (simp add: read_int32_def)

lemma read_int64_eq: "read_int64 = be_read 8"
  by (intro ext) (rule read_int64_be)

interpretation s16: wire_field write_uint16 read_uint16 2
  unfolding write_uint16_eq read_uint16_eq by (rule wire_field_be) simp

interpretation s32: wire_field write_uint32 read_uint32 4
  unfolding write_uint32_eq read_uint32_eq by (rule wire_field_be) simp

interpretation si32: wire_field write_int32 read_int32 4
  unfolding write_int32_eq read_int32_eq by (rule s32.wire_field_axioms)

interpretation s64: wire_field write_int64 read_int64 8
  unfolding write_int64_eq read_int64_eq by (rule wire_field_be) simp

interpretation stext: wire_text write_uint16 read_uint16 write_string read_string
  by unfold_locales (simp_all add: write_string_def read_string_def Let_def)

end
