(* ===== verification/Client_Codec.thy ===== *)
theory Client_Codec
  imports Server_Codec
begin

text \<open>
  The Android client's codec, android/app/src/main/cpp/protocol_codec.cpp, with the prefix
  \<open>cl_\<close> on every name the server's codec uses too. The client has its own copy of the
  enumerations: the command codes agree with the server's (the datatype \<open>command_code\<close> serves
  both), the error codes lack \<open>INVALID_REQUEST\<close>. Decoders follow the conventions of the theory
  \<open>Server_Codec\<close>: \<open>None\<close> is a read outside the vector.
\<close>

section \<open>The client's data\<close>

datatype cl_error_code =
    CL_SUCCESS | CL_USER_NOT_FOUND | CL_WRONG_PASSWORD | CL_USER_ALREADY_ONLINE
  | CL_USER_OFFLINE | CL_PROTOCOL_ERROR | CL_DATABASE_ERROR | CL_FRIEND_REQUEST_EXISTS
  | CL_CANNOT_ADD_SELF | CL_USERNAME_EXISTS | CL_INVALID_ANSWER
  | CL_SECURITY_QUESTION_NOT_SET | CL_Unlisted_error u16

definition cl_error_of_u16 :: "u16 \<Rightarrow> cl_error_code" where
  "cl_error_of_u16 w =
     (if w = 0x0000 then CL_SUCCESS
      else if w = 0x0001 then CL_USER_NOT_FOUND
      else if w = 0x0002 then CL_WRONG_PASSWORD
      else if w = 0x0003 then CL_USER_ALREADY_ONLINE
      else if w = 0x0004 then CL_USER_OFFLINE
      else if w = 0x0005 then CL_PROTOCOL_ERROR
      else if w = 0x0006 then CL_DATABASE_ERROR
      else if w = 0x0007 then CL_FRIEND_REQUEST_EXISTS
      else if w = 0x0008 then CL_CANNOT_ADD_SELF
      else if w = 0x0009 then CL_USERNAME_EXISTS
      else if w = 0x000A then CL_INVALID_ANSWER
      else if w = 0x000B then CL_SECURITY_QUESTION_NOT_SET
      else CL_Unlisted_error w)"

fun cl_error_u16 :: "cl_error_code \<Rightarrow> u16" where
  "cl_error_u16 CL_SUCCESS = 0x0000"
| "cl_error_u16 CL_USER_NOT_FOUND = 0x0001"
| "cl_error_u16 CL_WRONG_PASSWORD = 0x0002"
| "cl_error_u16 CL_USER_ALREADY_ONLINE = 0x0003"
| "cl_error_u16 CL_USER_OFFLINE = 0x0004"
| "cl_error_u16 CL_PROTOCOL_ERROR = 0x0005"
| "cl_error_u16 CL_DATABASE_ERROR = 0x0006"
| "cl_error_u16 CL_FRIEND_REQUEST_EXISTS = 0x0007"
| "cl_error_u16 CL_CANNOT_ADD_SELF = 0x0008"
| "cl_error_u16 CL_USERNAME_EXISTS = 0x0009"
| "cl_error_u16 CL_INVALID_ANSWER = 0x000A"
| "cl_error_u16 CL_SECURITY_QUESTION_NOT_SET = 0x000B"
| "cl_error_u16 (CL_Unlisted_error w) = w"

lemma cl_error_u16_of_u16 [simp]: "cl_error_u16 (cl_error_of_u16 w) = w"
  by (simp add: cl_error_of_u16_def)

lemma cl_error_of_u16_eq_SUCCESS [simp]: "cl_error_of_u16 w = CL_SUCCESS \<longleftrightarrow> w = 0"
  by (simp add: cl_error_of_u16_def)

record cl_login_response =
  clresp_error_code :: cl_error_code
  clresp_user_id :: i32
  clresp_username :: string

record friend_info =
  fi_friend_id :: i32
  fi_friend_name :: string

record cl_register_response =
  crresp_error_code :: cl_error_code
  crresp_user_id :: i32

record cl_security_question_response =
  csqresp_error_code :: cl_error_code
  csqresp_question :: string

record cl_reset_password_response =
  crpresp_error_code :: cl_error_code

record cl_version_check_response =
  cvcresp_error_code :: cl_error_code
  cvcresp_server_version :: i32
  cvcresp_update_url :: string
  cvcresp_update_desc :: string

definition CL_VERSION :: byte where
  "CL_VERSION = 1"

definition CL_HEADER_SIZE :: nat where
  "CL_HEADER_SIZE = 7"

section \<open>Primitives\<close>

definition cl_write_uint16 :: "bytes \<Rightarrow> u16 \<Rightarrow> bytes" where
  "cl_write_uint16 buffer value =
     buffer @ [ucast (drop_bit 8 value AND 0xFF), ucast (value AND 0xFF)]"

definition cl_write_uint32 :: "bytes \<Rightarrow> u32 \<Rightarrow> bytes" where
  "cl_write_uint32 buffer value =
     buffer @ [ucast (drop_bit 24 value AND 0xFF), ucast (drop_bit 16 value AND 0xFF),
               ucast (drop_bit 8 value AND 0xFF), ucast (value AND 0xFF)]"

definition cl_write_int32 :: "bytes \<Rightarrow> i32 \<Rightarrow> bytes" where
  "cl_write_int32 buffer value = cl_write_uint32 buffer value"

definition cl_write_string :: "bytes \<Rightarrow> string \<Rightarrow> bytes" where
  "cl_write_string buffer str =
     (let len = (word_of_nat (length str) :: u16)
      in cl_write_uint16 buffer len @ str_bytes str)"

definition cl_read_uint16 :: "bytes \<Rightarrow> nat \<Rightarrow> u16 option" where
  "cl_read_uint16 d p = do {
     b0 \<leftarrow> load d p;
     b1 \<leftarrow> load d (p + 1);
     Some (push_bit 8 (ucast b0) OR ucast b1) }"

definition cl_read_uint32 :: "bytes \<Rightarrow> nat \<Rightarrow> u32 option" where
  "cl_read_uint32 d p = do {
     b0 \<leftarrow> load d p;
     b1 \<leftarrow> load d (p + 1);
     b2 \<leftarrow> load d (p + 2);
     b3 \<leftarrow> load d (p + 3);
     Some (push_bit 24 (ucast b0) OR push_bit 16 (ucast b1) OR push_bit 8 (ucast b2) OR ucast b3) }"

definition cl_read_int32 :: "bytes \<Rightarrow> nat \<Rightarrow> i32 option" where
  "cl_read_int32 d p = cl_read_uint32 d p"

fun cl_read_int64_loop :: "bytes \<Rightarrow> nat \<Rightarrow> i64 \<Rightarrow> nat \<Rightarrow> i64 option" where
  "cl_read_int64_loop d p value 0 = Some value"
| "cl_read_int64_loop d p value (Suc n) = do {
     b \<leftarrow> load d p;
     cl_read_int64_loop d (p + 1) (push_bit 8 value OR ucast b) n }"

definition cl_read_int64 :: "bytes \<Rightarrow> nat \<Rightarrow> i64 option" where
  "cl_read_int64 d p = cl_read_int64_loop d p 0 8"

definition cl_read_string :: "bytes \<Rightarrow> nat \<Rightarrow> nat \<Rightarrow> string option" where
  "cl_read_string d p len =
     (if p + len \<le> length d then Some (bytes_str (take len (drop p d))) else None)"

section \<open>Packet framing\<close>

definition cl_encode :: "command_code \<Rightarrow> bytes \<Rightarrow> bytes" where
  "cl_encode cmd d =
     (let buffer = [CL_VERSION];
          buffer = cl_write_uint16 buffer (command_u16 cmd);
          len = (word_of_nat (length d) :: u32);
          buffer = cl_write_uint32 buffer len
      in buffer @ d)"

definition cl_decode :: "bytes \<Rightarrow> (command_code \<times> bytes) decoded option" where
  "cl_decode buffer =
     (if length buffer < CL_HEADER_SIZE then Some Rejected
      else do {
        cmd \<leftarrow> cl_read_uint16 buffer 1;
        len \<leftarrow> cl_read_uint32 buffer 3;
        if length buffer \<noteq> CL_HEADER_SIZE + unat len then Some Rejected
        else Some (Decoded (command_of_u16 cmd, drop CL_HEADER_SIZE buffer)) })"

section \<open>Request encoders\<close>

definition cl_encode_login_request :: "string \<Rightarrow> string \<Rightarrow> bytes" where
  "cl_encode_login_request username password =
     (let d = cl_write_string [] username;
          d = cl_write_string d password
      in cl_encode LOGIN_REQ d)"

definition cl_encode_message_request :: "i32 \<Rightarrow> string \<Rightarrow> bytes" where
  "cl_encode_message_request to_id content =
     (let d = cl_write_int32 [] to_id;
          d = cl_write_uint32 d (word_of_nat (length content));
          d = d @ str_bytes content
      in cl_encode MESSAGE_REQ d)"

definition cl_encode_friend_list_request :: bytes where
  "cl_encode_friend_list_request = cl_encode FRIEND_LIST_REQ []"

definition cl_encode_add_friend_request :: "i32 \<Rightarrow> bytes" where
  "cl_encode_add_friend_request friend_id =
     cl_encode ADD_FRIEND_REQ (cl_write_int32 [] friend_id)"

definition cl_encode_register_request :: "string \<Rightarrow> string \<Rightarrow> string \<Rightarrow> string \<Rightarrow> bytes" where
  "cl_encode_register_request username password security_question security_answer =
     (let d = cl_write_string [] username;
          d = cl_write_string d password;
          d = cl_write_string d security_question;
          d = cl_write_string d security_answer
      in cl_encode REGISTER_REQ d)"

definition cl_encode_security_question_request :: "string \<Rightarrow> bytes" where
  "cl_encode_security_question_request username =
     cl_encode SECURITY_QUESTION_REQ (cl_write_string [] username)"

definition cl_encode_reset_password_request :: "string \<Rightarrow> string \<Rightarrow> string \<Rightarrow> bytes" where
  "cl_encode_reset_password_request username new_password security_answer =
     (let d = cl_write_string [] username;
          d = cl_write_string d new_password;
          d = cl_write_string d security_answer
      in cl_encode RESET_PASSWORD_REQ d)"

definition cl_encode_version_check_request :: "i32 \<Rightarrow> bytes" where
  "cl_encode_version_check_request client_version =
     cl_encode VERSION_CHECK_REQ (cl_write_int32 [] client_version)"

section \<open>Response decoders\<close>

text \<open>The guard of the name is \<open>offset < data.size()\<close>; the length field it reads is two bytes.\<close>

definition cl_decode_login_response :: "bytes \<Rightarrow> cl_login_response decoded option" where
  "cl_decode_login_response d =
     (if length d < 6 then Some Rejected
      else do {
        e \<leftarrow> cl_read_uint16 d 0;
        user_id \<leftarrow> cl_read_int32 d 2;
        let offset = 6;
        username \<leftarrow>
          (if offset < length d then do {
             name_len \<leftarrow> cl_read_uint16 d offset;
             let offset = offset + 2;
             if offset + unat name_len \<le> length d
             then cl_read_string d offset (unat name_len) else Some '''' }
           else Some '''');
        Some (Decoded \<lparr>clresp_error_code = cl_error_of_u16 e, clresp_user_id = user_id,
                       clresp_username = username\<rparr>) })"

definition cl_decode_message_notify :: "bytes \<Rightarrow> message_notify decoded option" where
  "cl_decode_message_notify d =
     (if length d < 16 then Some Rejected
      else do {
        from_id \<leftarrow> cl_read_int32 d 0;
        content_len \<leftarrow> cl_read_uint32 d 4;
        if unat (8 + content_len + 8) > length d then Some Rejected
        else do {
          content \<leftarrow> cl_read_string d 8 (unat content_len);
          timestamp \<leftarrow> cl_read_int64 d (unat (8 + content_len));
          Some (Decoded \<lparr>mn_from_id = from_id, mn_content = content,
                         mn_timestamp = timestamp\<rparr>) } })"

text \<open>The loop over \<open>count\<close> entries; the third argument counts the passes that are left.\<close>

fun cl_friends_loop :: "bytes \<Rightarrow> nat \<Rightarrow> nat \<Rightarrow> friend_info list \<Rightarrow> friend_info list option" where
  "cl_friends_loop d offset 0 friends = Some friends"
| "cl_friends_loop d offset (Suc n) friends =
     (if offset + 4 > length d then Some friends
      else do {
        friend_id \<leftarrow> cl_read_int32 d offset;
        let offset = offset + 4;
        if offset + 2 > length d then Some friends
        else do {
          name_len \<leftarrow> cl_read_uint16 d offset;
          let offset = offset + 2;
          if offset + unat name_len > length d then Some friends
          else do {
            friend_name \<leftarrow> cl_read_string d offset (unat name_len);
            let offset = offset + unat name_len;
            cl_friends_loop d offset n
              (friends @ [\<lparr>fi_friend_id = friend_id, fi_friend_name = friend_name\<rparr>]) } } })"

definition cl_decode_friend_list_response :: "bytes \<Rightarrow> friend_info list decoded option" where
  "cl_decode_friend_list_response d =
     (if length d < 6 then Some Rejected
      else do {
        e \<leftarrow> cl_read_uint16 d 0;
        if cl_error_of_u16 e \<noteq> CL_SUCCESS then Some Rejected
        else do {
          count \<leftarrow> cl_read_uint32 d 2;
          friends \<leftarrow> cl_friends_loop d 6 (unat count) [];
          Some (Decoded friends) } })"

definition cl_decode_register_response :: "bytes \<Rightarrow> cl_register_response decoded option" where
  "cl_decode_register_response d =
     (if length d < 6 then Some Rejected
      else do {
        e \<leftarrow> cl_read_uint16 d 0;
        user_id \<leftarrow> cl_read_int32 d 2;
        Some (Decoded \<lparr>crresp_error_code = cl_error_of_u16 e, crresp_user_id = user_id\<rparr>) })"

definition cl_decode_security_question_response ::
    "bytes \<Rightarrow> cl_security_question_response decoded option" where
  "cl_decode_security_question_response d =
     (if length d < 2 then Some Rejected
      else do {
        e \<leftarrow> cl_read_uint16 d 0;
        let offset = 2;
        question \<leftarrow>
          (if offset < length d then do {
             question_len \<leftarrow> cl_read_uint16 d offset;
             let offset = offset + 2;
             if offset + unat question_len \<le> length d
             then cl_read_string d offset (unat question_len) else Some '''' }
           else Some '''');
        Some (Decoded \<lparr>csqresp_error_code = cl_error_of_u16 e, csqresp_question = question\<rparr>) })"

definition cl_decode_reset_password_response ::
    "bytes \<Rightarrow> cl_reset_password_response decoded option" where
  "cl_decode_reset_password_response d =
     (if length d < 2 then Some Rejected
      else do {
        e \<leftarrow> cl_read_uint16 d 0;
        Some (Decoded \<lparr>crpresp_error_code = cl_error_of_u16 e\<rparr>) })"

text \<open>
  The offset moves past the length field even when the text itself does not fit, and the
  description is then looked for right behind it.
\<close>

definition cl_decode_version_check_response ::
    "bytes \<Rightarrow> cl_version_check_response decoded option" where
  "cl_decode_version_check_response d =
     (if length d < 6 then Some Rejected
      else do {
        e \<leftarrow> cl_read_uint16 d 0;
        server_version \<leftarrow> cl_read_int32 d 2;
        let offset = 6;
        (update_url, offset) \<leftarrow>
          (if offset + 2 \<le> length d then do {
             url_len \<leftarrow> cl_read_uint16 d offset;
             let offset = offset + 2;
             if offset + unat url_len \<le> length d then do {
               url \<leftarrow> cl_read_string d offset (unat url_len);
               Some (url, offset + unat url_len) }
             else Some ('''', offset) }
           else Some ('''', offset));
        update_desc \<leftarrow>
          (if offset + 2 \<le> length d then do {
             desc_len \<leftarrow> cl_read_uint16 d offset;
             let offset = offset + 2;
             if offset + unat desc_len \<le> length d
             then cl_read_string d offset (unat desc_len) else Some '''' }
           else Some '''');
        Some (Decoded \<lparr>cvcresp_error_code = cl_error_of_u16 e,
                       cvcresp_server_version = server_version,
                       cvcresp_update_url = update_url, cvcresp_update_desc = update_desc\<rparr>) })"

section \<open>The client's primitives are the server's\<close>

lemma cl_write_uint16_eq: "cl_write_uint16 = write_uint16"
  by (intro ext) (simp add: cl_write_uint16_def write_uint16_def)

lemma cl_write_uint32_eq: "cl_write_uint32 = write_uint32"
  by (intro ext) (simp add: cl_write_uint32_def write_uint32_def)

lemma cl_write_int32_eq: "cl_write_int32 = write_int32"
  by (intro ext) (simp add: cl_write_int32_def write_int32_def cl_write_uint32_eq)

lemma cl_write_string_eq: "cl_write_string = write_string"
  by (intro ext) (simp add: cl_write_string_def write_string_def cl_write_uint16_eq)

lemma cl_read_uint16_eq: "cl_read_uint16 = read_uint16"
  by (intro ext) (simp add: cl_read_uint16_def read_uint16_def)

lemma cl_read_uint32_eq: "cl_read_uint32 = read_uint32"
  by (intro ext) (simp add: cl_read_uint32_def read_uint32_def)

lemma cl_read_int32_eq: "cl_read_int32 = read_int32"
  by (intro ext) (simp add: cl_read_int32_def read_int32_def cl_read_uint32_eq)

lemma cl_read_int64_loop_eq: "cl_read_int64_loop d p v n = read_int64_loop d p v n"
  by (induction d p v n rule: cl_read_int64_loop.induct)
    (simp_all cong: Option.bind_cong)

lemma cl_read_int64_eq: "cl_read_int64 = read_int64"
  by (intro ext) (simp add: cl_read_int64_def read_int64_def cl_read_int64_loop_eq)

lemma cl_read_string_eq: "cl_read_string = read_string"
  by (intro ext) (simp add: cl_read_string_def read_string_def)

lemmas cl_prim_eqs =
  cl_write_uint16_eq cl_write_uint32_eq cl_write_int32_eq cl_write_string_eq
  cl_read_uint16_eq cl_read_uint32_eq cl_read_int32_eq cl_read_int64_eq cl_read_string_eq

text \<open>Client writer with server reader, and server writer with client reader, meet the contract.\<close>

interpretation c16s: wire_field cl_write_uint16 read_uint16 2
  unfolding cl_prim_eqs by (rule s16.wire_field_axioms)

interpretation c32s: wire_field cl_write_uint32 read_uint32 4
  unfolding cl_prim_eqs by (rule s32.wire_field_axioms)

interpretation ci32s: wire_field cl_write_int32 read_int32 4
  unfolding cl_prim_eqs by (rule si32.wire_field_axioms)

interpretation ctext: wire_text cl_write_uint16 read_uint16 cl_write_string read_string
  unfolding cl_prim_eqs by (rule stext.wire_text_axioms)

interpretation s16c: wire_field write_uint16 cl_read_uint16 2
  unfolding cl_prim_eqs by (rule s16.wire_field_axioms)

interpretation s32c: wire_field write_uint32 cl_read_uint32 4
  unfolding cl_prim_eqs by (rule s32.wire_field_axioms)

interpretation si32c: wire_field write_int32 cl_read_int32 4
  unfolding cl_prim_eqs by (rule si32.wire_field_axioms)

interpretation s64c: wire_field write_int64 cl_read_int64 8
  unfolding cl_prim_eqs by (rule s64.wire_field_axioms)

interpretation stextc: wire_text write_uint16 cl_read_uint16 write_string cl_read_string
  unfolding cl_prim_eqs by (rule stext.wire_text_axioms)

end
