(* ===== verification/Codec_Roundtrip.thy ===== *)
theory Codec_Roundtrip
  imports Client_Codec
begin

text \<open>
  What one side of the protocol writes, the other side reads: the framing is a bijection between
  packets and their bytes, every request the client encodes is decoded by the server to the same
  values, every response the server encodes is decoded by the client to the same values, and for
  arbitrary input each decoder either stays inside its buffer or is shown to leave it on exactly
  the inputs stated.
\<close>

section \<open>Decoders as chains of text fields\<close>

lemma decode_login_request_fields:
  "decode_login_request d =
     (if length d < 4 then Some Rejected
      else stext.text_then d 0 (\<lambda>u o1. stext.text_then d o1 (\<lambda>p o2.
        Some (Decoded \<lparr>lreq_username = u, lreq_password = p\<rparr>))))"
  unfolding decode_login_request_def stext.text_then_def Let_def by (simp cong: if_cong)

lemma decode_register_request_fields:
  "decode_register_request d =
     (if length d < 6 then Some Rejected
      else stext.text_then d 0 (\<lambda>u o1. stext.text_then d o1 (\<lambda>p o2.
        stext.text_then d o2 (\<lambda>q o3. stext.text_then d o3 (\<lambda>a o4.
          Some (Decoded \<lparr>rreq_username = u, rreq_password = p,
                         rreq_security_question = q, rreq_security_answer = a\<rparr>))))))"
  unfolding decode_register_request_def stext.text_then_def Let_def by (simp cong: if_cong)

lemma decode_security_question_request_fields:
  "decode_security_question_request d =
     stext.text_then d 0 (\<lambda>u o1. Some (Decoded \<lparr>sqreq_username = u\<rparr>))"
  unfolding decode_security_question_request_def stext.text_then_def Let_def
  by (simp cong: if_cong add: numeral_2_eq_2)

lemma decode_reset_password_request_fields:
  "decode_reset_password_request d =
     (if length d < 6 then Some Rejected
      else stext.text_then d 0 (\<lambda>u o1. stext.text_then d o1 (\<lambda>p o2.
        stext.text_then d o2 (\<lambda>a o3.
          Some (Decoded \<lparr>rpreq_username = u, rpreq_new_password = p,
                         rpreq_security_answer = a\<rparr>)))))"
  unfolding decode_reset_password_request_def stext.text_then_def Let_def by (simp cong: if_cong)


section \<open>Framing\<close>

lemmas write_flat =
  write_uint16_be write_uint32_be write_int32_eq write_int64_be
lemmas read_flat =
  read_uint16_be read_uint32_be read_int32_eq read_int64_be

lemma encode_flat:
  "encode p = pkt_version p # be_bytes 2 (command_u16 (pkt_command p))
     @ be_bytes 4 (word_of_nat (length (pkt_data p)) :: u32) @ pkt_data p"
  by (simp add: encode_def write_flat)

lemma length_encode: "length (encode p) = 7 + length (pkt_data p)"
  by (simp add: encode_flat)

lemma cl_encode_eq: "cl_encode cmd d = encode \<lparr>pkt_version = VERSION, pkt_command = cmd, pkt_data = d\<rparr>"
  by (simp add: cl_encode_def encode_def cl_prim_eqs CL_VERSION_def VERSION_def)

lemma read_header:
  assumes "d = v # be_bytes 2 c @ be_bytes 4 (l :: u32) @ rest"
  shows "load d 0 = Some v" "read_uint16 d 1 = Some c" "read_uint32 d 3 = Some l"
    "drop 7 d = rest"
  using assms by (simp_all add: read_flat wire_simps)

lemma decode_encode:
  assumes "length (pkt_data p) < 4294967296" and "canonical_command (pkt_command p)"
  shows "decode (encode p) = Some (Decoded p)"
proof -
  note h = read_header [OF encode_flat [of p]]
  have "length (pkt_data p) = unat (word_of_nat (length (pkt_data p)) :: u32)"
    by (simp add: unat_of_nat_u32 assms(1))
  then show ?thesis
    using canonical_commandD [OF assms(2)] h
    by (simp add: decode_def HEADER_SIZE_def length_encode)
qed

lemma decode_DecodedD:
  assumes "decode d = Some (Decoded p)"
  shows "encode p = d \<and> length (pkt_data p) < 4294967296 \<and> canonical_command (pkt_command p)"
proof -
  from assms obtain v c l where v: "load d 0 = Some v" and c: "read_uint16 d 1 = Some c"
    and l: "read_uint32 d 3 = Some l" and len: "length d = 7 + unat l"
    and p: "p = \<lparr>pkt_version = v, pkt_command = command_of_u16 c, pkt_data = drop 7 d\<rparr>"
    by (auto simp: decode_def HEADER_SIZE_def split: if_splits bind_splits)
  have "d = v # drop 1 d" using v len by (cases d) auto
  moreover have "drop 1 d = be_bytes 2 c @ drop 3 d"
    using s16.get_SomeD [OF c] append_take_drop_id [of 2 "drop 1 d"] by (simp add: write_flat)
  moreover have "drop 3 d = be_bytes 4 l @ drop 7 d"
    using s32.get_SomeD [OF l] append_take_drop_id [of 4 "drop 3 d"] by (simp add: write_flat)
  ultimately have d: "d = v # be_bytes 2 c @ be_bytes 4 l @ drop 7 d" by simp
  have "(word_of_nat (length d - 7) :: u32) = l" using len by simp
  then have "encode p = v # be_bytes 2 c @ be_bytes 4 l @ drop 7 d"
    by (simp add: encode_flat p)
  with d show ?thesis using p len unat_u32_less [of l] by simp
qed

lemma decode_cl_encode:
  "canonical_command cmd \<Longrightarrow> length d < 4294967296 \<Longrightarrow>
     decode (cl_encode cmd d)
       = Some (Decoded \<lparr>pkt_version = VERSION, pkt_command = cmd, pkt_data = d\<rparr>)"
  by (simp add: cl_encode_eq decode_encode)

lemma cl_decode_eq:
  "cl_decode d = map_option (\<lambda>r. case r of Rejected \<Rightarrow> Rejected
     | Decoded p \<Rightarrow> Decoded (pkt_command p, pkt_data p)) (decode d)"
proof (cases "length d < 7")
  case False
  then have "load d 0 \<noteq> None" by (auto simp: load_def)
  with False show ?thesis
    by (auto simp: cl_decode_def decode_def cl_prim_eqs CL_HEADER_SIZE_def HEADER_SIZE_def
        split: bind_splits)
qed (simp add: cl_decode_def decode_def CL_HEADER_SIZE_def HEADER_SIZE_def)

lemma cl_decode_encode:
  "length (pkt_data p) < 4294967296 \<Longrightarrow> canonical_command (pkt_command p) \<Longrightarrow>
     cl_decode (encode p) = Some (Decoded (pkt_command p, pkt_data p))"
  by (simp add: cl_decode_eq decode_encode)

section \<open>From the client to the server: bodies of requests\<close>

lemmas text_lengths = stext.length_put_str s16.length_put s32.length_put si32.length_put s64.length_put

lemma write_string_flat: "buf \<noteq> [] \<Longrightarrow> write_string buf s = buf @ write_string [] s"
  by (rule stext.put_str_append)

lemma write_string_nonempty [simp]: "write_string buf s \<noteq> []"
  by (simp add: write_string_def write_uint16_def Let_def)

lemma login_body:
  assumes "length u < 65536" and "length p < 65536"
  shows "decode_login_request (write_string (write_string [] u) p)
     = Some (Decoded \<lparr>lreq_username = u, lreq_password = p\<rparr>)"
  using assms
  by (simp add: decode_login_request_fields write_string_flat text_lengths
      stext.text_then_at [of _ _ u "write_string [] p"] stext.text_then_at [of _ _ p "[]"])

lemma register_body:
  assumes "length u < 65536" and "length p < 65536" and "length q < 65536" and "length a < 65536"
  shows "decode_register_request
      (write_string (write_string (write_string (write_string [] u) p) q) a)
     = Some (Decoded \<lparr>rreq_username = u, rreq_password = p, rreq_security_question = q,
                      rreq_security_answer = a\<rparr>)"
  using assms
  by (simp add: decode_register_request_fields write_string_flat text_lengths
      stext.text_then_at [of _ _ u "write_string [] p @ write_string [] q @ write_string [] a"]
      stext.text_then_at [of _ _ p "write_string [] q @ write_string [] a"]
      stext.text_then_at [of _ _ q "write_string [] a"] stext.text_then_at [of _ _ a "[]"])

lemma reset_password_body:
  assumes "length u < 65536" and "length p < 65536" and "length a < 65536"
  shows "decode_reset_password_request (write_string (write_string (write_string [] u) p) a)
     = Some (Decoded \<lparr>rpreq_username = u, rpreq_new_password = p, rpreq_security_answer = a\<rparr>)"
  using assms
  by (simp add: decode_reset_password_request_fields write_string_flat text_lengths
      stext.text_then_at [of _ _ u "write_string [] p @ write_string [] a"]
      stext.text_then_at [of _ _ p "write_string [] a"] stext.text_then_at [of _ _ a "[]"])

lemma security_question_body:
  "length u < 65536 \<Longrightarrow>
     decode_security_question_request (write_string [] u) = Some (Decoded \<lparr>sqreq_username = u\<rparr>)"
  by (simp add: decode_security_question_request_fields stext.text_then_at [of _ _ u "[]"])

lemma message_body:
  assumes "length c < 4294967288"
  shows "decode_message_request
      (write_uint32 (write_int32 [] t) (word_of_nat (length c)) @ str_bytes c)
     = Some (Decoded \<lparr>mreq_to_id = t, mreq_content = c\<rparr>)"
proof -
  let ?n = "word_of_nat (length c) :: u32"
  let ?d = "write_uint32 (write_int32 [] t) ?n @ str_bytes c"
  have d: "?d = be_bytes 4 t @ be_bytes 4 ?n @ str_bytes c" by (simp add: write_flat)
  have "read_int32 ?d 0 = Some t" and "read_uint32 ?d 4 = Some ?n"
    unfolding d by (simp_all add: read_flat wire_simps)
  moreover have "unat ?n = length c" using assms by (simp add: unat_of_nat_u32)
  moreover from this have "unat (4 + 4 + ?n) = 8 + length c"
    using assms by (simp add: unat_add_u32)
  ultimately show ?thesis
    by (simp add: decode_message_request_def read_string_def d)
qed

lemma version_check_body:
  "decode_version_check_request (write_int32 [] v) = Some (Decoded \<lparr>vcreq_client_version = v\<rparr>)"
  by (simp add: decode_version_check_request_def write_flat read_flat wire_simps)

section \<open>From the server to the client: bodies of responses\<close>

lemma write_string_be:
  "write_string buf s = buf @ be_bytes 2 (word_of_nat (length s) :: u16) @ str_bytes s"
  by (simp add: write_string_def write_flat)

lemmas body_simps =
  write_flat write_string_be cl_prim_eqs read_flat wire_simps read_string_def unat_of_nat_u16

lemma login_response_body:
  "length (lresp_username r) < 65536 \<Longrightarrow>
     cl_decode_login_response (encode_login_response r)
       = Some (Decoded \<lparr>clresp_error_code = cl_error_of_u16 (error_u16 (lresp_error_code r)),
           clresp_user_id = lresp_user_id r, clresp_username = lresp_username r\<rparr>)"
  by (simp add: cl_decode_login_response_def encode_login_response_def body_simps)

lemma register_response_body:
  "cl_decode_register_response (encode_register_response r)
     = Some (Decoded \<lparr>crresp_error_code = cl_error_of_u16 (error_u16 (rresp_error_code r)),
         crresp_user_id = rresp_user_id r\<rparr>)"
  by (simp add: cl_decode_register_response_def encode_register_response_def body_simps)

lemma security_question_response_body:
  "length (sqresp_question r) < 65536 \<Longrightarrow>
     cl_decode_security_question_response (encode_security_question_response r)
       = Some (Decoded \<lparr>csqresp_error_code = cl_error_of_u16 (error_u16 (sqresp_error_code r)),
           csqresp_question = sqresp_question r\<rparr>)"
  by (simp add: cl_decode_security_question_response_def encode_security_question_response_def
      body_simps)

lemma reset_password_response_body:
  "cl_decode_reset_password_response (encode_reset_password_response r)
     = Some (Decoded \<lparr>crpresp_error_code = cl_error_of_u16 (error_u16 (rpresp_error_code r))\<rparr>)"
  by (simp add: cl_decode_reset_password_response_def encode_reset_password_response_def
      body_simps)

lemma version_check_response_body:
  "length (vcresp_update_url r) < 65536 \<Longrightarrow> length (vcresp_update_desc r) < 65536 \<Longrightarrow>
     cl_decode_version_check_response (encode_version_check_response r)
       = Some (Decoded \<lparr>cvcresp_error_code = cl_error_of_u16 (error_u16 (vcresp_error_code r)),
           cvcresp_server_version = vcresp_server_version r,
           cvcresp_update_url = vcresp_update_url r,
           cvcresp_update_desc = vcresp_update_desc r\<rparr>)"
  by (simp add: cl_decode_version_check_response_def encode_version_check_response_def
      body_simps)

lemma message_notify_body:
  assumes "length (mn_content n) < 4294967280"
  shows "cl_decode_message_notify (encode_message_notify n) = Some (Decoded n)"
proof -
  let ?n = "word_of_nat (length (mn_content n)) :: u32"
  let ?d = "encode_message_notify n"
  have d: "?d = be_bytes 4 (mn_from_id n) @ be_bytes 4 ?n @ str_bytes (mn_content n)
      @ be_bytes 8 (mn_timestamp n)"
    by (simp add: encode_message_notify_def write_flat)
  have n: "unat ?n = length (mn_content n)" using assms by (simp add: unat_of_nat_u32)
  then have w: "unat (8 + ?n + 8) = 16 + length (mn_content n)"
    and i: "unat (8 + ?n) = 8 + length (mn_content n)"
    using assms by (simp_all add: unat_add_u32)
  have "read_int32 ?d 0 = Some (mn_from_id n)" and "read_uint32 ?d 4 = Some ?n"
    and "read_int64 ?d (8 + length (mn_content n)) = Some (mn_timestamp n)"
    unfolding d by (simp_all add: read_flat wire_simps)
  then show ?thesis
    using n w i by (simp add: cl_decode_message_notify_def cl_prim_eqs read_string_def d)
qed


definition friend_entry :: "i32 \<times> string \<Rightarrow> bytes" where
  "friend_entry f = be_bytes 4 (fst f)
     @ be_bytes 2 (word_of_nat (length (snd f)) :: u16) @ str_bytes (snd f)"

definition friend_info_of :: "i32 \<times> string \<Rightarrow> friend_info" where
  "friend_info_of f = \<lparr>fi_friend_id = fst f, fi_friend_name = snd f\<rparr>"

lemma encode_friends_loop_flat: "encode_friends_loop buf fs = buf @ concat (map friend_entry fs)"
  by (induction fs arbitrary: buf)
     (simp_all add: Let_def write_string_be write_flat friend_entry_def)

lemma cl_friends_loop_entries:
  assumes "\<forall>f\<in>set fs. length (snd f) < 65536"
  shows "cl_friends_loop (pre @ concat (map friend_entry fs)) (length pre) (length fs) acc
     = Some (acc @ map friend_info_of fs)"
  using assms
proof (induction fs arbitrary: pre acc)
  case (Cons f fs)
  let ?rest = "concat (map friend_entry fs)"
  have IH: "cl_friends_loop ((pre @ friend_entry f) @ ?rest) (length (pre @ friend_entry f))
      (length fs) (acc @ [friend_info_of f]) = Some ((acc @ [friend_info_of f]) @ map friend_info_of fs)"
    by (rule Cons.IH) (use Cons.prems in simp)
  then show ?case
    using Cons.prems
    by (simp add: body_simps friend_entry_def [of f] friend_info_of_def [of f] ac_simps)
qed simp

lemma friend_list_response_body:
  assumes "\<forall>f\<in>set (flresp_friends r). length (snd f) < 65536"
    and "length (flresp_friends r) < 4294967296"
  shows "cl_decode_friend_list_response (encode_friend_list_response r)
     = Some (if flresp_error_code r = SUCCESS
             then Decoded (map friend_info_of (flresp_friends r)) else Rejected)"
proof -
  let ?fs = "flresp_friends r" and ?e = "error_u16 (flresp_error_code r)"
  let ?pre = "be_bytes 2 ?e @ be_bytes 4 (word_of_nat (length ?fs) :: u32)"
  have d: "encode_friend_list_response r = ?pre @ concat (map friend_entry ?fs)"
    by (simp add: encode_friend_list_response_def encode_friends_loop_flat write_flat)
  have loop: "cl_friends_loop (?pre @ concat (map friend_entry ?fs)) 6 (length ?fs) []
      = Some (map friend_info_of ?fs)"
    using cl_friends_loop_entries [OF assms(1), of ?pre "[]"] by simp
  have e: "?e = 0 \<longleftrightarrow> flresp_error_code r = SUCCESS" by (cases "flresp_error_code r") simp_all
  show ?thesis
  proof (cases "flresp_error_code r = SUCCESS")
    case True
    then show ?thesis
      unfolding d cl_decode_friend_list_response_def
      using loop by (simp add: cl_prim_eqs read_flat wire_simps unat_of_nat_u32 assms(2))
  next
    case False
    then show ?thesis
      unfolding d cl_decode_friend_list_response_def
      using e by (simp add: cl_prim_eqs read_flat wire_simps)
  qed
qed

section \<open>Arbitrary input\<close>

text \<open>What decides whether a decoder stays inside its buffer.\<close>

lemma read16_defined: "p + 2 \<le> length d \<Longrightarrow> \<exists>v. read_uint16 d p = Some v"
  by (rule s16.get_defined)

lemma read32_defined: "p + 4 \<le> length d \<Longrightarrow> \<exists>v. read_uint32 d p = Some v"
  by (rule s32.get_defined)

lemma decode_safe: "decode d \<noteq> None"
proof (cases "length d < 7")
  case False
  then have "load d 0 = Some (d ! 0)" by (auto simp: load_def)
  moreover obtain c l where "read_uint16 d 1 = Some c" and "read_uint32 d 3 = Some l"
    using read16_defined [of 1 d] read32_defined [of 3 d] False by auto
  ultimately show ?thesis by (simp add: decode_def)
qed (simp add: decode_def HEADER_SIZE_def)






lemma decode_message_request_fault_iff:
  "decode_message_request d = None \<longleftrightarrow>
     8 \<le> length d \<and> (\<exists>l. read_uint32 d 4 = Some l \<and> unat (8 + l) \<le> length d
        \<and> length d < 8 + unat l)"
proof (cases "length d < 8")
  case False
  then obtain t l where "read_uint32 d 0 = Some t" and "read_uint32 d 4 = Some l"
    using read32_defined [of 0 d] read32_defined [of 4 d] by auto
  with False show ?thesis
    by (auto simp: decode_message_request_def read_int32_eq read_string_def)
qed (simp add: decode_message_request_def)

lemma cl_login_response_fault_iff: "cl_decode_login_response d = None \<longleftrightarrow> length d = 7"
proof (cases "length d < 6")
  case False
  then obtain e u where eu: "read_uint16 d 0 = Some e" "read_uint32 d 2 = Some u"
    using read16_defined [of 0 d] read32_defined [of 2 d] by auto
  consider "length d = 6" | "length d = 7" | "8 \<le> length d" using False by linarith
  then show ?thesis
  proof cases
    case 2
    then have "read_uint16 d 6 = None" by (simp add: s16.get_out)
    with 2 eu show ?thesis by (simp add: cl_decode_login_response_def cl_prim_eqs read_int32_eq)
  next
    case 3
    then obtain n where "read_uint16 d 6 = Some n" using read16_defined [of 6 d] by auto
    with 3 eu show ?thesis
      by (simp add: cl_decode_login_response_def cl_prim_eqs read_int32_eq read_string_def)
  qed (use eu in \<open>simp add: cl_decode_login_response_def cl_prim_eqs read_int32_eq\<close>)
qed (auto simp: cl_decode_login_response_def)

lemma cl_security_question_response_fault_iff:
  "cl_decode_security_question_response d = None \<longleftrightarrow> length d = 3"
proof (cases "length d < 2")
  case False
  then obtain e where e: "read_uint16 d 0 = Some e" using read16_defined [of 0 d] by auto
  consider "length d = 2" | "length d = 3" | "4 \<le> length d" using False by linarith
  then show ?thesis
  proof cases
    case 2
    then have "read_uint16 d 2 = None" by (simp add: s16.get_out)
    with 2 e show ?thesis
      by (simp add: cl_decode_security_question_response_def cl_prim_eqs)
  next
    case 3
    then obtain n where "read_uint16 d 2 = Some n" using read16_defined [of 2 d] by auto
    with 3 e show ?thesis
      by (simp add: cl_decode_security_question_response_def cl_prim_eqs read_string_def)
  qed (use e in \<open>simp add: cl_decode_security_question_response_def cl_prim_eqs\<close>)
qed (auto simp: cl_decode_security_question_response_def)






lemma cl_message_notify_fault_iff:
  "cl_decode_message_notify d = None \<longleftrightarrow>
     16 \<le> length d \<and> (\<exists>l. read_uint32 d 4 = Some l \<and> unat (16 + l) \<le> length d
        \<and> (length d < 8 + unat l \<or> length d < unat (8 + l) + 8))"
proof (cases "length d < 16")
  case False
  then obtain t l where "read_uint32 d 0 = Some t" "read_uint32 d 4 = Some l"
    using read32_defined [of 0 d] read32_defined [of 4 d] by auto
  moreover have "read_int64 d (unat (8 + l)) = None \<longleftrightarrow> length d < unat (8 + l) + 8"
    using s64.get_defined [of "unat (8 + l)" d] s64.get_out [of d "unat (8 + l)"] by fastforce
  ultimately show ?thesis using False
    by (cases "read_int64 d (unat (8 + l))")
       (auto simp: cl_decode_message_notify_def cl_prim_eqs read_int32_eq read_string_def
         add.commute)
qed (simp add: cl_decode_message_notify_def)

text \<open>A user name of 65536 equal letters: its length goes out as 0, its letters as a password.\<close>

lemma long_login_body:
  assumes "n = 65536" and "c = CHR ''a''"
  shows "decode_login_request (write_string (write_string [] (replicate n c)) p)
     = Some (Decoded \<lparr>lreq_username = [], lreq_password = replicate 24929 c\<rparr>)"
proof -
  let ?d = "write_string [] (replicate n c) @ write_string [] p"
  let ?k = "\<lambda>u o1. stext.text_then ?d o1
      (\<lambda>p o2. Some (Decoded \<lparr>lreq_username = u, lreq_password = p\<rparr>))"
  have "replicate n c = replicate 2 c @ replicate 24929 c @ replicate 40605 c"
    by (simp only: replicate_add [symmetric] assms(1)) simp
  moreover have "str_bytes (replicate 2 c) = be_bytes 2 (word_of_nat 24929 :: u16)"
    unfolding numeral_2_eq_2 by (simp add: be_bytes_Suc be_bytes_0 assms(2) byte_of_char_def)
  ultimately have "drop 2 ?d = write_string [] (replicate 24929 c)
      @ str_bytes (replicate 40605 c) @ write_string [] p"
    by (simp add: write_string_be)
  then have "?k [] 2 = Some (Decoded \<lparr>lreq_username = [], lreq_password = replicate 24929 c\<rparr>)"
    by (simp add: stext.text_then_at text_lengths)
  moreover have "stext.text_then ?d 0 ?k
      = ?k (take (length (replicate n c) mod 65536) (replicate n c))
          (0 + 2 + length (replicate n c) mod 65536)"
    by (rule stext.text_then_put_long) simp
  moreover have "length (replicate n c) mod 65536 = 0" by (simp add: assms(1))
  ultimately have "stext.text_then ?d 0 ?k
      = Some (Decoded \<lparr>lreq_username = [], lreq_password = replicate 24929 c\<rparr>)"
    by (simp only: take_0 add_0 add_0_right)
  then show ?thesis
    by (simp add: decode_login_request_fields write_string_flat text_lengths assms(1))
qed

section \<open>Properties\<close>

lemma encode_request_sizes:
  "length (write_string [] u) = 2 + length u"
  "length (write_string (write_string [] u) p) = 4 + length u + length p"
  "length (write_string (write_string (write_string [] u) p) q) = 6 + length u + length p + length q"
  "length (write_string (write_string (write_string (write_string [] u) p) q) a)
     = 8 + length u + length p + length q + length a"
  by (simp_all add: text_lengths)

lemma canonical_commands [simp]:
  "canonical_command LOGIN_REQ" "canonical_command MESSAGE_REQ"
  "canonical_command FRIEND_LIST_REQ" "canonical_command ADD_FRIEND_REQ"
  "canonical_command REGISTER_REQ" "canonical_command SECURITY_QUESTION_REQ"
  "canonical_command RESET_PASSWORD_REQ" "canonical_command VERSION_CHECK_REQ"
  "canonical_command LOGIN_RESP" "canonical_command MESSAGE_RESP"
  "canonical_command MESSAGE_NOTIFY" "canonical_command FRIEND_LIST_RESP"
  "canonical_command ADD_FRIEND_RESP" "canonical_command REGISTER_RESP"
  "canonical_command SECURITY_QUESTION_RESP" "canonical_command RESET_PASSWORD_RESP"
  "canonical_command VERSION_CHECK_RESP"
  by (simp_all add: canonical_listed)

text \<open>
  C3. The framing is a bijection: \<open>ProtocolCodec::decode\<close> never reads outside its input, and it
  accepts a byte vector exactly when the vector is the encoding of the packet it returns, with a
  body shorter than 4 GiB and a command in its canonical constructor.
\<close>

theorem frame_bijection:
  "decode d \<noteq> None \<and>
   (decode d = Some (Decoded p) \<longleftrightarrow>
      d = encode p \<and> length (pkt_data p) < 4294967296 \<and> canonical_command (pkt_command p))"
  using decode_safe [of d] decode_DecodedD [of d p] decode_encode [of p] by blast

text \<open>
  A login request the client encodes is decoded by the server to the same user name and
  password, when each fits the 16-bit length of its field.
\<close>

theorem login_request_roundtrip:
  assumes "length username < 65536" and "length password < 65536"
  shows "\<exists>p. decode (cl_encode_login_request username password) = Some (Decoded p)
    \<and> pkt_version p = VERSION \<and> pkt_command p = LOGIN_REQ
    \<and> decode_login_request (pkt_data p)
        = Some (Decoded \<lparr>lreq_username = username, lreq_password = password\<rparr>)"
  using assms
  by (simp add: cl_encode_login_request_def cl_prim_eqs decode_cl_encode encode_request_sizes
      login_body)

theorem login_request_roundtrip_witness:
  "\<exists>p. decode (cl_encode_login_request ''bob'' ''secret'') = Some (Decoded p)
    \<and> pkt_version p = VERSION \<and> pkt_command p = LOGIN_REQ
    \<and> decode_login_request (pkt_data p)
        = Some (Decoded \<lparr>lreq_username = ''bob'', lreq_password = ''secret''\<rparr>)"
  by (rule login_request_roundtrip) simp_all

text \<open>
  C20. A registration request the client encodes is decoded by the server to the same user name,
  password, security question and answer, a security question request to the same user name, and
  a password reset to the same user name, password and answer, when each text fits the 16-bit
  length of its field.
\<close>

theorem account_request_roundtrip:
  assumes "length u < 65536" and "length p < 65536" and "length q < 65536" and "length a < 65536"
  shows "(\<exists>pk. decode (cl_encode_register_request u p q a) = Some (Decoded pk)
      \<and> pkt_command pk = REGISTER_REQ
      \<and> decode_register_request (pkt_data pk)
          = Some (Decoded \<lparr>rreq_username = u, rreq_password = p, rreq_security_question = q,
                           rreq_security_answer = a\<rparr>))
    \<and> (\<exists>pk. decode (cl_encode_security_question_request u) = Some (Decoded pk)
      \<and> pkt_command pk = SECURITY_QUESTION_REQ
      \<and> decode_security_question_request (pkt_data pk) = Some (Decoded \<lparr>sqreq_username = u\<rparr>))
    \<and> (\<exists>pk. decode (cl_encode_reset_password_request u p a) = Some (Decoded pk)
      \<and> pkt_command pk = RESET_PASSWORD_REQ
      \<and> decode_reset_password_request (pkt_data pk)
          = Some (Decoded \<lparr>rpreq_username = u, rpreq_new_password = p,
                           rpreq_security_answer = a\<rparr>))"
  using assms
  by (simp add: cl_encode_register_request_def cl_encode_reset_password_request_def
      cl_encode_security_question_request_def cl_prim_eqs decode_cl_encode encode_request_sizes
      register_body reset_password_body security_question_body)

theorem account_request_roundtrip_witness:
  "(\<exists>pk. decode (cl_encode_register_request ''bob'' ''pw'' ''pet?'' ''rex'') = Some (Decoded pk)
      \<and> pkt_command pk = REGISTER_REQ
      \<and> decode_register_request (pkt_data pk)
          = Some (Decoded \<lparr>rreq_username = ''bob'', rreq_password = ''pw'',
              rreq_security_question = ''pet?'', rreq_security_answer = ''rex''\<rparr>))
    \<and> (\<exists>pk. decode (cl_encode_security_question_request ''bob'') = Some (Decoded pk)
      \<and> pkt_command pk = SECURITY_QUESTION_REQ
      \<and> decode_security_question_request (pkt_data pk) = Some (Decoded \<lparr>sqreq_username = ''bob''\<rparr>))
    \<and> (\<exists>pk. decode (cl_encode_reset_password_request ''bob'' ''pw'' ''rex'') = Some (Decoded pk)
      \<and> pkt_command pk = RESET_PASSWORD_REQ
      \<and> decode_reset_password_request (pkt_data pk)
          = Some (Decoded \<lparr>rpreq_username = ''bob'', rpreq_new_password = ''pw'',
              rpreq_security_answer = ''rex''\<rparr>))"
  by (rule account_request_roundtrip) simp_all

text \<open>
  A chat message the client encodes is decoded by the server to the same recipient and the
  same content, when the content is shorter than \<open>2 ^ 32 - 8\<close> bytes (beyond that the body's own
  length no longer fits the header).
\<close>

theorem message_request_roundtrip:
  assumes "length content < 4294967288"
  shows "\<exists>p. decode (cl_encode_message_request to_id content) = Some (Decoded p)
    \<and> pkt_command p = MESSAGE_REQ
    \<and> decode_message_request (pkt_data p)
        = Some (Decoded \<lparr>mreq_to_id = to_id, mreq_content = content\<rparr>)"
  using assms message_body [OF assms, of to_id]
  by (simp add: cl_encode_message_request_def cl_prim_eqs decode_cl_encode text_lengths)

theorem message_request_roundtrip_witness:
  "\<exists>p. decode (cl_encode_message_request 7 ''hello'') = Some (Decoded p)
    \<and> pkt_command p = MESSAGE_REQ
    \<and> decode_message_request (pkt_data p)
        = Some (Decoded \<lparr>mreq_to_id = 7, mreq_content = ''hello''\<rparr>)"
  by (rule message_request_roundtrip) simp

text \<open>
  C21. A friend list the server answers with reaches the client entry by entry, in order, when the
  answer is a success; when it is an error the client's decoder returns false. The names must fit
  their 16-bit lengths and the whole body the 32-bit length of the header.
\<close>

theorem friend_list_roundtrip:
  assumes "\<forall>f\<in>set (flresp_friends r). length (snd f) < 65536"
    and "length (encode_friend_list_response r) < 4294967296"
  shows "\<exists>d. cl_decode (encode \<lparr>pkt_version = VERSION, pkt_command = FRIEND_LIST_RESP,
        pkt_data = encode_friend_list_response r\<rparr>) = Some (Decoded (FRIEND_LIST_RESP, d))
    \<and> cl_decode_friend_list_response d
        = Some (if flresp_error_code r = SUCCESS
                then Decoded (map (\<lambda>(i, n). \<lparr>fi_friend_id = i, fi_friend_name = n\<rparr>)
                                (flresp_friends r))
                else Rejected)"
proof -
  have "length fs \<le> length (concat (map friend_entry fs))" for fs
    by (induction fs) (auto simp: friend_entry_def)
  from this [of "flresp_friends r"] have "length (flresp_friends r) < 4294967296"
    using assms(2)
    by (simp add: encode_friend_list_response_def encode_friends_loop_flat write_flat)
  moreover have "friend_info_of = (\<lambda>(i, n). \<lparr>fi_friend_id = i, fi_friend_name = n\<rparr>)"
    by (auto simp: friend_info_of_def)
  ultimately show ?thesis
    using friend_list_response_body [OF assms(1)] assms(2) by (simp add: cl_decode_encode)
qed

theorem friend_list_roundtrip_witness:
  "\<exists>d. cl_decode (encode \<lparr>pkt_version = VERSION, pkt_command = FRIEND_LIST_RESP,
        pkt_data = encode_friend_list_response
          \<lparr>flresp_error_code = SUCCESS, flresp_friends = [(2, ''ann''), (3, ''bob'')]\<rparr>\<rparr>)
        = Some (Decoded (FRIEND_LIST_RESP, d))
    \<and> cl_decode_friend_list_response d
        = Some (Decoded [\<lparr>fi_friend_id = 2, fi_friend_name = ''ann''\<rparr>,
                         \<lparr>fi_friend_id = 3, fi_friend_name = ''bob''\<rparr>])"
  using friend_list_roundtrip
      [of "\<lparr>flresp_error_code = SUCCESS, flresp_friends = [(2, ''ann''), (3, ''bob'')]\<rparr>"]
  by (simp add: encode_friend_list_response_def encode_friends_loop_flat friend_entry_def
      write_flat)

text \<open>
  A message notification the server encodes is decoded by the client to the same sender,
  content and 64-bit timestamp, when the content is shorter than \<open>2 ^ 32 - 16\<close> bytes.
\<close>

theorem message_notify_roundtrip:
  assumes "length (mn_content n) < 4294967280"
  shows "\<exists>d. cl_decode (encode \<lparr>pkt_version = VERSION, pkt_command = MESSAGE_NOTIFY,
        pkt_data = encode_message_notify n\<rparr>) = Some (Decoded (MESSAGE_NOTIFY, d))
    \<and> cl_decode_message_notify d = Some (Decoded n)"
proof -
  have "length (encode_message_notify n) = 16 + length (mn_content n)"
    by (simp add: encode_message_notify_def text_lengths)
  then show ?thesis
    using assms message_notify_body [OF assms] by (simp add: cl_decode_encode)
qed

theorem message_notify_roundtrip_witness:
  "\<exists>d. cl_decode (encode \<lparr>pkt_version = VERSION, pkt_command = MESSAGE_NOTIFY,
        pkt_data = encode_message_notify
          \<lparr>mn_from_id = 3, mn_content = ''hi'', mn_timestamp = 1700000000000\<rparr>\<rparr>)
        = Some (Decoded (MESSAGE_NOTIFY, d))
    \<and> cl_decode_message_notify d
        = Some (Decoded \<lparr>mn_from_id = 3, mn_content = ''hi'', mn_timestamp = 1700000000000\<rparr>)"
  by (rule message_notify_roundtrip) simp

text \<open>
  C22. The answers to a login, a registration, a security question, a password reset and a version
  check reach the client with their numbers and texts unchanged and with the error code's 16-bit
  value unchanged, when each text fits its 16-bit length.
\<close>

theorem response_roundtrip:
  assumes "length name < 65536" and "length url < 65536" and "length desc < 65536"
  shows "\<exists>c. cl_error_u16 c = error_u16 e
    \<and> cl_decode_login_response (encode_login_response
          \<lparr>lresp_error_code = e, lresp_user_id = i, lresp_username = name\<rparr>)
        = Some (Decoded \<lparr>clresp_error_code = c, clresp_user_id = i, clresp_username = name\<rparr>)
    \<and> cl_decode_register_response (encode_register_response
          \<lparr>rresp_error_code = e, rresp_user_id = i\<rparr>)
        = Some (Decoded \<lparr>crresp_error_code = c, crresp_user_id = i\<rparr>)
    \<and> cl_decode_security_question_response (encode_security_question_response
          \<lparr>sqresp_error_code = e, sqresp_question = name\<rparr>)
        = Some (Decoded \<lparr>csqresp_error_code = c, csqresp_question = name\<rparr>)
    \<and> cl_decode_reset_password_response (encode_reset_password_response
          \<lparr>rpresp_error_code = e\<rparr>)
        = Some (Decoded \<lparr>crpresp_error_code = c\<rparr>)
    \<and> cl_decode_version_check_response (encode_version_check_response
          \<lparr>vcresp_error_code = e, vcresp_server_version = i, vcresp_update_url = url,
           vcresp_update_desc = desc\<rparr>)
        = Some (Decoded \<lparr>cvcresp_error_code = c, cvcresp_server_version = i,
           cvcresp_update_url = url, cvcresp_update_desc = desc\<rparr>)"
  using assms
  by (intro exI [of _ "cl_error_of_u16 (error_u16 e)"])
     (simp add: login_response_body register_response_body security_question_response_body
       reset_password_response_body version_check_response_body)

theorem response_roundtrip_witness:
  "\<exists>c. cl_error_u16 c = 12
    \<and> cl_decode_login_response (encode_login_response
          \<lparr>lresp_error_code = INVALID_REQUEST, lresp_user_id = 5, lresp_username = ''ann''\<rparr>)
        = Some (Decoded \<lparr>clresp_error_code = c, clresp_user_id = 5, clresp_username = ''ann''\<rparr>)"
  using response_roundtrip [of "''ann''" "''u''" "''d''" INVALID_REQUEST 5] by auto



text \<open>
  C35. \<open>decode_message_request\<close> reads outside its input exactly when the announced content length
  plus 8 wraps around in \<open>uint32_t\<close> to at most the size of the input while the true sum exceeds
  it; an 8-byte body with the length \<open>0xFFFFFFFF\<close> is such an input.
\<close>

theorem message_request_overread:
  "(decode_message_request d = None \<longleftrightarrow>
      8 \<le> length d \<and> (\<exists>l. read_uint32 d 4 = Some l \<and> unat (8 + l) \<le> length d
         \<and> length d < 8 + unat l))
   \<and> decode_message_request [0, 0, 0, 1, 255, 255, 255, 255] = None"
  unfolding decode_message_request_fault_iff
  by (auto simp: read_uint32_def load_def)

text \<open>
  C36. The client reads outside its input on a login answer of exactly 7 bytes and on a security
  question answer of exactly 3 bytes (one byte where a two-byte length is read), and on no other
  size; a notification is over-read when its length field wraps in \<open>uint32_t\<close>.
\<close>

theorem client_overreads:
  "(cl_decode_login_response d = None \<longleftrightarrow> length d = 7)
   \<and> (cl_decode_security_question_response d = None \<longleftrightarrow> length d = 3)
   \<and> (cl_decode_message_notify d = None \<longleftrightarrow>
        16 \<le> length d \<and> (\<exists>l. read_uint32 d 4 = Some l \<and> unat (16 + l) \<le> length d
          \<and> (length d < 8 + unat l \<or> length d < unat (8 + l) + 8)))"
  by (intro conjI cl_login_response_fault_iff cl_security_question_response_fault_iff
      cl_message_notify_fault_iff)

text \<open>
  \<open>write_string\<close> sends only the low 16 bits of a text's length but every byte of the text:
  whatever user name the client puts into a login request, the user name the server decodes is
  its prefix of that length modulo 65536, so a name of 65536 bytes or more arrives as another one.
\<close>

theorem long_username_is_cut:
  assumes "decode_login_request (cl_write_string (cl_write_string [] username) password)
             = Some (Decoded r)"
  shows "lreq_username r = take (length username mod 65536) username"
proof -
  let ?d = "write_string [] username @ write_string [] password"
  let ?k = "\<lambda>u o1. stext.text_then ?d o1
      (\<lambda>p o2. Some (Decoded \<lparr>lreq_username = u, lreq_password = p\<rparr>))"
  have "(if length ?d < 4 then Some Rejected else stext.text_then ?d 0 ?k) = Some (Decoded r)"
    using assms unfolding cl_prim_eqs decode_login_request_fields
    by (simp only: stext.put_str_append [of "write_string [] username"])
  then have "stext.text_then ?d 0 ?k = Some (Decoded r)"
    by (cases "length ?d < 4") (simp_all only: if_True if_False option.inject decoded.distinct)
  moreover have "stext.text_then ?d 0 ?k
      = ?k (take (length username mod 65536) username) (0 + 2 + length username mod 65536)"
    by (rule stext.text_then_put_long) simp
  ultimately have "?k (take (length username mod 65536) username)
      (0 + 2 + length username mod 65536) = Some (Decoded r)" by simp
  then show ?thesis by (rule stext.text_then_DecodedE) auto
qed

theorem long_username_is_cut_witness:
  "lreq_username (\<lparr>lreq_username = [], lreq_password = replicate 24929 CHR ''a''\<rparr>)
     = take (65536 mod 65536) (replicate 65536 CHR ''a'')"
  using long_username_is_cut [OF long_login_body [of 65536 "CHR ''a''" "[]", unfolded cl_write_string_eq [symmetric]]]
  by (simp only: length_replicate simp_thms)

end
