(* ===== verification/Stream_Framing.thy ===== *)
theory Stream_Framing
  imports Codec_Roundtrip
begin

text \<open>
  Cutting a byte stream into frames. TCP delivers a stream in pieces of its own choosing; both
  ends of the protocol recover the frames by reading a fixed header that announces the size. The
  locale \<open>framing\<close> states what a size function must promise (a frame is not empty; the size,
  once known, does not change when more bytes arrive) and proves once that the frames recovered
  do not depend on how the stream was cut.
\<close>

function split_frames :: "(bytes \<Rightarrow> nat option) \<Rightarrow> bytes \<Rightarrow> bytes list \<times> bytes" where
  "split_frames size_of b =
     (case size_of b of
        None \<Rightarrow> ([], b)
      | Some n \<Rightarrow>
          if 0 < n \<and> n \<le> length b
          then (case split_frames size_of (drop n b) of (fs, r) \<Rightarrow> (take n b # fs, r))
          else ([], b))"
  by pat_completeness auto
termination
  by (relation "measure (\<lambda>(size_of, b). length b)") auto

declare split_frames.simps [simp del]

text \<open>The frames handed on while the pieces of a stream arrive one after the other.\<close>

fun split_chunks :: "(bytes \<Rightarrow> nat option) \<Rightarrow> bytes \<Rightarrow> bytes list \<Rightarrow> bytes list \<times> bytes" where
  "split_chunks size_of b [] = ([], b)"
| "split_chunks size_of b (c # cs) =
     (case split_frames size_of (b @ c) of
        (fs, r) \<Rightarrow> (case split_chunks size_of r cs of (gs, s) \<Rightarrow> (fs @ gs, s)))"

locale framing =
  fixes size_of :: "bytes \<Rightarrow> nat option"
  assumes size_pos: "size_of b = Some n \<Longrightarrow> 0 < n"
    and size_stable: "size_of b = Some n \<Longrightarrow> size_of (b @ c) = Some n"
begin

lemma split_incomplete: "size_of b = None \<Longrightarrow> split_frames size_of b = ([], b)"
  by (simp add: split_frames.simps)

lemma split_partial:
  "size_of b = Some n \<Longrightarrow> length b < n \<Longrightarrow> split_frames size_of b = ([], b)"
  by (simp add: split_frames.simps)

lemma split_first:
  "size_of b = Some n \<Longrightarrow> n \<le> length b \<Longrightarrow>
     split_frames size_of b
       = (take n b # fst (split_frames size_of (drop n b)), snd (split_frames size_of (drop n b)))"
  by (subst split_frames.simps) (simp add: size_pos split: prod.splits)

lemma split_rest: "split_frames size_of (snd (split_frames size_of b)) = ([], snd (split_frames size_of b))"
proof (induction b rule: length_induct)
  case (1 b)
  show ?case
  proof (cases "\<exists>n. size_of b = Some n \<and> n \<le> length b")
    case True
    then obtain n where n: "size_of b = Some n" "n \<le> length b" by blast
    then have "length (drop n b) < length b" using size_pos [OF n(1)] by simp
    with 1 n show ?thesis by (simp add: split_first)
  next
    case False
    then have "split_frames size_of b = ([], b)"
      by (cases "size_of b") (auto simp: split_incomplete split_partial)
    then show ?thesis by simp
  qed
qed

text \<open>Frames found in a part of the stream are the first frames of the whole.\<close>

lemma split_append:
  "split_frames size_of (a @ b)
     = (fst (split_frames size_of a) @ fst (split_frames size_of (snd (split_frames size_of a) @ b)),
        snd (split_frames size_of (snd (split_frames size_of a) @ b)))"
proof (induction a rule: length_induct)
  case (1 a)
  show ?case
  proof (cases "\<exists>n. size_of a = Some n \<and> n \<le> length a")
    case True
    then obtain n where n: "size_of a = Some n" "n \<le> length a" by blast
    have "length (drop n a) < length a" using size_pos [OF n(1)] n(2) by simp
    then have IH: "split_frames size_of (drop n a @ b)
      = (fst (split_frames size_of (drop n a))
           @ fst (split_frames size_of (snd (split_frames size_of (drop n a)) @ b)),
         snd (split_frames size_of (snd (split_frames size_of (drop n a)) @ b)))"
      using 1 by blast
    from n show ?thesis by (simp add: split_first size_stable IH)
  next
    case False
    then have "split_frames size_of a = ([], a)"
      by (cases "size_of a") (auto simp: split_incomplete split_partial)
    then show ?thesis by simp
  qed
qed

text \<open>The cutting of the stream into pieces does not matter.\<close>

lemma split_chunks_eq:
  "split_frames size_of b = ([], b) \<Longrightarrow>
     split_chunks size_of b cs = split_frames size_of (b @ concat cs)"
proof (induction cs arbitrary: b)
  case (Cons c cs)
  let ?r = "snd (split_frames size_of (b @ c))"
  have "split_chunks size_of ?r cs = split_frames size_of (?r @ concat cs)"
    by (rule Cons.IH) (rule split_rest)
  then show ?case
    using split_append [of "b @ c" "concat cs"] by (simp add: case_prod_unfold)
qed simp

lemma split_whole_frames:
  "(\<forall>f\<in>set fs. size_of f = Some (length f)) \<Longrightarrow>
     split_frames size_of (concat fs @ rest)
       = (fs @ fst (split_frames size_of rest), snd (split_frames size_of rest))"
proof (induction fs)
  case (Cons f fs)
  then have "size_of (f @ concat fs @ rest) = Some (length f)" by (simp add: size_stable)
  with Cons show ?case by (simp add: split_first)
qed simp

end

end
