(* ===== verification/Chat_Client.thy ===== *)
theory Chat_Client
  imports Stream_Framing
begin

text \<open>
  The Android client, android/app/src/main/cpp/chat_client.cpp: its fields, the read loop that
  reassembles packets from the stream, the dispatch of packets to callbacks, and the requests.
  \<open>connect\<close>, \<open>disconnect\<close> and the worker thread, which share these fields, are in Client_Threads.

  A \<open>std::function\<close> member is modelled by whether it holds a target; calling it appends the call
  to the log \<open>calls\<close>. What \<open>send\<close> hands to the socket is appended to \<open>sent\<close>. The results of the
  socket API are arguments: a list of \<open>loop_event\<close>s for the passes of the read loop. \<open>None\<close> is a read outside a packet, as in the
  codec theories.
\<close>

section \<open>State\<close>

datatype callback =
    Login_callback i32 i32 string
  | Message_callback i32 string i64
  | Friend_list_callback i32 "(i32 \<times> string) list"
  | Status_callback i32
  | Register_callback i32 i32
  | Security_question_callback i32 string
  | Reset_password_callback i32
  | Version_check_callback i32 i32 string string

datatype worker = No_worker | Worker_running | Worker_done

record chat_client =
  cc_host :: string
  cc_port :: i32
  socket_fd :: i32
  worker_thread :: worker
  running :: bool
  connected :: bool
  login_callback :: bool
  message_callback :: bool
  friend_list_callback :: bool
  status_callback :: bool
  register_callback :: bool
  security_question_callback :: bool
  reset_password_callback :: bool
  version_check_callback :: bool
  read_buffer :: bytes
  calls :: "callback list"
  sent :: "bytes list"

definition new_client :: "string \<Rightarrow> i32 \<Rightarrow> chat_client" where
  "new_client any_host any_port =
     \<lparr>cc_host = any_host, cc_port = any_port, socket_fd = - 1, worker_thread = No_worker,
      running = False, connected = False, login_callback = False, message_callback = False,
      friend_list_callback = False, status_callback = False, register_callback = False,
      security_question_callback = False, reset_password_callback = False,
      version_check_callback = False, read_buffer = [], calls = [], sent = []\<rparr>"

definition invoke :: "bool \<Rightarrow> callback \<Rightarrow> chat_client \<Rightarrow> chat_client" where
  "invoke is_set call c = (if is_set then c\<lparr>calls := calls c @ [call]\<rparr> else c)"

section \<open>Dispatch of a packet\<close>

definition error_int :: "cl_error_code \<Rightarrow> i32" where
  "error_int e = ucast (cl_error_u16 e)"

definition dispatch :: "command_code \<Rightarrow> bytes \<Rightarrow> chat_client \<Rightarrow> chat_client option" where
  "dispatch cmd d c =
     (case cmd of
        LOGIN_RESP \<Rightarrow> do {
          r \<leftarrow> cl_decode_login_response d;
          case r of Rejected \<Rightarrow> Some c
          | Decoded resp \<Rightarrow> Some (invoke (login_callback c)
              (Login_callback (error_int (clresp_error_code resp)) (clresp_user_id resp)
                 (clresp_username resp)) c) }
      | MESSAGE_NOTIFY \<Rightarrow> do {
          r \<leftarrow> cl_decode_message_notify d;
          case r of Rejected \<Rightarrow> Some c
          | Decoded notify \<Rightarrow> Some (invoke (message_callback c)
              (Message_callback (mn_from_id notify) (mn_content notify) (mn_timestamp notify)) c) }
      | FRIEND_LIST_RESP \<Rightarrow> do {
          r \<leftarrow> cl_decode_friend_list_response d;
          case r of Rejected \<Rightarrow> Some c
          | Decoded friends \<Rightarrow>
              let result = map (\<lambda>f. (fi_friend_id f, fi_friend_name f)) friends
              in Some (invoke (friend_list_callback c) (Friend_list_callback 0 result) c) }
      | REGISTER_RESP \<Rightarrow> do {
          r \<leftarrow> cl_decode_register_response d;
          case r of Rejected \<Rightarrow> Some c
          | Decoded resp \<Rightarrow> Some (invoke (register_callback c)
              (Register_callback (error_int (crresp_error_code resp)) (crresp_user_id resp)) c) }
      | SECURITY_QUESTION_RESP \<Rightarrow> do {
          r \<leftarrow> cl_decode_security_question_response d;
          case r of Rejected \<Rightarrow> Some c
          | Decoded resp \<Rightarrow> Some (invoke (security_question_callback c)
              (Security_question_callback (error_int (csqresp_error_code resp))
                 (csqresp_question resp)) c) }
      | RESET_PASSWORD_RESP \<Rightarrow> do {
          r \<leftarrow> cl_decode_reset_password_response d;
          case r of Rejected \<Rightarrow> Some c
          | Decoded resp \<Rightarrow> Some (invoke (reset_password_callback c)
              (Reset_password_callback (error_int (crpresp_error_code resp))) c) }
      | VERSION_CHECK_RESP \<Rightarrow> do {
          r \<leftarrow> cl_decode_version_check_response d;
          case r of Rejected \<Rightarrow> Some c
          | Decoded resp \<Rightarrow> Some (invoke (version_check_callback c)
              (Version_check_callback (error_int (cvcresp_error_code resp))
                 (cvcresp_server_version resp) (cvcresp_update_url resp)
                 (cvcresp_update_desc resp)) c) }
      | _ \<Rightarrow> Some c)"

definition handle_packet :: "chat_client \<Rightarrow> bytes \<Rightarrow> chat_client option" where
  "handle_packet c packet = do {
     r \<leftarrow> cl_decode packet;
     case r of Rejected \<Rightarrow> Some c
     | Decoded (cmd, d) \<Rightarrow> dispatch cmd d c }"

lemma invoke_read_buffer [simp]: "read_buffer (invoke s call c) = read_buffer c"
  by (simp add: invoke_def)

lemma dispatch_read_buffer: "dispatch cmd d c = Some c' \<Longrightarrow> read_buffer c' = read_buffer c"
  by (cases cmd) (auto simp: dispatch_def Let_def split: bind_splits decoded.splits)

lemma handle_packet_read_buffer: "handle_packet c p = Some c' \<Longrightarrow> read_buffer c' = read_buffer c"
  by (auto simp: handle_packet_def dispatch_read_buffer split: bind_splits decoded.splits)

section \<open>The read loop\<close>

text \<open>
  The inner loop. The length is assembled from the four header bytes as in the code; \<open>7 + length\<close>
  is a \<open>size_t\<close> sum and does not wrap.
\<close>

definition frame_length :: "bytes \<Rightarrow> u32" where
  "frame_length b = push_bit 24 (ucast (b ! 3)) OR push_bit 16 (ucast (b ! 4))
     OR push_bit 8 (ucast (b ! 5)) OR ucast (b ! 6)"

function drain :: "chat_client \<Rightarrow> chat_client option" where
  "drain c =
     (if CL_HEADER_SIZE \<le> length (read_buffer c)
      then let len = frame_length (read_buffer c)
           in if CL_HEADER_SIZE + unat len \<le> length (read_buffer c)
              then let packet = take (CL_HEADER_SIZE + unat len) (read_buffer c);
                       c = c\<lparr>read_buffer := drop (CL_HEADER_SIZE + unat len) (read_buffer c)\<rparr>
                   in do { c \<leftarrow> handle_packet c packet; drain c }
              else Some c
      else Some c)"
  by pat_completeness auto
termination
proof (relation "measure (\<lambda>c. length (read_buffer c))")
  fix c :: chat_client and l p c1 c2
  assume "CL_HEADER_SIZE \<le> length (read_buffer c)" and "l = frame_length (read_buffer c)"
    and "c1 = c\<lparr>read_buffer := drop (CL_HEADER_SIZE + unat l) (read_buffer c)\<rparr>"
    and "handle_packet c1 p = Some c2"
  then show "(c2, c) \<in> measure (\<lambda>c. length (read_buffer c))"
    by (auto simp: handle_packet_read_buffer CL_HEADER_SIZE_def)
qed simp

declare drain.simps [simp del]

text \<open>
  One pass of the outer loop: \<open>running_\<close> was true and \<open>recv\<close> delivered bytes, or \<open>recv\<close> returned
  0 or an error, or \<open>running_\<close> was false. When the list of passes ends without the loop ending,
  the loop waits in \<open>recv\<close>; the flag tells whether the loop has ended.
\<close>

datatype loop_event = Received bytes | Recv_failed | Not_running

definition leave_read_loop :: "chat_client \<Rightarrow> chat_client" where
  "leave_read_loop c =
     (let c = c\<lparr>connected := False\<rparr>
      in invoke (status_callback c) (Status_callback 0) c)"

fun read_loop :: "chat_client \<Rightarrow> loop_event list \<Rightarrow> (chat_client \<times> bool) option" where
  "read_loop c [] = Some (c, False)"
| "read_loop c (Received buffer # es) = do {
     c \<leftarrow> drain (c\<lparr>read_buffer := read_buffer c @ buffer\<rparr>);
     read_loop c es }"
| "read_loop c (Recv_failed # es) = Some (leave_read_loop c, True)"
| "read_loop c (Not_running # es) = Some (leave_read_loop c, True)"

definition is_connected :: "chat_client \<Rightarrow> bool" where
  "is_connected c = connected c"

section \<open>Requests\<close>

text \<open>Each request sets its callback first and sends only on an open socket.\<close>

definition send_packet :: "bytes \<Rightarrow> chat_client \<Rightarrow> chat_client" where
  "send_packet packet c = (if socket_fd c \<noteq> - 1 then c\<lparr>sent := sent c @ [packet]\<rparr> else c)"

definition login :: "string \<Rightarrow> string \<Rightarrow> bool \<Rightarrow> chat_client \<Rightarrow> chat_client" where
  "login username password callback c =
     send_packet (cl_encode_login_request username password) (c\<lparr>login_callback := callback\<rparr>)"

definition send_message :: "i32 \<Rightarrow> string \<Rightarrow> chat_client \<Rightarrow> chat_client" where
  "send_message to_id content c = send_packet (cl_encode_message_request to_id content) c"

definition get_friend_list :: "bool \<Rightarrow> chat_client \<Rightarrow> chat_client" where
  "get_friend_list callback c =
     send_packet cl_encode_friend_list_request (c\<lparr>friend_list_callback := callback\<rparr>)"

definition add_friend :: "i32 \<Rightarrow> chat_client \<Rightarrow> chat_client" where
  "add_friend friend_id c = send_packet (cl_encode_add_friend_request friend_id) c"

definition register_user ::
    "string \<Rightarrow> string \<Rightarrow> string \<Rightarrow> string \<Rightarrow> bool \<Rightarrow> chat_client \<Rightarrow> chat_client" where
  "register_user username password security_question security_answer callback c =
     send_packet (cl_encode_register_request username password security_question security_answer)
       (c\<lparr>register_callback := callback\<rparr>)"

definition get_security_question :: "string \<Rightarrow> bool \<Rightarrow> chat_client \<Rightarrow> chat_client" where
  "get_security_question username callback c =
     send_packet (cl_encode_security_question_request username)
       (c\<lparr>security_question_callback := callback\<rparr>)"

definition reset_password ::
    "string \<Rightarrow> string \<Rightarrow> string \<Rightarrow> bool \<Rightarrow> chat_client \<Rightarrow> chat_client" where
  "reset_password username new_password security_answer callback c =
     send_packet (cl_encode_reset_password_request username new_password security_answer)
       (c\<lparr>reset_password_callback := callback\<rparr>)"

definition check_version :: "i32 \<Rightarrow> bool \<Rightarrow> chat_client \<Rightarrow> chat_client" where
  "check_version client_version callback c =
     send_packet (cl_encode_version_check_request client_version)
       (c\<lparr>version_check_callback := callback\<rparr>)"

definition set_message_callback :: "bool \<Rightarrow> chat_client \<Rightarrow> chat_client" where
  "set_message_callback callback c = c\<lparr>message_callback := callback\<rparr>"

definition set_status_callback :: "bool \<Rightarrow> chat_client \<Rightarrow> chat_client" where
  "set_status_callback callback c = c\<lparr>status_callback := callback\<rparr>"

section \<open>The read loop cuts the stream into packets\<close>

definition client_frame_size :: "bytes \<Rightarrow> nat option" where
  "client_frame_size b =
     (if length b < CL_HEADER_SIZE then None else Some (CL_HEADER_SIZE + unat (frame_length b)))"

lemma frame_length_append: "7 \<le> length b \<Longrightarrow> frame_length (b @ c) = frame_length b"
  by (simp add: frame_length_def nth_append)

interpretation client_frames: framing client_frame_size
  by unfold_locales
     (auto simp: client_frame_size_def CL_HEADER_SIZE_def frame_length_append split: if_splits)

lemma frame_length_header:
  assumes "7 \<le> length b"
  shows "read_uint32 b 3 = Some (frame_length b)"
  using assms by (simp add: read_uint32_def frame_length_def numeral_eq_Suc)

lemma client_frame_size_encode:
  "length (pkt_data p) < 4294967296 \<Longrightarrow>
     client_frame_size (encode p) = Some (length (encode p))"
  (is "?l \<Longrightarrow> _")
proof -
  assume l: ?l
  have "frame_length (encode p) = word_of_nat (length (pkt_data p))"
    using frame_length_header [of "encode p"] read_header(3) [OF encode_flat [of p]]
    by (simp add: length_encode)
  with l show ?thesis
    by (simp add: client_frame_size_def CL_HEADER_SIZE_def length_encode unat_of_nat_u32)
qed

fun handle_all :: "chat_client \<Rightarrow> bytes list \<Rightarrow> chat_client option" where
  "handle_all c [] = Some c"
| "handle_all c (p # ps) = do { c \<leftarrow> handle_packet c p; handle_all c ps }"

lemma invoke_frame: "invoke s call (c\<lparr>read_buffer := r\<rparr>) = (invoke s call c)\<lparr>read_buffer := r\<rparr>"
  by (simp add: invoke_def)

lemma dispatch_frame:
  "dispatch cmd d (c\<lparr>read_buffer := r\<rparr>)
     = map_option (\<lambda>c. c\<lparr>read_buffer := r\<rparr>) (dispatch cmd d c)"
  by (cases cmd)
     (auto simp: dispatch_def invoke_frame Let_def split: bind_splits decoded.splits)

lemma handle_packet_frame:
  "handle_packet (c\<lparr>read_buffer := r\<rparr>) p
     = map_option (\<lambda>c. c\<lparr>read_buffer := r\<rparr>) (handle_packet c p)"
  by (auto simp: handle_packet_def dispatch_frame split: bind_splits decoded.splits)

lemma handle_all_frame:
  "handle_all (c\<lparr>read_buffer := r\<rparr>) ps
     = map_option (\<lambda>c. c\<lparr>read_buffer := r\<rparr>) (handle_all c ps)"
proof (induction ps arbitrary: c)
  case (Cons p ps)
  then show ?case by (cases "handle_packet c p") (simp_all add: handle_packet_frame)
qed simp

lemma handle_all_append: "handle_all c (ps @ qs) = do { c \<leftarrow> handle_all c ps; handle_all c qs }"
proof (induction ps arbitrary: c)
  case (Cons p ps)
  then show ?case by (cases "handle_packet c p") simp_all
qed simp

lemma drain_split:
  "drain c = handle_all (c\<lparr>read_buffer := snd (split_frames client_frame_size (read_buffer c))\<rparr>)
     (fst (split_frames client_frame_size (read_buffer c)))"
proof (induction c rule: drain.induct)
  case (1 c)
  let ?b = "read_buffer c" and ?n = "CL_HEADER_SIZE + unat (frame_length (read_buffer c))"
  show ?case
  proof (cases "CL_HEADER_SIZE \<le> length ?b \<and> ?n \<le> length ?b")
    case True
    let ?p = "take ?n ?b" and ?c1 = "c\<lparr>read_buffer := drop ?n ?b\<rparr>"
    have "client_frame_size ?b = Some ?n" using True by (simp add: client_frame_size_def)
    note split = client_frames.split_first [OF this]
    have drain: "drain c = do { c \<leftarrow> handle_packet ?c1 ?p; drain c }"
      using True by (subst drain.simps) (simp add: Let_def)
    show ?thesis
    proof (cases "handle_packet c ?p")
      case None
      then show ?thesis using True by (simp add: drain handle_packet_frame split)
    next
      case (Some c')
      then have h: "handle_packet ?c1 ?p = Some (c'\<lparr>read_buffer := drop ?n ?b\<rparr>)"
        by (simp add: handle_packet_frame)
      from 1 [OF _ refl _ refl refl h] True
      have "drain (c'\<lparr>read_buffer := drop ?n ?b\<rparr>)
        = handle_all (c'\<lparr>read_buffer := snd (split_frames client_frame_size (drop ?n ?b))\<rparr>)
            (fst (split_frames client_frame_size (drop ?n ?b)))"
        by simp
      with Some h show ?thesis using True by (simp add: drain handle_packet_frame split)
    qed
  next
    case False
    then have "drain c = Some c" by (subst drain.simps) (auto simp: Let_def)
    moreover have "split_frames client_frame_size ?b = ([], ?b)"
      using False client_frames.split_incomplete [of ?b] client_frames.split_partial [of ?b]
      by (cases "CL_HEADER_SIZE \<le> length ?b") (auto simp: client_frame_size_def)
    ultimately show ?thesis by simp
  qed
qed

lemma read_loop_split:
  "read_loop c (map Received cs) = map_option (\<lambda>c. (c, False))
     (handle_all (c\<lparr>read_buffer := snd (split_chunks client_frame_size (read_buffer c) cs)\<rparr>)
        (fst (split_chunks client_frame_size (read_buffer c) cs)))"
proof (induction cs arbitrary: c)
  case (Cons b cs)
  let ?s = "split_frames client_frame_size (read_buffer c @ b)"
  have "drain (c\<lparr>read_buffer := read_buffer c @ b\<rparr>) = map_option (\<lambda>c. c\<lparr>read_buffer := snd ?s\<rparr>)
      (handle_all c (fst ?s))"
    by (simp add: drain_split handle_all_frame [symmetric])
  then show ?case
    by (cases "handle_all c (fst ?s)")
       (simp_all add: Cons.IH case_prod_unfold handle_all_append handle_all_frame
         option.map_comp o_def)
qed simp

lemma read_loop_chunks:
  assumes "split_frames client_frame_size (read_buffer c) = ([], read_buffer c)"
    and "split_frames client_frame_size (read_buffer c @ concat cs) = (fs, r)"
  shows "read_loop c (map Received cs)
     = map_option (\<lambda>c. (c\<lparr>read_buffer := r\<rparr>, False)) (handle_all c fs)"
  using client_frames.split_chunks_eq [OF assms(1), of cs] assms(2)
  by (simp add: read_loop_split handle_all_frame option.map_comp o_def)

text \<open>The effect of a list of packets, handled one after the other.\<close>

fun dispatch_all :: "packet list \<Rightarrow> chat_client \<Rightarrow> chat_client option" where
  "dispatch_all [] c = Some c"
| "dispatch_all (p # ps) c = do { c \<leftarrow> dispatch (pkt_command p) (pkt_data p) c; dispatch_all ps c }"

lemma handle_packet_encode:
  "length (pkt_data p) < 4294967296 \<Longrightarrow> canonical_command (pkt_command p) \<Longrightarrow>
     handle_packet c (encode p) = dispatch (pkt_command p) (pkt_data p) c"
  by (simp add: handle_packet_def cl_decode_encode)

definition sendable :: "packet \<Rightarrow> bool" where
  "sendable p \<longleftrightarrow> length (pkt_data p) < 4294967296 \<and> canonical_command (pkt_command p)"

lemma handle_all_encode:
  "\<forall>p\<in>set ps. sendable p \<Longrightarrow> handle_all c (map encode ps) = dispatch_all ps c"
proof (induction ps arbitrary: c)
  case (Cons p ps)
  then show ?case
    by (cases "dispatch (pkt_command p) (pkt_data p) c")
       (simp_all add: handle_packet_encode sendable_def)
qed simp

lemma read_loop_packets:
  assumes "\<forall>p\<in>set ps. sendable p" and "read_buffer c = []"
    and "concat cs = concat (map encode ps) @ rest" and "length rest < 7"
  shows "read_loop c (map Received cs)
     = map_option (\<lambda>c. (c\<lparr>read_buffer := rest\<rparr>, False)) (dispatch_all ps c)"
proof -
  have "split_frames client_frame_size rest = ([], rest)"
    by (rule client_frames.split_incomplete)
       (simp add: client_frame_size_def CL_HEADER_SIZE_def assms(4))
  moreover have "split_frames client_frame_size [] = ([], [])"
    by (rule client_frames.split_incomplete) (simp add: client_frame_size_def CL_HEADER_SIZE_def)
  moreover have "\<forall>f\<in>set (map encode ps). client_frame_size f = Some (length f)"
    using assms(1) by (auto simp: client_frame_size_encode sendable_def)
  ultimately show ?thesis
    using read_loop_chunks [of c cs "map encode ps" rest] assms(2,3)
      client_frames.split_whole_frames [of "map encode ps" rest]
    by (simp add: handle_all_encode assms(1))
qed

lemma dispatch_notifications:
  assumes "\<forall>n\<in>set ns. length (mn_content n) < 4294967280" and "message_callback c"
  shows "dispatch_all (map (\<lambda>n. \<lparr>pkt_version = VERSION, pkt_command = MESSAGE_NOTIFY,
        pkt_data = encode_message_notify n\<rparr>) ns) c
     = Some (c\<lparr>calls := calls c @ map (\<lambda>n. Message_callback (mn_from_id n) (mn_content n)
         (mn_timestamp n)) ns\<rparr>)"
  using assms
proof (induction ns arbitrary: c)
  case (Cons n ns)
  then show ?case
    by (simp add: dispatch_def invoke_def message_notify_body)
qed simp

section \<open>The fields of the session\<close>

text \<open>Requests and the read loop leave the session's own fields alone.\<close>

definition same_session :: "chat_client \<Rightarrow> chat_client \<Rightarrow> bool" where
  "same_session c c' \<longleftrightarrow> worker_thread c' = worker_thread c \<and> running c' = running c
     \<and> connected c' = connected c \<and> socket_fd c' = socket_fd c"

lemma same_session_refl [simp]: "same_session c c"
  by (simp add: same_session_def)

lemma same_session_trans: "same_session c d \<Longrightarrow> same_session d e \<Longrightarrow> same_session c e"
  by (simp add: same_session_def)

lemma same_session_invoke [simp]: "same_session c (invoke s call c)"
  by (simp add: same_session_def invoke_def)

lemma same_session_dispatch: "dispatch cmd d c = Some c' \<Longrightarrow> same_session c c'"
  by (cases cmd) (auto simp: dispatch_def Let_def split: bind_splits decoded.splits)

lemma same_session_handle_packet: "handle_packet c p = Some c' \<Longrightarrow> same_session c c'"
  by (auto simp: handle_packet_def same_session_dispatch split: bind_splits decoded.splits)

lemma same_session_handle_all: "handle_all c ps = Some c' \<Longrightarrow> same_session c c'"
proof (induction ps arbitrary: c)
  case (Cons p ps)
  then show ?case
    by (auto dest: same_session_handle_packet intro: same_session_trans split: bind_splits)
qed simp

lemma same_session_drain: "drain c = Some c' \<Longrightarrow> same_session c c'"
  by (auto simp: drain_split handle_all_frame dest!: same_session_handle_all)
     (simp add: same_session_def)

lemma read_loop_session:
  "read_loop c es = Some (c', ended) \<Longrightarrow>
     same_session (if ended then c\<lparr>connected := False\<rparr> else c) c'"
proof (induction c es rule: read_loop.induct)
  case (2 c b es)
  then obtain d where d: "drain (c\<lparr>read_buffer := read_buffer c @ b\<rparr>) = Some d"
    and l: "read_loop d es = Some (c', ended)"
    by (auto split: bind_splits)
  from same_session_drain [OF d] 2(1) [OF d l] show ?case
    by (auto simp: same_session_def split: if_splits)
qed (auto simp: leave_read_loop_def Let_def same_session_def invoke_def split: if_splits)

lemmas request_defs =
  login_def send_message_def get_friend_list_def add_friend_def register_user_def
  get_security_question_def reset_password_def check_version_def set_message_callback_def
  set_status_callback_def send_packet_def

section \<open>Properties\<close>

text \<open>
  C18. Whatever pieces TCP cuts the stream into, the read loop hands every packet of the stream to
  the dispatcher exactly once and in order, keeps an incomplete header in the buffer and goes on
  waiting, when it starts with an empty buffer.
\<close>

theorem client_reassembles_stream:
  assumes "\<forall>p\<in>set ps. length (pkt_data p) < 4294967296 \<and> canonical_command (pkt_command p)"
    and "read_buffer c = []"
    and "concat chunks = concat (map encode ps) @ rest" and "length rest < CL_HEADER_SIZE"
  shows "read_loop c (map Received chunks)
     = map_option (\<lambda>c. (c\<lparr>read_buffer := rest\<rparr>, False)) (dispatch_all ps c)"
  using assms by (intro read_loop_packets) (simp_all add: sendable_def CL_HEADER_SIZE_def)

theorem client_reassembles_stream_witness:
  "read_loop (new_client ''h'' 1) (map Received [[1, 0], [4, 0, 0, 0, 0, 1]])
     = Some ((new_client ''h'' 1)\<lparr>read_buffer := [1]\<rparr>, False)"
proof -
  let ?p = "\<lparr>pkt_version = 1, pkt_command = MESSAGE_RESP, pkt_data = []\<rparr>"
  have e: "encode ?p = [1, 0, 4, 0, 0, 0, 0]"
    by (simp add: encode_def write_uint16_def write_uint32_def)
  have "dispatch_all [?p] (new_client ''h'' 1) = Some (new_client ''h'' 1)"
    by (simp add: dispatch_def)
  then show ?thesis
    using client_reassembles_stream [of "[?p]" "new_client ''h'' 1"
        "[[1, 0], [4, 0, 0, 0, 0, 1]]" "[1]"]
    by (simp add: e new_client_def CL_HEADER_SIZE_def)
qed

text \<open>
  Notifications the server sends reach the client's message callback one by one, in order,
  with sender, content and timestamp unchanged, whatever pieces the stream arrives in.
\<close>

theorem client_delivers_notifications:
  assumes "\<forall>n\<in>set ns. length (mn_content n) < 4294967280"
    and "read_buffer c = []" and "message_callback c"
    and "concat chunks = concat (map (\<lambda>n. encode \<lparr>pkt_version = VERSION,
           pkt_command = MESSAGE_NOTIFY, pkt_data = encode_message_notify n\<rparr>) ns)"
  shows "read_loop c (map Received chunks)
     = Some (c\<lparr>calls := calls c @ map (\<lambda>n. Message_callback (mn_from_id n) (mn_content n)
         (mn_timestamp n)) ns\<rparr>, False)"
proof -
  let ?pk = "\<lambda>n. \<lparr>pkt_version = VERSION, pkt_command = MESSAGE_NOTIFY,
      pkt_data = encode_message_notify n\<rparr>"
  have "length (encode_message_notify n) = 16 + length (mn_content n)" for n
    by (simp add: encode_message_notify_def text_lengths)
  then have "\<forall>p\<in>set (map ?pk ns). sendable p" using assms(1) by (auto simp: sendable_def)
  then show ?thesis
    using read_loop_packets [of "map ?pk ns" c chunks "[]"] dispatch_notifications [OF assms(1,3)]
      assms(2,4)
    by (simp add: o_def)
qed

theorem client_delivers_notifications_witness:
  "read_loop ((new_client ''h'' 1)\<lparr>message_callback := True\<rparr>)
       (map Received [encode \<lparr>pkt_version = VERSION, pkt_command = MESSAGE_NOTIFY,
          pkt_data = encode_message_notify
            \<lparr>mn_from_id = 3, mn_content = ''hi'', mn_timestamp = 9\<rparr>\<rparr>])
     = Some ((new_client ''h'' 1)\<lparr>message_callback := True, calls := [Message_callback 3 ''hi'' 9]\<rparr>,
         False)"
  using client_delivers_notifications
      [of "[\<lparr>mn_from_id = 3, mn_content = ''hi'', mn_timestamp = 9\<rparr>]"
        "(new_client ''h'' 1)\<lparr>message_callback := True\<rparr>"
        "[encode \<lparr>pkt_version = VERSION, pkt_command = MESSAGE_NOTIFY,
          pkt_data = encode_message_notify
            \<lparr>mn_from_id = 3, mn_content = ''hi'', mn_timestamp = 9\<rparr>\<rparr>]"]
  by (simp add: new_client_def)

text \<open>
  An answer the server encodes makes the client call the matching callback, when it is set,
  with the numeric value of the server's error code and the values of the answer; a friend list
  answer with an error calls no callback at all, and the answers to a sent message and to an
  added friend are dropped.
\<close>

theorem client_reports_answers:
  assumes "length name < 65536"
  shows "dispatch LOGIN_RESP (encode_login_response
        \<lparr>lresp_error_code = e, lresp_user_id = i, lresp_username = name\<rparr>) c
      = Some (invoke (login_callback c) (Login_callback (ucast (error_u16 e)) i name) c)
    \<and> dispatch REGISTER_RESP (encode_register_response
        \<lparr>rresp_error_code = e, rresp_user_id = i\<rparr>) c
      = Some (invoke (register_callback c) (Register_callback (ucast (error_u16 e)) i) c)
    \<and> dispatch RESET_PASSWORD_RESP (encode_reset_password_response \<lparr>rpresp_error_code = e\<rparr>) c
      = Some (invoke (reset_password_callback c)
          (Reset_password_callback (ucast (error_u16 e))) c)
    \<and> dispatch SECURITY_QUESTION_RESP (encode_security_question_response
        \<lparr>sqresp_error_code = e, sqresp_question = name\<rparr>) c
      = Some (invoke (security_question_callback c)
          (Security_question_callback (ucast (error_u16 e)) name) c)
    \<and> (e \<noteq> SUCCESS \<longrightarrow> dispatch FRIEND_LIST_RESP (encode_friend_list_response
        \<lparr>flresp_error_code = e, flresp_friends = []\<rparr>) c = Some c)
    \<and> dispatch MESSAGE_RESP d c = Some c \<and> dispatch ADD_FRIEND_RESP d c = Some c"
  using assms
  by (simp add: dispatch_def login_response_body register_response_body
      reset_password_response_body security_question_response_body friend_list_response_body
      error_int_def)

theorem client_reports_answers_witness:
  "dispatch LOGIN_RESP (encode_login_response
        \<lparr>lresp_error_code = SUCCESS, lresp_user_id = 4, lresp_username = ''ann''\<rparr>)
        (new_client ''h'' 1)
      = Some (new_client ''h'' 1)
    \<and> dispatch FRIEND_LIST_RESP (encode_friend_list_response
        \<lparr>flresp_error_code = DATABASE_ERROR, flresp_friends = []\<rparr>) (new_client ''h'' 1)
      = Some (new_client ''h'' 1)"
  using client_reports_answers [of "''ann''" SUCCESS 4 "new_client ''h'' 1"]
    client_reports_answers [of "''ann''" DATABASE_ERROR 4 "new_client ''h'' 1"]
  by (simp add: invoke_def new_client_def)

end
