(* ===== verification/Sql_Tables.thy ===== *)
theory Sql_Tables
  imports Qq_Prelude "HOL-Library.Multiset"
begin

text \<open>
  The meaning of the SQL of the program: the three tables of sql/init.sql as lists of rows, in
  insertion order, and what each statement of server/src/database_pool.cpp does to them. A
  statement either fails (\<open>None\<close>: it meets a constraint of the schema and changes nothing) or
  gives its result rows, the last inserted id and the new tables.

  What the schema leaves to the database server is a parameter, the record \<open>sql_rules\<close>: the key
  under which the collation utf8mb4_unicode_ci compares two texts (equal keys are equal texts),
  which texts a column of a given width accepts (in strict mode a text that does not fit is an
  error), the current time as it is printed, the order \<open>ORDER BY timestamp DESC\<close> gives rows, and the
  order in which a \<open>SELECT\<close> without \<open>ORDER BY\<close> happens to return the rows of \<open>friends\<close>.
  The pool of Database_Pool does not call \<open>sql_run\<close>: it talks to a service that is a parameter
  of its own, and the theorems that need a meaning of SQL say that the service follows \<open>sql_run\<close>.
\<close>

record message_row =
  mr_msg_id :: nat
  mr_from_id :: i32
  mr_to_id :: i32
  mr_content :: string
  mr_timestamp :: string

record friend_row =
  fr_id :: nat
  fr_user_id :: i32
  fr_friend_id :: i32
  fr_status :: i32

record sql_rules =
  coll_key :: "string \<Rightarrow> string"
  fits_varchar :: "nat \<Rightarrow> string \<Rightarrow> bool"
  fits_text :: "string \<Rightarrow> bool"
  current_time :: "nat \<Rightarrow> string"
  newest_first :: "message_row list \<Rightarrow> message_row list"
  scan_order :: "nat \<Rightarrow> friend_row list \<Rightarrow> friend_row list"

section \<open>The tables\<close>

record user_row =
  ur_user_id :: nat
  ur_username :: string
  ur_password_hash :: string
  ur_avatar_url :: "string option"
  ur_security_question :: string
  ur_security_answer :: string

record tables =
  users :: "user_row list"
  friends :: "friend_row list"
  messages :: "message_row list"
  next_user_id :: nat
  next_friend_row :: nat
  next_msg_id :: nat

text \<open>\<open>AUTO_INCREMENT\<close> of an \<open>INT\<close> column ends at \<open>2 ^ 31 - 1\<close>, of a \<open>BIGINT\<close> at \<open>2 ^ 63 - 1\<close>.\<close>

definition int_max :: nat where
  "int_max = 2147483647"

definition bigint_max :: nat where
  "bigint_max = 9223372036854775807"

definition user_id_of :: "user_row \<Rightarrow> i32" where
  "user_id_of u = word_of_nat (ur_user_id u)"

definition same_text :: "sql_rules \<Rightarrow> string \<Rightarrow> string \<Rightarrow> bool" where
  "same_text ru a b \<longleftrightarrow> coll_key ru a = coll_key ru b"

section \<open>Statements\<close>

text \<open>An integer column has its value; the buffer it is fetched into may be narrower.\<close>

datatype column = Int_column int | Text_column string | Null_column

fun text_or_null :: "string option \<Rightarrow> column" where
  "text_or_null None = Null_column"
| "text_or_null (Some s) = Text_column s"

datatype sql =
    Select_login string
  | Select_count string
  | Select_security string
  | Select_user_by_id i32
  | Select_user_by_name string
  | Select_friends i32
  | Select_messages i32 i32 i32
  | Insert_user string string string string
  | Insert_user_without_security string string
  | Insert_friend i32 i32
  | Insert_message i32 i32 string
  | Update_password_by_name string string
  | Update_password_by_id i32 string
  | Delete_friend i32 i32

definition users_named :: "sql_rules \<Rightarrow> tables \<Rightarrow> string \<Rightarrow> user_row list" where
  "users_named ru t name = filter (\<lambda>u. same_text ru (ur_username u) name) (users t)"

definition users_with_id :: "tables \<Rightarrow> i32 \<Rightarrow> user_row list" where
  "users_with_id t i = filter (\<lambda>u. user_id_of u = i) (users t)"

type_synonym sql_result = "(column list list \<times> nat \<times> tables) option"

definition rows :: "tables \<Rightarrow> column list list \<Rightarrow> sql_result" where
  "rows t rs = Some (rs, 0, t)"

definition friends_of :: "tables \<Rightarrow> i32 \<Rightarrow> friend_row list" where
  "friends_of t i = filter (\<lambda>f. fr_user_id f = i \<and> fr_status f = 1) (friends t)"

definition select_friends :: "sql_rules \<Rightarrow> nat \<Rightarrow> tables \<Rightarrow> i32 \<Rightarrow> column list list" where
  "select_friends ru now t i =
     concat (map (\<lambda>f. map (\<lambda>u. [Int_column (sint (fr_friend_id f)), Text_column (ur_username u),
                               text_or_null (ur_avatar_url u)])
                        (users_with_id t (fr_friend_id f)))
       (scan_order ru now (friends_of t i)))"

definition select_messages :: "sql_rules \<Rightarrow> tables \<Rightarrow> i32 \<Rightarrow> i32 \<Rightarrow> nat \<Rightarrow> column list list" where
  "select_messages ru t a b limit =
     map (\<lambda>m. [Int_column (int (mr_msg_id m)), Int_column (sint (mr_from_id m)),
               Int_column (sint (mr_to_id m)), Text_column (mr_content m), Text_column (mr_timestamp m)])
       (take limit (newest_first ru
         (filter (\<lambda>m. (mr_from_id m = a \<and> mr_to_id m = b) \<or> (mr_from_id m = b \<and> mr_to_id m = a))
           (messages t))))"

text \<open>
  The constraints of the schema an insert meets: unique user names, widths of the columns, foreign
  keys, room for another id. \<open>security_question\<close> and \<open>security_answer\<close> are \<open>NOT NULL\<close> without a
  default, so an insert that leaves them out is refused.
\<close>

definition insert_user :: "sql_rules \<Rightarrow> string \<Rightarrow> string \<Rightarrow> string \<Rightarrow> string \<Rightarrow> tables \<Rightarrow> sql_result" where
  "insert_user ru name hash question answer t =
     (if users_named ru t name = [] \<and> fits_varchar ru 64 name \<and> fits_varchar ru 256 hash
         \<and> fits_varchar ru 256 question \<and> fits_varchar ru 256 answer
         \<and> next_user_id t \<le> int_max
      then Some ([], next_user_id t,
        t\<lparr>users := users t @ [\<lparr>ur_user_id = next_user_id t, ur_username = name,
             ur_password_hash = hash, ur_avatar_url = None, ur_security_question = question,
             ur_security_answer = answer\<rparr>],
          next_user_id := Suc (next_user_id t)\<rparr>)
      else None)"

definition insert_friend :: "i32 \<Rightarrow> i32 \<Rightarrow> tables \<Rightarrow> sql_result" where
  "insert_friend i j t =
     (if users_with_id t i \<noteq> [] \<and> users_with_id t j \<noteq> [] \<and> next_friend_row t \<le> int_max
      then Some ([], next_friend_row t,
        t\<lparr>friends := friends t @ [\<lparr>fr_id = next_friend_row t, fr_user_id = i, fr_friend_id = j,
             fr_status = 1\<rparr>],
          next_friend_row := Suc (next_friend_row t)\<rparr>)
      else None)"

definition insert_message :: "sql_rules \<Rightarrow> nat \<Rightarrow> i32 \<Rightarrow> i32 \<Rightarrow> string \<Rightarrow> tables \<Rightarrow> sql_result" where
  "insert_message ru now i j content t =
     (if users_with_id t i \<noteq> [] \<and> users_with_id t j \<noteq> [] \<and> fits_text ru content
         \<and> next_msg_id t \<le> bigint_max
      then Some ([], next_msg_id t,
        t\<lparr>messages := messages t @ [\<lparr>mr_msg_id = next_msg_id t, mr_from_id = i, mr_to_id = j,
             mr_content = content, mr_timestamp = current_time ru now\<rparr>],
          next_msg_id := Suc (next_msg_id t)\<rparr>)
      else None)"

definition update_users :: "(user_row \<Rightarrow> bool) \<Rightarrow> string \<Rightarrow> sql_rules \<Rightarrow> tables \<Rightarrow> sql_result" where
  "update_users p hash ru t =
     (if fits_varchar ru 256 hash \<or> \<not> list_ex p (users t)
      then rows (t\<lparr>users := map (\<lambda>u. if p u then u\<lparr>ur_password_hash := hash\<rparr> else u) (users t)\<rparr>) []
      else None)"

fun sql_run :: "sql_rules \<Rightarrow> nat \<Rightarrow> sql \<Rightarrow> tables \<Rightarrow> sql_result" where
  "sql_run ru now (Select_login name) t =
     rows t (map (\<lambda>u. [Int_column (int (ur_user_id u)), Text_column (ur_username u),
                       Text_column (ur_password_hash u)]) (users_named ru t name))"
| "sql_run ru now (Select_count name) t =
     rows t [[Int_column (int (length (users_named ru t name)))]]"
| "sql_run ru now (Select_security name) t =
     rows t (map (\<lambda>u. [Text_column (ur_security_question u), Text_column (ur_security_answer u)])
               (users_named ru t name))"
| "sql_run ru now (Select_user_by_id i) t =
     rows t (map (\<lambda>u. [Int_column (int (ur_user_id u)), Text_column (ur_username u),
                       text_or_null (ur_avatar_url u)]) (users_with_id t i))"
| "sql_run ru now (Select_user_by_name name) t =
     rows t (map (\<lambda>u. [Int_column (int (ur_user_id u)), Text_column (ur_username u),
                       text_or_null (ur_avatar_url u)]) (users_named ru t name))"
| "sql_run ru now (Select_friends i) t = rows t (select_friends ru now t i)"
| "sql_run ru now (Select_messages a b limit) t =
     (if sint limit < 0 then None else rows t (select_messages ru t a b (unat limit)))"
| "sql_run ru now (Insert_user name hash question answer) t =
     insert_user ru name hash question answer t"
| "sql_run ru now (Insert_user_without_security name hash) t = None"
| "sql_run ru now (Insert_friend i j) t = insert_friend i j t"
| "sql_run ru now (Insert_message i j content) t = insert_message ru now i j content t"
| "sql_run ru now (Update_password_by_name name hash) t =
     update_users (\<lambda>u. same_text ru (ur_username u) name) hash ru t"
| "sql_run ru now (Update_password_by_id i hash) t = update_users (\<lambda>u. user_id_of u = i) hash ru t"
| "sql_run ru now (Delete_friend i j) t =
     rows (t\<lparr>friends := filter (\<lambda>f. \<not> (fr_user_id f = i \<and> fr_friend_id f = j)) (friends t)\<rparr>) []"

section \<open>The schema's invariant\<close>

text \<open>
  What init.sql declares: primary keys and unique names, foreign keys, the widths of the columns,
  and counters that are ahead of every id given out.
\<close>

definition users_ok :: "sql_rules \<Rightarrow> tables \<Rightarrow> bool" where
  "users_ok ru t \<longleftrightarrow>
     distinct (map (\<lambda>u. coll_key ru (ur_username u)) (users t)) \<and>
     distinct (map ur_user_id (users t)) \<and>
     (\<forall>u\<in>set (users t). 0 < ur_user_id u \<and> ur_user_id u < next_user_id t \<and> ur_user_id u \<le> int_max \<and>
        fits_varchar ru 64 (ur_username u) \<and> fits_varchar ru 256 (ur_password_hash u) \<and>
        pred_option (fits_varchar ru 256) (ur_avatar_url u) \<and>
        fits_varchar ru 256 (ur_security_question u) \<and> fits_varchar ru 256 (ur_security_answer u)) \<and>
     0 < next_user_id t"

definition friends_ok :: "tables \<Rightarrow> bool" where
  "friends_ok t \<longleftrightarrow>
     distinct (map fr_id (friends t)) \<and>
     (\<forall>f\<in>set (friends t). 0 < fr_id f \<and> fr_id f < next_friend_row t \<and> fr_id f \<le> int_max \<and>
        users_with_id t (fr_user_id f) \<noteq> [] \<and> users_with_id t (fr_friend_id f) \<noteq> []) \<and>
     0 < next_friend_row t"

definition messages_ok :: "sql_rules \<Rightarrow> tables \<Rightarrow> bool" where
  "messages_ok ru t \<longleftrightarrow>
     distinct (map mr_msg_id (messages t)) \<and>
     (\<forall>m\<in>set (messages t). 0 < mr_msg_id m \<and> mr_msg_id m < next_msg_id t \<and> mr_msg_id m \<le> bigint_max \<and>
        users_with_id t (mr_from_id m) \<noteq> [] \<and> users_with_id t (mr_to_id m) \<noteq> [] \<and>
        fits_text ru (mr_content m)) \<and>
     0 < next_msg_id t"

definition schema_ok :: "sql_rules \<Rightarrow> tables \<Rightarrow> bool" where
  "schema_ok ru t \<longleftrightarrow> users_ok ru t \<and> friends_ok t \<and> messages_ok ru t"

lemma users_okD:
  assumes "users_ok ru t"
  shows "distinct (map (\<lambda>u. coll_key ru (ur_username u)) (users t))"
    "distinct (map ur_user_id (users t))"
    "u \<in> set (users t) \<Longrightarrow> 0 < ur_user_id u \<and> ur_user_id u \<le> int_max"
  using assms by (simp_all add: users_ok_def)

lemmas schema_defs = schema_ok_def users_ok_def friends_ok_def messages_ok_def

lemma users_with_id_cong: "users t' = users t \<Longrightarrow> users_with_id t' i = users_with_id t i"
  by (simp add: users_with_id_def)

lemma friends_ok_cong:
  assumes "friends_ok t" and "friends t' = friends t" and "next_friend_row t' = next_friend_row t"
    and "\<And>i. users_with_id t i \<noteq> [] \<Longrightarrow> users_with_id t' i \<noteq> []"
  shows "friends_ok t'"
  using assms by (simp add: friends_ok_def)

lemma messages_ok_cong:
  assumes "messages_ok ru t" and "messages t' = messages t" and "next_msg_id t' = next_msg_id t"
    and "\<And>i. users_with_id t i \<noteq> [] \<Longrightarrow> users_with_id t' i \<noteq> []"
  shows "messages_ok ru t'"
  using assms by (simp add: messages_ok_def)

lemma users_ok_cong:
  "users_ok ru t \<Longrightarrow> users t' = users t \<Longrightarrow> next_user_id t' = next_user_id t \<Longrightarrow> users_ok ru t'"
  by (simp add: users_ok_def)

lemma schema_ok_insert_user:
  assumes ins: "insert_user ru name hash question answer t = Some (rs, i, t')" and ok: "schema_ok ru t"
  shows "schema_ok ru t'"
proof -
  define u where "u = \<lparr>ur_user_id = next_user_id t, ur_username = name, ur_password_hash = hash,
    ur_avatar_url = None, ur_security_question = question, ur_security_answer = answer\<rparr>"
  have t': "t' = t\<lparr>users := users t @ [u], next_user_id := Suc (next_user_id t)\<rparr>"
    and fresh: "users_named ru t name = []" and room: "next_user_id t \<le> int_max"
    and fits: "fits_varchar ru 64 name" "fits_varchar ru 256 hash" "fits_varchar ru 256 question"
      "fits_varchar ru 256 answer"
    using ins by (auto simp: insert_user_def u_def split: if_splits)
  have parts: "users_ok ru t" "friends_ok t" "messages_ok ru t" using ok by (simp_all add: schema_ok_def)
  have new: "coll_key ru name \<notin> (\<lambda>u. coll_key ru (ur_username u)) ` set (users t)"
    using fresh by (auto simp: users_named_def same_text_def filter_empty_conv)
  have id: "next_user_id t \<notin> ur_user_id ` set (users t)"
    using parts(1) by (auto simp: users_ok_def)
  have "users_ok ru t'"
    using parts(1) new id room fits unfolding users_ok_def by (auto simp: t' u_def less_Suc_eq)
  moreover have w: "users_with_id t' k \<noteq> []" if "users_with_id t k \<noteq> []" for k
    using that by (auto simp: t' users_with_id_def)
  moreover have "friends_ok t'" by (rule friends_ok_cong [OF parts(2)]) (simp_all add: t' w [unfolded t'])
  moreover have "messages_ok ru t'" by (rule messages_ok_cong [OF parts(3)]) (simp_all add: t' w [unfolded t'])
  ultimately show ?thesis by (simp add: schema_ok_def)
qed

lemma schema_ok_insert_friend:
  assumes ins: "insert_friend i j t = Some (rs, k, t')" and ok: "schema_ok ru t"
  shows "schema_ok ru t'"
proof -
  have parts: "users_ok ru t" "friends_ok t" "messages_ok ru t" using ok by (simp_all add: schema_ok_def)
  have same: "users t' = users t" "next_user_id t' = next_user_id t" "messages t' = messages t"
    "next_msg_id t' = next_msg_id t"
    using ins by (auto simp: insert_friend_def split: if_splits)
  have "next_friend_row t \<notin> fr_id ` set (friends t)" using parts(2) by (auto simp: friends_ok_def)
  with ins parts(2) have "friends_ok t'"
    by (auto simp: insert_friend_def friends_ok_def users_with_id_cong [OF same(1)] less_Suc_eq split: if_splits)
  then show ?thesis
    using users_ok_cong [OF parts(1) same(1,2)] messages_ok_cong [OF parts(3) same(3,4)]
    by (simp add: schema_ok_def users_with_id_cong [OF same(1)])
qed

lemma schema_ok_insert_message:
  assumes ins: "insert_message ru now i j content t = Some (rs, k, t')" and ok: "schema_ok ru t"
  shows "schema_ok ru t'"
proof -
  have parts: "users_ok ru t" "friends_ok t" "messages_ok ru t" using ok by (simp_all add: schema_ok_def)
  have same: "users t' = users t" "next_user_id t' = next_user_id t" "friends t' = friends t"
    "next_friend_row t' = next_friend_row t"
    using ins by (auto simp: insert_message_def split: if_splits)
  have "next_msg_id t \<notin> mr_msg_id ` set (messages t)" using parts(3) by (auto simp: messages_ok_def)
  with ins parts(3) have "messages_ok ru t'"
    by (auto simp: insert_message_def messages_ok_def users_with_id_cong [OF same(1)] less_Suc_eq split: if_splits)
  then show ?thesis
    using users_ok_cong [OF parts(1) same(1,2)] friends_ok_cong [OF parts(2) same(3,4)]
    by (simp add: schema_ok_def users_with_id_cong [OF same(1)])
qed

lemma users_with_id_update:
  "users_with_id (t\<lparr>users := map (\<lambda>u. if p u then u\<lparr>ur_password_hash := h\<rparr> else u) (users t)\<rparr>) i
     = map (\<lambda>u. if p u then u\<lparr>ur_password_hash := h\<rparr> else u) (users_with_id t i)"
  by (auto simp: users_with_id_def filter_map o_def user_id_of_def intro!: map_cong filter_cong
      arg_cong [where f = "map _"] split: if_splits)

lemma map_update_eq:
  "(\<And>u. f (u\<lparr>ur_password_hash := h\<rparr>) = f u) \<Longrightarrow>
     map f (map (\<lambda>u. if p u then u\<lparr>ur_password_hash := h\<rparr> else u) us) = map f us"
  by (induction us) auto

lemma schema_ok_update_users:
  assumes upd: "update_users p hash ru t = Some (rs, k, t')" and ok: "schema_ok ru t"
  shows "schema_ok ru t'"
proof -
  let ?f = "\<lambda>u. if p u then u\<lparr>ur_password_hash := hash\<rparr> else u"
  have t': "t' = t\<lparr>users := map ?f (users t)\<rparr>"
    and fits: "fits_varchar ru 256 hash \<or> (\<forall>u\<in>set (users t). \<not> p u)"
    using upd by (auto simp: update_users_def rows_def list_ex_iff split: if_splits)
  have parts: "users_ok ru t" "friends_ok t" "messages_ok ru t" using ok by (simp_all add: schema_ok_def)
  have m: "map (\<lambda>u. coll_key ru (ur_username u)) (map ?f (users t))
      = map (\<lambda>u. coll_key ru (ur_username u)) (users t)"
    "map ur_user_id (map ?f (users t)) = map ur_user_id (users t)"
    by (rule map_update_eq, simp)+
  have "users_ok ru t'"
    using parts(1) m fits unfolding users_ok_def t' by (auto simp del: map_map)
  moreover have w: "users_with_id t' i \<noteq> []" if "users_with_id t i \<noteq> []" for i
    using that by (simp add: t' users_with_id_update)
  moreover have "friends_ok t'" by (rule friends_ok_cong [OF parts(2)]) (simp_all add: t' w [unfolded t'])
  moreover have "messages_ok ru t'" by (rule messages_ok_cong [OF parts(3)]) (simp_all add: t' w [unfolded t'])
  ultimately show ?thesis by (simp add: schema_ok_def)
qed

lemma schema_ok_delete_friend:
  assumes "schema_ok ru t" shows "schema_ok ru (t\<lparr>friends := filter g (friends t)\<rparr>)"
  using assms by (auto simp: schema_defs users_with_id_def distinct_map_filter)

text \<open>Every statement keeps the invariant.\<close>

lemma schema_ok_sql_run:
  assumes "sql_run ru now q t = Some (rs, i, t')" and "schema_ok ru t"
  shows "schema_ok ru t'"
proof (cases q)
  case (Delete_friend a b)
  with assms show ?thesis by (auto simp: rows_def schema_ok_delete_friend)
qed (use assms in \<open>auto simp: rows_def split: if_splits intro: schema_ok_insert_user
  schema_ok_insert_friend schema_ok_insert_message schema_ok_update_users\<close>)

end
