(* ===== verification/Database_Pool.thy ===== *)
theory Database_Pool
  imports Sql_Tables
begin

text \<open>
  \<open>DatabasePool\<close> of server/src/database_pool.cpp: the queue of MySQL connections, and one method per
  question the handlers ask the database. The MySQL client library and the database server are not
  part of the repository; they are the record \<open>mysql_env\<close>, a parameter of every operation: which
  library call succeeds (numbered by a clock that every call advances), what a statement answers
  and does to the tables, how a text column is stored in a bound buffer, the SHA-256 digest of
  OpenSSL and what an array on the stack holds before anything is written to it.

  An operation is a function of the pool's state that gives an outcome and the next state:
  \<open>Done x\<close> (it returned x), \<open>Blocks\<close> (it waits on the condition variable with nobody left to wake
  it: the server handles everything in one thread) or \<open>Overread\<close> (it read a C string past the end
  of its array). The state counts the statements and results that are open and the connections that
  are live, so that leaks can be stated.
\<close>

section \<open>The MySQL library as a parameter\<close>

datatype api_call =
    Mysql_init | Mysql_real_connect | Mysql_ping | Stmt_init | Stmt_prepare | Stmt_bind_param
  | Stmt_result_metadata | Stmt_fetch

record mysql_env =
  call_ok :: "nat \<Rightarrow> api_call \<Rightarrow> bool"
  service :: "nat \<Rightarrow> sql \<Rightarrow> tables \<Rightarrow> (column list list \<times> nat) option \<times> tables"
  fetch_text :: "nat \<Rightarrow> string \<Rightarrow> string \<Rightarrow> bool \<times> string"
  digest :: "bytes \<Rightarrow> bytes"
  stack_junk :: "nat \<Rightarrow> char"

datatype 'a outcome = Done 'a | Blocks | Overread

record pool =
  idle_conns :: "nat list"
  next_handle :: nat
  live_conns :: "nat list"
  open_stmts :: int
  open_results :: int
  db_clock :: nat
  db_tables :: tables

type_synonym 'a db = "pool \<Rightarrow> 'a outcome \<times> pool"

definition returns :: "'a \<Rightarrow> 'a db" where
  "returns x p = (Done x, p)"

definition db_bind :: "'a db \<Rightarrow> ('a \<Rightarrow> 'b db) \<Rightarrow> 'b db" where
  "db_bind m f p =
     (case m p of (Done x, p') \<Rightarrow> f x p' | (Blocks, p') \<Rightarrow> (Blocks, p') | (Overread, p') \<Rightarrow> (Overread, p'))"

definition lift_outcome :: "'a outcome \<Rightarrow> 'a db" where
  "lift_outcome r p = (r, p)"

definition api :: "mysql_env \<Rightarrow> api_call \<Rightarrow> bool db" where
  "api env c p = (Done (call_ok env (db_clock p) c), p\<lparr>db_clock := Suc (db_clock p)\<rparr>)"

definition stmt_opened :: "unit db" where
  "stmt_opened p = (Done (), p\<lparr>open_stmts := open_stmts p + 1\<rparr>)"

definition mysql_stmt_close :: "unit db" where
  "mysql_stmt_close p = (Done (), p\<lparr>open_stmts := open_stmts p - 1\<rparr>)"

definition result_opened :: "unit db" where
  "result_opened p = (Done (), p\<lparr>open_results := open_results p + 1\<rparr>)"

definition mysql_free_result :: "unit db" where
  "mysql_free_result p = (Done (), p\<lparr>open_results := open_results p - 1\<rparr>)"

definition mysql_close :: "nat \<Rightarrow> unit db" where
  "mysql_close c p = (Done (), p\<lparr>live_conns := remove1 c (live_conns p)\<rparr>)"

section \<open>Connections\<close>

definition create_connection :: "mysql_env \<Rightarrow> nat option db" where
  "create_connection env =
     db_bind (api env Mysql_init) (\<lambda>ok.
       if \<not> ok then returns None
       else (\<lambda>p. let conn = next_handle p in
         db_bind (api env Mysql_real_connect) (\<lambda>ok.
           if \<not> ok then db_bind (mysql_close conn) (\<lambda>_. returns None)
           else returns (Some conn))
         (p\<lparr>next_handle := Suc conn, live_conns := conn # live_conns p\<rparr>)))"

primrec fill_pool :: "mysql_env \<Rightarrow> nat \<Rightarrow> unit db" where
  "fill_pool env 0 = returns ()"
| "fill_pool env (Suc n) =
     db_bind (create_connection env) (\<lambda>c p.
       fill_pool env n (case c of None \<Rightarrow> p | Some c \<Rightarrow> p\<lparr>idle_conns := idle_conns p @ [c]\<rparr>))"

definition new_pool :: "tables \<Rightarrow> pool" where
  "new_pool t = \<lparr>idle_conns = [], next_handle = 0, live_conns = [], open_stmts = 0, open_results = 0,
     db_clock = 0, db_tables = t\<rparr>"

definition database_pool :: "mysql_env \<Rightarrow> tables \<Rightarrow> int \<Rightarrow> unit outcome \<times> pool" where
  "database_pool env t pool_size = fill_pool env (nat pool_size) (new_pool t)"

primrec close_all :: "nat list \<Rightarrow> unit db" where
  "close_all [] = (\<lambda>p. (Done (), p\<lparr>idle_conns := []\<rparr>))"
| "close_all (c # cs) = db_bind (\<lambda>p. mysql_close c (p\<lparr>idle_conns := cs\<rparr>)) (\<lambda>_. close_all cs)"

definition destroy_pool :: "unit db" where
  "destroy_pool p = close_all (idle_conns p) p"

definition get_connection :: "mysql_env \<Rightarrow> nat option db" where
  "get_connection env p =
     (case idle_conns p of
        [] \<Rightarrow> (Blocks, p)
      | conn # rest \<Rightarrow>
          db_bind (api env Mysql_ping) (\<lambda>ok.
            if ok then returns (Some conn)
            else db_bind (mysql_close conn) (\<lambda>_. create_connection env))
          (p\<lparr>idle_conns := rest\<rparr>))"

definition release_connection :: "nat \<Rightarrow> unit db" where
  "release_connection c p = (Done (), p\<lparr>idle_conns := idle_conns p @ [c]\<rparr>)"

definition with_connection :: "mysql_env \<Rightarrow> 'a \<Rightarrow> 'a db \<Rightarrow> 'a db" where
  "with_connection env none body =
     db_bind (get_connection env) (\<lambda>conn.
       case conn of
         None \<Rightarrow> returns none
       | Some c \<Rightarrow> db_bind body (\<lambda>x. db_bind (release_connection c) (\<lambda>_. returns x)))"

section \<open>Statements and bound buffers\<close>

text \<open>
  Every method prepares, binds and executes one statement the same way and closes it on each early
  return; \<open>run_statement\<close> is that prologue, and what comes after it is its last argument, which has
  to close the statement itself. \<open>with_result\<close> is the prologue of the methods that read columns.
\<close>

definition close_with :: "'a \<Rightarrow> 'a db" where
  "close_with x = db_bind mysql_stmt_close (\<lambda>_. returns x)"

definition mysql_stmt_execute :: "mysql_env \<Rightarrow> sql \<Rightarrow> (column list list \<times> nat) option db" where
  "mysql_stmt_execute env q p =
     (let (r, t) = service env (db_clock p) q (db_tables p)
      in (Done r, p\<lparr>db_tables := t, db_clock := Suc (db_clock p)\<rparr>))"

definition run_statement ::
  "mysql_env \<Rightarrow> sql \<Rightarrow> 'a \<Rightarrow> ((column list list \<times> nat) option \<Rightarrow> 'a db) \<Rightarrow> 'a db" where
  "run_statement env q none k =
     db_bind (api env Stmt_init) (\<lambda>ok. if \<not> ok then returns none else
     db_bind stmt_opened (\<lambda>_.
     db_bind (api env Stmt_prepare) (\<lambda>ok. if \<not> ok then close_with none else
     db_bind (api env Stmt_bind_param) (\<lambda>ok. if \<not> ok then close_with none else
     db_bind (mysql_stmt_execute env q) k))))"

definition with_result :: "mysql_env \<Rightarrow> 'a \<Rightarrow> 'a db \<Rightarrow> 'a db" where
  "with_result env none k =
     db_bind (api env Stmt_result_metadata) (\<lambda>ok. if \<not> ok then close_with none else
     db_bind result_opened (\<lambda>_.
     db_bind k (\<lambda>x. db_bind mysql_free_result (\<lambda>_. close_with x))))"

definition query :: "mysql_env \<Rightarrow> sql \<Rightarrow> 'a \<Rightarrow> (column list list \<Rightarrow> 'a db) \<Rightarrow> 'a db" where
  "query env q none k =
     with_connection env none (run_statement env q none (\<lambda>r.
       case r of None \<Rightarrow> close_with none | Some (rs, _) \<Rightarrow> with_result env none (k rs)))"

definition update :: "mysql_env \<Rightarrow> sql \<Rightarrow> bool db" where
  "update env q =
     with_connection env False (run_statement env q False (\<lambda>r. close_with (r \<noteq> None)))"

text \<open>
  A bound buffer is an \<open>int\<close> (\<open>MYSQL_TYPE_LONG\<close>) or a character array with the length the code
  announces for it (\<open>MYSQL_TYPE_STRING\<close>). A column that is \<open>NULL\<close> leaves its buffer alone.
\<close>

datatype bind_buffer = Int_buffer i32 | Text_buffer nat string

definition stack_array :: "mysql_env \<Rightarrow> nat \<Rightarrow> string" where
  "stack_array env n = map (stack_junk env) [0..<n]"

definition stack_int :: "mysql_env \<Rightarrow> i32" where
  "stack_int env = word_of_nat (of_char (stack_junk env 0))"

fun fetch_column :: "mysql_env \<Rightarrow> column \<Rightarrow> bind_buffer \<Rightarrow> bool \<times> bind_buffer" where
  "fetch_column env (Int_column i) (Int_buffer _) =
     (- (2 ^ 31) \<le> i \<and> i < 2 ^ 31, Int_buffer (word_of_int i))"
| "fetch_column env (Text_column s) (Text_buffer n old) =
     (let (whole, new) = fetch_text env n s old in (whole, Text_buffer n new))"
| "fetch_column env Null_column b = (True, b)"
| "fetch_column env _ b = (False, b)"

text \<open>The result says whether \<open>mysql_stmt_fetch\<close> returned 0: a row, and no column truncated.\<close>

definition mysql_stmt_fetch ::
  "mysql_env \<Rightarrow> column list list \<Rightarrow> bind_buffer list \<Rightarrow> (bool \<times> bind_buffer list) db" where
  "mysql_stmt_fetch env rs bufs =
     db_bind (api env Stmt_fetch) (\<lambda>ok.
       returns (case rs of
           [] \<Rightarrow> (False, bufs)
         | r # _ \<Rightarrow> if \<not> ok then (False, bufs)
             else (let cols = map2 (fetch_column env) r bufs
                   in (list_all fst cols, map snd cols))))"

fun int_at :: "bind_buffer list \<Rightarrow> nat \<Rightarrow> i32" where
  "int_at bufs i = (case bufs ! i of Int_buffer v \<Rightarrow> v | Text_buffer _ _ \<Rightarrow> 0)"

definition c_string :: "string \<Rightarrow> string outcome" where
  "c_string a = (if CHR 0x00 \<in> set a then Done (takeWhile (\<lambda>c. c \<noteq> CHR 0x00) a) else Overread)"

definition read_text :: "bind_buffer list \<Rightarrow> nat \<Rightarrow> string db" where
  "read_text bufs i = lift_outcome (case bufs ! i of Text_buffer _ a \<Rightarrow> c_string a | Int_buffer _ \<Rightarrow> Overread)"

text \<open>The loop \<open>while (mysql_stmt_fetch(stmt) == 0)\<close>: every row goes into the same buffers.\<close>

primrec fetch_while ::
  "mysql_env \<Rightarrow> (bind_buffer list \<Rightarrow> 'a db) \<Rightarrow> column list list \<Rightarrow> bind_buffer list \<Rightarrow> 'a list \<Rightarrow> 'a list db"
where
  "fetch_while env g [] bufs acc = db_bind (mysql_stmt_fetch env [] bufs) (\<lambda>_. returns acc)"
| "fetch_while env g (r # rs) bufs acc =
     db_bind (mysql_stmt_fetch env (r # rs) bufs) (\<lambda>(ok, bufs').
       if ok then db_bind (g bufs') (\<lambda>x. fetch_while env g rs bufs' (acc @ [x])) else returns acc)"

section \<open>SHA-256 in hexadecimal\<close>

definition hex_digit :: "byte \<Rightarrow> char" where
  "hex_digit b = ''0123456789abcdef'' ! unat b"

definition hex_byte :: "byte \<Rightarrow> string" where
  "hex_byte b = [hex_digit (drop_bit 4 b), hex_digit (take_bit 4 b)]"

definition SHA256_DIGEST_LENGTH :: nat where
  "SHA256_DIGEST_LENGTH = 32"

definition sha256 :: "mysql_env \<Rightarrow> string \<Rightarrow> string" where
  "sha256 env str =
     (let hash = digest env (str_bytes str)
      in concat (map (\<lambda>i. hex_byte (hash ! i)) [0..<SHA256_DIGEST_LENGTH]))"

section \<open>The queries\<close>

record user =
  u_user_id :: i32
  u_username :: string
  u_password_hash :: string
  u_avatar_url :: string
  u_security_question :: string
  u_security_answer :: string

record friend =
  f_user_id :: i32
  f_friend_id :: i32
  f_friend_name :: string
  f_avatar_url :: string

record chat_message =
  m_msg_id :: i32
  m_from_id :: i32
  m_to_id :: i32
  m_content :: string
  m_timestamp :: string

text \<open>An output parameter is passed in as it was and returned as the call leaves it.\<close>

definition db_verify_user :: "mysql_env \<Rightarrow> string \<Rightarrow> string \<Rightarrow> user \<Rightarrow> (bool \<times> user) db" where
  "db_verify_user env username password user =
     query env (Select_login username) (False, user) (\<lambda>rs.
       db_bind (mysql_stmt_fetch env rs
         [Int_buffer (stack_int env), Text_buffer 64 (stack_array env 65),
          Text_buffer 256 (stack_array env 257)]) (\<lambda>(ok, bufs).
       if \<not> ok then returns (False, user)
       else db_bind (read_text bufs 2) (\<lambda>stored_hash.
         if stored_hash = sha256 env password
         then db_bind (read_text bufs 1) (\<lambda>name.
           returns (True, user\<lparr>u_user_id := int_at bufs 0, u_username := name,
             u_password_hash := stored_hash\<rparr>))
         else returns (False, user))))"

definition db_register_user ::
  "mysql_env \<Rightarrow> string \<Rightarrow> string \<Rightarrow> string \<Rightarrow> string \<Rightarrow> i32 \<Rightarrow> (bool \<times> i32) db" where
  "db_register_user env username password_hash security_question security_answer_hash out_user_id =
     with_connection env (False, out_user_id)
       (run_statement env
         (Insert_user username password_hash security_question security_answer_hash)
         (False, out_user_id)
         (\<lambda>r. case r of
              None \<Rightarrow> close_with (False, out_user_id)
            | Some (_, insert_id) \<Rightarrow> close_with (True, word_of_nat insert_id)))"

definition db_username_exists :: "mysql_env \<Rightarrow> string \<Rightarrow> bool db" where
  "db_username_exists env username =
     with_connection env False
       (run_statement env (Select_count username) False
         (\<lambda>r. case r of
              None \<Rightarrow> close_with False
            | Some (rs, _) \<Rightarrow>
                db_bind (mysql_stmt_fetch env rs [Int_buffer 0]) (\<lambda>(_, bufs).
                  close_with (sint (int_at bufs 0) > 0))))"

definition db_get_security_question ::
  "mysql_env \<Rightarrow> string \<Rightarrow> string \<Rightarrow> string \<Rightarrow> (bool \<times> string \<times> string) db" where
  "db_get_security_question env username question answer_hash =
     query env (Select_security username) (False, question, answer_hash) (\<lambda>rs.
       db_bind (mysql_stmt_fetch env rs
         [Text_buffer 256 (stack_array env 257), Text_buffer 256 (stack_array env 257)])
       (\<lambda>(ok, bufs).
         if ok then db_bind (read_text bufs 0) (\<lambda>q. db_bind (read_text bufs 1) (\<lambda>a.
           returns (True, q, a)))
         else returns (False, question, answer_hash)))"

definition db_reset_password :: "mysql_env \<Rightarrow> string \<Rightarrow> string \<Rightarrow> bool db" where
  "db_reset_password env username new_password_hash =
     update env (Update_password_by_name username new_password_hash)"

definition db_update_password :: "mysql_env \<Rightarrow> i32 \<Rightarrow> string \<Rightarrow> bool db" where
  "db_update_password env user_id new_password_hash =
     update env (Update_password_by_id user_id new_password_hash)"

definition fetch_user :: "mysql_env \<Rightarrow> sql \<Rightarrow> user \<Rightarrow> (bool \<times> user) db" where
  "fetch_user env q user =
     query env q (False, user) (\<lambda>rs.
       db_bind (mysql_stmt_fetch env rs
         [Int_buffer (u_user_id user), Text_buffer 64 (stack_array env 65),
          Text_buffer 256 (stack_array env 257)]) (\<lambda>(ok, bufs).
       let user = user\<lparr>u_user_id := int_at bufs 0\<rparr>
       in if ok then db_bind (read_text bufs 1) (\<lambda>name. db_bind (read_text bufs 2) (\<lambda>avatar.
            returns (True, user\<lparr>u_username := name, u_avatar_url := avatar\<rparr>)))
          else returns (False, user)))"

definition db_get_user_by_id :: "mysql_env \<Rightarrow> i32 \<Rightarrow> user \<Rightarrow> (bool \<times> user) db" where
  "db_get_user_by_id env user_id user = fetch_user env (Select_user_by_id user_id) user"

definition db_get_user_by_name :: "mysql_env \<Rightarrow> string \<Rightarrow> user \<Rightarrow> (bool \<times> user) db" where
  "db_get_user_by_name env username user = fetch_user env (Select_user_by_name username) user"

definition read_friend :: "i32 \<Rightarrow> bind_buffer list \<Rightarrow> friend db" where
  "read_friend user_id bufs =
     db_bind (read_text bufs 1) (\<lambda>name. db_bind (read_text bufs 2) (\<lambda>avatar.
       returns \<lparr>f_user_id = user_id, f_friend_id = int_at bufs 0, f_friend_name = name,
         f_avatar_url = avatar\<rparr>))"

definition db_get_friends :: "mysql_env \<Rightarrow> i32 \<Rightarrow> friend list \<Rightarrow> (bool \<times> friend list) db" where
  "db_get_friends env user_id fs =
     query env (Select_friends user_id) (False, fs) (\<lambda>rs.
       db_bind (fetch_while env (read_friend user_id) rs
         [Int_buffer (stack_int env), Text_buffer 64 (stack_array env 65),
          Text_buffer 256 (stack_array env 257)] fs) (\<lambda>fs. returns (True, fs)))"

definition db_send_message :: "mysql_env \<Rightarrow> i32 \<Rightarrow> i32 \<Rightarrow> string \<Rightarrow> i32 \<Rightarrow> (bool \<times> i32) db" where
  "db_send_message env from_id to_id content out_msg_id =
     with_connection env (False, out_msg_id)
       (run_statement env (Insert_message from_id to_id content) (False, out_msg_id)
         (\<lambda>r. case r of
              None \<Rightarrow> close_with (False, out_msg_id)
            | Some (_, insert_id) \<Rightarrow> close_with (True, word_of_nat insert_id)))"

definition read_message :: "bind_buffer list \<Rightarrow> chat_message db" where
  "read_message bufs =
     db_bind (read_text bufs 3) (\<lambda>content. db_bind (read_text bufs 4) (\<lambda>timestamp.
       returns \<lparr>m_msg_id = int_at bufs 0, m_from_id = int_at bufs 1, m_to_id = int_at bufs 2,
         m_content = content, m_timestamp = timestamp\<rparr>))"

definition db_get_messages ::
  "mysql_env \<Rightarrow> i32 \<Rightarrow> i32 \<Rightarrow> chat_message list \<Rightarrow> i32 \<Rightarrow> (bool \<times> chat_message list) db" where
  "db_get_messages env user_id friend_id ms limit =
     query env (Select_messages user_id friend_id limit) (False, ms) (\<lambda>rs.
       db_bind (fetch_while env read_message rs
         [Int_buffer (stack_int env), Int_buffer (stack_int env), Int_buffer (stack_int env),
          Text_buffer 4095 (stack_array env 4096), Text_buffer 19 (stack_array env 20)] ms)
       (\<lambda>ms. returns (True, rev ms)))"

definition db_add_user :: "mysql_env \<Rightarrow> string \<Rightarrow> string \<Rightarrow> bool db" where
  "db_add_user env username password_hash =
     update env (Insert_user_without_security username password_hash)"

definition db_add_friend :: "mysql_env \<Rightarrow> i32 \<Rightarrow> i32 \<Rightarrow> bool db" where
  "db_add_friend env user_id friend_id = update env (Insert_friend user_id friend_id)"

definition db_delete_friend :: "mysql_env \<Rightarrow> i32 \<Rightarrow> i32 \<Rightarrow> bool db" where
  "db_delete_friend env user_id friend_id = update env (Delete_friend user_id friend_id)"

section \<open>What every operation leaves as it was\<close>

text \<open>
  \<open>body_ok d e m\<close>: what runs on a connection leaves the pool's queue and connections alone, never
  waits, and when it returns has opened d statements and e results more than it closed.
\<close>

definition body_ok :: "int \<Rightarrow> int \<Rightarrow> 'a db \<Rightarrow> bool" where
  "body_ok d e m \<longleftrightarrow> (\<forall>p r p'. m p = (r, p') \<longrightarrow>
     idle_conns p' = idle_conns p \<and> live_conns p' = live_conns p \<and> next_handle p' = next_handle p \<and>
     r \<noteq> Blocks \<and>
     (\<forall>x. r = Done x \<longrightarrow> open_stmts p' = open_stmts p + d \<and> open_results p' = open_results p + e))"

lemma db_bind_done: "db_bind m f p = (Done y, p'') \<longleftrightarrow> (\<exists>x p'. m p = (Done x, p') \<and> f x p' = (Done y, p''))"
  by (auto simp: db_bind_def split: prod.splits outcome.splits)

lemma body_ok_bind:
  assumes "body_ok d e m" and "\<And>x. body_ok d' e' (f x)"
  shows "body_ok (d + d') (e + e') (db_bind m f)"
  unfolding body_ok_def
proof (intro allI impI)
  fix p r p' assume b: "db_bind m f p = (r, p')"
  obtain r1 p1 where m: "m p = (r1, p1)" by (cases "m p")
  show "idle_conns p' = idle_conns p \<and> live_conns p' = live_conns p \<and> next_handle p' = next_handle p \<and>
     r \<noteq> Blocks \<and> (\<forall>x. r = Done x \<longrightarrow> open_stmts p' = open_stmts p + (d + d') \<and>
       open_results p' = open_results p + (e + e'))"
  proof (cases r1)
    case (Done x)
    then have "f x p1 = (r, p')" using b m by (simp add: db_bind_def)
    then show ?thesis
      using assms(1) assms(2) [of x] m Done unfolding body_ok_def by (metis (no_types, lifting) add.assoc)
  next
    case Blocks then show ?thesis using assms(1) m by (fastforce simp: body_ok_def)
  next
    case Overread
    then have "r = Overread" "p' = p1" using b m by (simp_all add: db_bind_def)
    then show ?thesis using assms(1) m Overread by (fastforce simp: body_ok_def)
  qed
qed

lemma body_ok_bind0 [inv_intros]:
  "body_ok 0 0 m \<Longrightarrow> (\<And>x. body_ok d e (f x)) \<Longrightarrow> body_ok d e (db_bind m f)"
  using body_ok_bind [of 0 0 m d e f] by simp

lemma body_ok_returns [inv_intros]: "body_ok 0 0 (returns x)"
  by (simp add: body_ok_def returns_def)

lemma body_ok_api [inv_intros]: "body_ok 0 0 (api env c)"
  by (auto simp: body_ok_def api_def)

lemma body_ok_execute [inv_intros]: "body_ok 0 0 (mysql_stmt_execute env q)"
  by (auto simp: body_ok_def mysql_stmt_execute_def Let_def split: prod.splits)

lemma body_ok_close_with [inv_intros]: "body_ok (- 1) 0 (close_with x)"
  by (auto simp: body_ok_def close_with_def mysql_stmt_close_def returns_def db_bind_def)

lemma body_ok_if [inv_intros]: "body_ok d e m \<Longrightarrow> body_ok d e n \<Longrightarrow> body_ok d e (if b then m else n)"
  by simp

lemma body_ok_split [inv_intros]: "(\<And>x y. body_ok d e (f x y)) \<Longrightarrow> body_ok d e (case z of (x, y) \<Rightarrow> f x y)"
  by (cases z) simp

lemma body_ok_case_option [inv_intros]:
  "body_ok d e m \<Longrightarrow> (\<And>x. body_ok d e (f x)) \<Longrightarrow> body_ok d e (case z of None \<Rightarrow> m | Some x \<Rightarrow> f x)"
  by (cases z) simp_all

lemma body_ok_fetch [inv_intros]: "body_ok 0 0 (mysql_stmt_fetch env rs bufs)"
  unfolding mysql_stmt_fetch_def by (intro inv_intros)

lemma body_ok_read_text [inv_intros]: "body_ok 0 0 (read_text bufs i)"
  by (auto simp: body_ok_def read_text_def lift_outcome_def c_string_def split: bind_buffer.splits)

lemma body_ok_fetch_while [inv_intros]:
  assumes "\<And>b. body_ok 0 0 (g b)"
  shows "body_ok 0 0 (fetch_while env g rs bufs acc)"
proof (induction rs arbitrary: bufs acc)
  case Nil then show ?case by (simp add: body_ok_bind0 body_ok_fetch body_ok_returns)
next
  case (Cons r rs)
  show ?case unfolding fetch_while.simps
    by (intro inv_intros assms Cons.IH)
qed

lemma body_ok_counts:
  "body_ok 1 0 stmt_opened" "body_ok 0 1 result_opened" "body_ok 0 (- 1) mysql_free_result"
  by (auto simp: body_ok_def stmt_opened_def result_opened_def mysql_free_result_def)

lemma body_ok_bind_eq:
  "body_ok d' e' m \<Longrightarrow> (\<And>x. body_ok (d - d') (e - e') (f x)) \<Longrightarrow> body_ok d e (db_bind m f)"
  using body_ok_bind [of d' e' m "d - d'" "e - e'" f] by simp

lemma body_ok_with_result [inv_intros]:
  assumes "body_ok 0 0 k" shows "body_ok (- 1) 0 (with_result env none k)"
proof -
  have free: "body_ok (- 1) (- 1) (db_bind mysql_free_result (\<lambda>_. close_with x))" for x :: 'a
    by (rule body_ok_bind_eq, rule body_ok_counts, simp add: body_ok_close_with)
  have "body_ok (- 1) 0
      (db_bind result_opened (\<lambda>_. db_bind k (\<lambda>x. db_bind mysql_free_result (\<lambda>_. close_with x))))"
    by (rule body_ok_bind_eq, rule body_ok_counts, simp add: body_ok_bind0 assms free)
  then show ?thesis
    unfolding with_result_def
    by - (rule body_ok_bind0, rule body_ok_api, rule body_ok_if, rule body_ok_close_with)
qed

lemma body_ok_run_statement [inv_intros]:
  assumes "\<And>r. body_ok (- 1) 0 (k r)"
  shows "body_ok 0 0 (run_statement env q none k)"
proof -
  have "body_ok (- 1) 0 (db_bind (api env Stmt_prepare) (\<lambda>ok. if \<not> ok then close_with none else
     db_bind (api env Stmt_bind_param) (\<lambda>ok. if \<not> ok then close_with none else
     db_bind (mysql_stmt_execute env q) k)))" (is "body_ok _ _ ?m")
    by (intro inv_intros assms)
  then have "body_ok 0 0 (db_bind stmt_opened (\<lambda>_. ?m))"
    by - (rule body_ok_bind_eq, rule body_ok_counts, simp)
  then show ?thesis
    unfolding run_statement_def
    by - (rule body_ok_bind0, rule body_ok_api, rule body_ok_if, rule body_ok_returns)
qed

section \<open>What every operation does to the pool\<close>

text \<open>
  \<open>took env c p p'\<close>: one borrow of the connection c. It comes back to the end of the queue; or the
  ping failed and either a new connection took its place or it is gone.
\<close>

definition can_connect :: "mysql_env \<Rightarrow> nat \<Rightarrow> bool" where
  "can_connect env k \<longleftrightarrow> call_ok env k Mysql_ping \<or>
     call_ok env (Suc k) Mysql_init \<and> call_ok env (Suc (Suc k)) Mysql_real_connect"

definition took :: "mysql_env \<Rightarrow> nat \<Rightarrow> pool \<Rightarrow> pool \<Rightarrow> bool" where
  "took env c p p' \<longleftrightarrow>
     (if call_ok env (db_clock p) Mysql_ping
      then idle_conns p' = tl (idle_conns p) @ [c] \<and> live_conns p' = live_conns p \<and>
           next_handle p' = next_handle p
      else if call_ok env (Suc (db_clock p)) Mysql_init \<and>
              call_ok env (Suc (Suc (db_clock p))) Mysql_real_connect
      then idle_conns p' = tl (idle_conns p) @ [next_handle p] \<and>
           live_conns p' = next_handle p # remove1 c (live_conns p) \<and>
           next_handle p' = Suc (next_handle p)
      else idle_conns p' = tl (idle_conns p) \<and> live_conns p' = remove1 c (live_conns p) \<and>
           next_handle p \<le> next_handle p')"

definition pool_op :: "mysql_env \<Rightarrow> 'a db \<Rightarrow> bool" where
  "pool_op env m \<longleftrightarrow> (\<forall>p r p'. m p = (r, p') \<longrightarrow>
     (if idle_conns p = [] then r = Blocks \<and> p' = p
      else r \<noteq> Blocks \<and>
        (\<not> can_connect env (db_clock p) \<longrightarrow> (\<exists>x. r = Done x) \<and>
           db_clock p' \<in> {db_clock p .. db_clock p + 3}) \<and>
        (\<forall>x. r = Done x \<longrightarrow> open_stmts p' = open_stmts p \<and> open_results p' = open_results p \<and>
           took env (hd (idle_conns p)) p p')))"

lemma get_connection_empty: "idle_conns p = [] \<Longrightarrow> get_connection env p = (Blocks, p)"
  by (simp add: get_connection_def)

lemma get_connection_cases:
  assumes "idle_conns p = c # cs"
  obtains (good) "call_ok env (db_clock p) Mysql_ping"
      "get_connection env p = (Done (Some c), p\<lparr>idle_conns := cs, db_clock := Suc (db_clock p)\<rparr>)"
  | (fresh) n where "\<not> call_ok env (db_clock p) Mysql_ping"
      "call_ok env (Suc (db_clock p)) Mysql_init" "call_ok env (Suc (Suc (db_clock p))) Mysql_real_connect"
      "get_connection env p = (Done (Some (next_handle p)),
         p\<lparr>idle_conns := cs, next_handle := Suc (next_handle p),
           live_conns := next_handle p # remove1 c (live_conns p), db_clock := n\<rparr>)"
  | (gone) n h where "\<not> call_ok env (db_clock p) Mysql_ping"
      "\<not> (call_ok env (Suc (db_clock p)) Mysql_init \<and> call_ok env (Suc (Suc (db_clock p))) Mysql_real_connect)"
      "get_connection env p = (Done None,
         p\<lparr>idle_conns := cs, next_handle := h, live_conns := remove1 c (live_conns p), db_clock := n\<rparr>)"
      "next_handle p \<le> h" "n \<in> {db_clock p .. db_clock p + 3}"
proof -
  note defs = get_connection_def create_connection_def db_bind_def api_def returns_def mysql_close_def
    Let_def
  show thesis
  proof (cases "call_ok env (db_clock p) Mysql_ping")
    case True
    then show thesis by (rule good) (simp add: defs True assms)
  next
    case ping: False
    show thesis
    proof (cases "call_ok env (Suc (db_clock p)) Mysql_init")
      case init: True
      show thesis
      proof (cases "call_ok env (Suc (Suc (db_clock p))) Mysql_real_connect")
        case True
        then show thesis
          by (rule fresh [OF ping init, of "Suc (Suc (Suc (db_clock p)))"]) (simp add: defs ping init True assms)
      next
        case False
        then show thesis
          by (intro gone [OF ping, of "Suc (Suc (Suc (db_clock p)))" "Suc (next_handle p)"])
            (simp_all add: defs ping init False assms)
      qed
    next
      case False
      then show thesis
        by (intro gone [OF ping, of "Suc (Suc (db_clock p))" "next_handle p"])
          (simp_all add: defs ping False assms)
    qed
  qed
qed

lemma with_connection_run:
  "with_connection env none body p =
     (case get_connection env p of
        (Done None, p1) \<Rightarrow> (Done none, p1)
      | (Done (Some c), p1) \<Rightarrow> (case body p1 of
            (Done x, p2) \<Rightarrow> (Done x, p2\<lparr>idle_conns := idle_conns p2 @ [c]\<rparr>)
          | (Blocks, p2) \<Rightarrow> (Blocks, p2)
          | (Overread, p2) \<Rightarrow> (Overread, p2))
      | (Blocks, p1) \<Rightarrow> (Blocks, p1)
      | (Overread, p1) \<Rightarrow> (Overread, p1))"
  by (auto simp: with_connection_def db_bind_def release_connection_def returns_def
      split: prod.splits outcome.splits option.splits)

lemma body_ok_doneD:
  "body_ok 0 0 m \<Longrightarrow> m p = (Done x, p') \<Longrightarrow>
     idle_conns p' = idle_conns p \<and> live_conns p' = live_conns p \<and> next_handle p' = next_handle p \<and>
     open_stmts p' = open_stmts p \<and> open_results p' = open_results p"
  by (simp add: body_ok_def)

lemma body_ok_no_block: "body_ok d e m \<Longrightarrow> m p \<noteq> (Blocks, p')"
  by (auto simp: body_ok_def)

lemma pool_op_with_connection [inv_intros]:
  assumes "body_ok 0 0 body" shows "pool_op env (with_connection env none body)"
  unfolding pool_op_def
proof (intro allI impI)
  fix p r p' assume run: "with_connection env none body p = (r, p')"
  let ?goal = "if idle_conns p = [] then r = Blocks \<and> p' = p else r \<noteq> Blocks \<and>
    (\<not> can_connect env (db_clock p) \<longrightarrow> (\<exists>x. r = Done x) \<and>
           db_clock p' \<in> {db_clock p .. db_clock p + 3}) \<and>
    (\<forall>x. r = Done x \<longrightarrow> open_stmts p' = open_stmts p \<and> open_results p' = open_results p \<and>
       took env (hd (idle_conns p)) p p')"
  show ?goal
  proof (cases "idle_conns p")
    case Nil
    then show ?thesis using run by (simp add: with_connection_run get_connection_empty)
  next
    case (Cons c cs)
    from Cons show ?thesis
    proof (cases rule: get_connection_cases [where env = env])
      case good
      then show ?thesis
        using run Cons
        by (auto simp: with_connection_run took_def can_connect_def body_ok_no_block [OF assms]
            dest!: body_ok_doneD [OF assms] split: prod.splits outcome.splits)
    next
      case (fresh n)
      then show ?thesis
        using run Cons
        by (auto simp: with_connection_run took_def can_connect_def body_ok_no_block [OF assms]
            dest!: body_ok_doneD [OF assms] split: prod.splits outcome.splits)
    next
      case (gone n h)
      then show ?thesis
        using run Cons by (auto simp: with_connection_run took_def can_connect_def)
    qed
  qed
qed

lemma pool_op_query [inv_intros]:
  "(\<And>rs. body_ok 0 0 (k rs)) \<Longrightarrow> pool_op env (query env q none k)"
  unfolding query_def by (intro inv_intros) auto

lemma pool_op_update [inv_intros]: "pool_op env (update env q)"
  unfolding update_def by (intro inv_intros)

lemma pool_op_fetch_user [inv_intros]: "pool_op env (fetch_user env q u)"
  unfolding fetch_user_def Let_def by (intro inv_intros)

text \<open>Every public method of the class, as a request; \<open>db_call\<close> runs it and drops its answer.\<close>

datatype db_request =
    Verify_user string string user
  | Register_user string string string string i32
  | Username_exists string
  | Get_security_question string string string
  | Reset_password string string
  | Update_password i32 string
  | Get_user_by_id i32 user
  | Get_user_by_name string user
  | Get_friends i32 "friend list"
  | Send_message i32 i32 string i32
  | Get_messages i32 i32 "chat_message list" i32
  | Add_user string string
  | Add_friend i32 i32
  | Delete_friend i32 i32

definition drop_answer :: "'a db \<Rightarrow> unit db" where
  "drop_answer m = db_bind m (\<lambda>_. returns ())"

fun db_call :: "mysql_env \<Rightarrow> db_request \<Rightarrow> unit db" where
  "db_call env (Verify_user n p u) = drop_answer (db_verify_user env n p u)"
| "db_call env (Register_user n p q a i) = drop_answer (db_register_user env n p q a i)"
| "db_call env (Username_exists n) = drop_answer (db_username_exists env n)"
| "db_call env (Get_security_question n q a) = drop_answer (db_get_security_question env n q a)"
| "db_call env (Reset_password n p) = drop_answer (db_reset_password env n p)"
| "db_call env (Update_password i p) = drop_answer (db_update_password env i p)"
| "db_call env (Get_user_by_id i u) = drop_answer (db_get_user_by_id env i u)"
| "db_call env (Get_user_by_name n u) = drop_answer (db_get_user_by_name env n u)"
| "db_call env (Get_friends i fs) = drop_answer (db_get_friends env i fs)"
| "db_call env (Send_message i j c m) = drop_answer (db_send_message env i j c m)"
| "db_call env (Get_messages i j ms l) = drop_answer (db_get_messages env i j ms l)"
| "db_call env (Add_user n p) = drop_answer (db_add_user env n p)"
| "db_call env (Add_friend i j) = drop_answer (db_add_friend env i j)"
| "db_call env (Delete_friend i j) = drop_answer (db_delete_friend env i j)"

primrec db_calls :: "mysql_env \<Rightarrow> db_request list \<Rightarrow> unit db" where
  "db_calls env [] = returns ()"
| "db_calls env (q # qs) = db_bind (db_call env q) (\<lambda>_. db_calls env qs)"

lemma pool_op_drop [inv_intros]:
  assumes "pool_op env m" shows "pool_op env (drop_answer m)"
proof -
  have "\<exists>r'. m p = (r', p') \<and> (r' = Blocks \<longleftrightarrow> r = Blocks) \<and> (\<exists>x. r' = Done x) = (r = Done ())"
    if "drop_answer m p = (r, p')" for p r p'
    using that by (auto simp: drop_answer_def db_bind_def returns_def split: prod.splits outcome.splits)
  then show ?thesis
    using assms unfolding pool_op_def by (smt (verit, ccfv_SIG) old.unit.exhaust)
qed

lemma pool_op_methods:
  "pool_op env (db_verify_user env n pw u)"
  "pool_op env (db_register_user env n pw qu an i)"
  "pool_op env (db_username_exists env n)"
  "pool_op env (db_get_security_question env n qu an)"
  "pool_op env (db_get_friends env i fs)"
  "pool_op env (db_send_message env i j c m)"
  "pool_op env (db_get_messages env i j ms l)"
  unfolding db_verify_user_def db_register_user_def db_username_exists_def
    db_get_security_question_def db_get_friends_def db_send_message_def db_get_messages_def
    read_friend_def read_message_def
  by (intro inv_intros)+

lemma pool_op_db_call: "pool_op env (db_call env q)"
proof (cases q)
qed (auto intro!: pool_op_drop pool_op_methods pool_op_update pool_op_fetch_user
  simp: db_reset_password_def db_update_password_def db_get_user_by_id_def db_get_user_by_name_def
    db_add_user_def db_add_friend_def db_delete_friend_def)

section \<open>The pool over a whole run\<close>

text \<open>Between two requests every live connection is in the queue, once, and nothing is left open.\<close>

definition pool_consistent :: "pool \<Rightarrow> bool" where
  "pool_consistent p \<longleftrightarrow>
     distinct (idle_conns p) \<and> distinct (live_conns p) \<and> set (idle_conns p) = set (live_conns p) \<and>
     (\<forall>c\<in>set (live_conns p). c < next_handle p) \<and> open_stmts p = 0 \<and> open_results p = 0"

lemma took_consistent:
  assumes "took env c p p'" and "idle_conns p = c # cs" and "pool_consistent p"
    and "open_stmts p' = open_stmts p" and "open_results p' = open_results p"
  shows "pool_consistent p'" and "length (idle_conns p') \<le> length (idle_conns p)"
  using assms by (auto simp: took_def pool_consistent_def split: if_splits)

lemma pool_op_consistent:
  assumes "pool_op env m" and "m p = (Done x, p')" and "pool_consistent p"
  shows "pool_consistent p'" and "length (idle_conns p') \<le> length (idle_conns p)"
proof -
  obtain c cs where "idle_conns p = c # cs"
    using assms(1,2) unfolding pool_op_def by (metis list.exhaust outcome.distinct(1))
  then have "took env c p p'" "open_stmts p' = open_stmts p" "open_results p' = open_results p"
    using assms(1,2) unfolding pool_op_def by (metis list.sel(1) list.distinct(1))+
  then show "pool_consistent p'" "length (idle_conns p') \<le> length (idle_conns p)"
    using took_consistent \<open>idle_conns p = c # cs\<close> assms(3) by blast+
qed

lemma db_calls_consistent:
  assumes "db_calls env qs p = (Done (), p')" and "pool_consistent p"
  shows "pool_consistent p' \<and> length (idle_conns p') \<le> length (idle_conns p)"
  using assms
proof (induction qs arbitrary: p)
  case Nil then show ?case by (simp add: returns_def)
next
  case (Cons q qs)
  obtain p1 where "db_call env q p = (Done (), p1)" "db_calls env qs p1 = (Done (), p')"
    using Cons.prems(1) by (auto simp: db_bind_done)
  then show ?case
    using pool_op_consistent [OF pool_op_db_call] Cons.IH Cons.prems(2) by (meson order_trans)
qed

lemma create_connection_cases:
  obtains n where "create_connection env p =
      (Done (Some (next_handle p)), p\<lparr>next_handle := Suc (next_handle p),
         live_conns := next_handle p # live_conns p, db_clock := n\<rparr>)"
  | n h where "create_connection env p = (Done None, p\<lparr>next_handle := h, db_clock := n\<rparr>)"
      "next_handle p \<le> h"
proof -
  note defs = create_connection_def db_bind_def api_def returns_def mysql_close_def Let_def
  show thesis
  proof (cases "call_ok env (db_clock p) Mysql_init \<and> call_ok env (Suc (db_clock p)) Mysql_real_connect")
    case True
    then show thesis by (intro that(1) [of "Suc (Suc (db_clock p))"]) (simp add: defs)
  next
    case no: False
    show thesis
    proof (cases "call_ok env (db_clock p) Mysql_init")
      case True
      with no show thesis
        by (intro that(2) [of "Suc (Suc (db_clock p))" "Suc (next_handle p)"]) (simp_all add: defs)
    next
      case False
      then show thesis by (intro that(2) [of "Suc (db_clock p)" "next_handle p"]) (simp_all add: defs)
    qed
  qed
qed

lemma fill_pool_consistent:
  assumes "pool_consistent p"
  shows "\<exists>p'. fill_pool env n p = (Done (), p') \<and> pool_consistent p' \<and>
     length (idle_conns p') \<le> length (idle_conns p) + n"
  using assms
proof (induction n arbitrary: p)
  case 0 then show ?case by (simp add: returns_def)
next
  case (Suc n)
  show ?case
  proof (cases rule: create_connection_cases [of env p])
    case (1 k)
    let ?p = "p\<lparr>next_handle := Suc (next_handle p), live_conns := next_handle p # live_conns p,
      db_clock := k, idle_conns := idle_conns p @ [next_handle p]\<rparr>"
    have "pool_consistent ?p"
      using Suc.prems by (auto simp: pool_consistent_def less_SucI)
    from Suc.IH [OF this] show ?thesis by (auto simp: db_bind_def 1)
  next
    case (2 k h)
    have "pool_consistent (p\<lparr>next_handle := h, db_clock := k\<rparr>)"
      using Suc.prems 2(2) by (auto simp: pool_consistent_def)
    from Suc.IH [OF this] show ?thesis by (auto simp: db_bind_def 2)
  qed
qed

lemma pool_op_done_took:
  assumes "pool_op env m" and "m p = (Done x, p')"
  shows "idle_conns p \<noteq> []" and "took env (hd (idle_conns p)) p p'"
  using assms unfolding pool_op_def by (metis outcome.distinct(1))+

lemma db_call_not_blocked: "idle_conns p \<noteq> [] \<Longrightarrow> fst (db_call env q p) \<noteq> Blocks"
  using pool_op_db_call [of env q] unfolding pool_op_def by (metis prod.collapse)

lemma db_call_blocked: "idle_conns p = [] \<Longrightarrow> db_call env q p = (Blocks, p)"
  using pool_op_db_call [of env q] unfolding pool_op_def by (metis prod.collapse)

lemma pings_rotate:
  assumes "\<And>k. call_ok env k Mysql_ping" and "db_calls env qs p = (Done (), p')"
  shows "idle_conns p' = rotate (length qs) (idle_conns p) \<and> live_conns p' = live_conns p"
  using assms(2)
proof (induction qs arbitrary: p)
  case Nil then show ?case by (simp add: returns_def)
next
  case (Cons q qs)
  obtain p1 where q: "db_call env q p = (Done (), p1)" and "db_calls env qs p1 = (Done (), p')"
    using Cons.prems by (auto simp: db_bind_done)
  then have "idle_conns p' = rotate (length qs) (idle_conns p1) \<and> live_conns p' = live_conns p1"
    using Cons.IH by blast
  moreover have "idle_conns p1 = rotate1 (idle_conns p) \<and> live_conns p1 = live_conns p"
    using pool_op_done_took [OF pool_op_db_call q] assms(1)
    by (cases "idle_conns p") (auto simp: took_def)
  ultimately show ?case by (simp add: rotate1_rotate_swap)
qed

lemma down_call:
  assumes "idle_conns p = c # cs" and "\<not> can_connect env (db_clock p)"
  obtains p' where "db_call env q p = (Done (), p')" "idle_conns p' = cs"
    "db_clock p' \<in> {db_clock p .. db_clock p + 3}"
proof -
  obtain r p' where q: "db_call env q p = (r, p')" by (cases "db_call env q p")
  then have "\<exists>x. r = Done x" and clock: "db_clock p' \<in> {db_clock p .. db_clock p + 3}"
    using pool_op_db_call [of env q] assms unfolding pool_op_def by (metis list.distinct(1))+
  then have r: "r = Done ()" by auto
  have "took env c p p'"
    using pool_op_done_took(2) [OF pool_op_db_call q [unfolded r]] assms(1) by simp
  then have "idle_conns p' = cs"
    using assms by (auto simp: took_def can_connect_def)
  then show thesis using that q r clock by blast
qed

lemma down_calls_empty_pool:
  assumes "\<And>k. db_clock p \<le> k \<Longrightarrow> k < db_clock p + 3 * length qs \<Longrightarrow> \<not> can_connect env k"
    and "length (idle_conns p) = length qs"
  shows "\<exists>p'. db_calls env qs p = (Done (), p') \<and> idle_conns p' = []"
  using assms
proof (induction qs arbitrary: p)
  case Nil then show ?case by (simp add: returns_def)
next
  case (Cons q qs)
  obtain c cs where cs: "idle_conns p = c # cs" "length cs = length qs"
    using Cons.prems(2) by (cases "idle_conns p") auto
  have "\<not> can_connect env (db_clock p)" using Cons.prems(1) by simp
  then obtain p1 where p1: "db_call env q p = (Done (), p1)" "idle_conns p1 = cs"
      "db_clock p1 \<in> {db_clock p .. db_clock p + 3}"
    using down_call cs(1) by metis
  have "\<exists>p'. db_calls env qs p1 = (Done (), p') \<and> idle_conns p' = []"
    by (rule Cons.IH) (use Cons.prems(1) p1 cs in auto)
  then show ?case using p1(1) by (auto simp: db_bind_def)
qed

section \<open>What the library is documented to do\<close>

text \<open>
  Hypotheses of the theorems about answers. \<open>store_text\<close>: a string column is copied into its
  buffer up to the announced length, a final NUL is added when there is room for one within that
  length, and a longer value is reported as truncated. \<open>follows_schema\<close>: statements mean what the
  schema says, and a \<open>SELECT\<close> without \<open>ORDER BY\<close> returns each matching row once, in any order.
  \<open>healthy_env\<close> is one instance of all of them, used for concrete runs.
\<close>

definition store_text :: "nat \<Rightarrow> string \<Rightarrow> string \<Rightarrow> bool \<times> string" where
  "store_text n s old =
     (let new = take n s @ (if length s < n then [CHR 0x00] else [])
      in (length s \<le> n, new @ drop (length new) old))"

definition follows_schema :: "sql_rules \<Rightarrow> mysql_env \<Rightarrow> bool" where
  "follows_schema ru env \<longleftrightarrow> (\<forall>now q t. service env now q t =
     (case sql_run ru now q t of None \<Rightarrow> (None, t) | Some (rs, i, t') \<Rightarrow> (Some (rs, i), t'))) \<and>
     (\<forall>now fs. mset (scan_order ru now fs) = mset fs)"

definition library_works :: "mysql_env \<Rightarrow> bool" where
  "library_works env \<longleftrightarrow> (\<forall>k c. call_ok env k c) \<and> fetch_text env = store_text"

definition plain_rules :: sql_rules where
  "plain_rules = \<lparr>coll_key = (\<lambda>s. s), fits_varchar = (\<lambda>n s. length s \<le> n),
     fits_text = (\<lambda>s. length s < 65536), current_time = (\<lambda>_. ''2025-01-01 00:00:00''),
     newest_first = rev, scan_order = (\<lambda>_ fs. fs)\<rparr>"

definition healthy_env :: mysql_env where
  "healthy_env = \<lparr>call_ok = (\<lambda>_ _. True),
     service = (\<lambda>now q t. case sql_run plain_rules now q t of
        None \<Rightarrow> (None, t) | Some (rs, i, t') \<Rightarrow> (Some (rs, i), t')),
     fetch_text = store_text, digest = (\<lambda>bs. take 32 (bs @ replicate 32 0)),
     stack_junk = (\<lambda>_. CHR 0x00)\<rparr>"

definition failing_env :: mysql_env where
  "failing_env = healthy_env\<lparr>call_ok := \<lambda>_ _. False\<rparr>"

definition no_tables :: tables where
  "no_tables = \<lparr>users = [], friends = [], messages = [], next_user_id = 1, next_friend_row = 1,
     next_msg_id = 1\<rparr>"

lemma healthy_env_follows: "follows_schema plain_rules healthy_env" "library_works healthy_env"
  by (simp_all add: follows_schema_def library_works_def healthy_env_def) (simp add: plain_rules_def)

text \<open>The equations that run an operation on a concrete state.\<close>

lemmas run_defs = db_bind_def api_def returns_def lift_outcome_def stmt_opened_def mysql_stmt_close_def
  result_opened_def mysql_free_result_def mysql_close_def create_connection_def get_connection_def
  release_connection_def with_connection_def close_with_def mysql_stmt_execute_def run_statement_def
  with_result_def query_def update_def stack_array_def stack_int_def mysql_stmt_fetch_def c_string_def
  read_text_def drop_answer_def store_text_def Let_def

lemmas healthy_defs = healthy_env_def plain_rules_def no_tables_def rows_def users_named_def
  users_with_id_def same_text_def

section \<open>Properties of the pool\<close>

text \<open>
  C15. The pool is conserved. Whatever the library answers, building the pool always ends, with at
  most \<open>pool_size\<close> connections; and after any sequence of requests that returned, every live
  connection is in the queue exactly once, no connection leaked, every statement and every result
  that was opened was closed exactly once, and the pool never grew.
\<close>

theorem pool_is_conserved:
  "\<exists>p0. database_pool env t pool_size = (Done (), p0) \<and> pool_consistent p0 \<and>
     length (idle_conns p0) \<le> nat pool_size \<and>
     (\<forall>qs p. db_calls env qs p0 = (Done (), p) \<longrightarrow>
        pool_consistent p \<and> length (idle_conns p) \<le> length (idle_conns p0))"
proof -
  have "pool_consistent (new_pool t)" by (simp add: pool_consistent_def new_pool_def)
  from fill_pool_consistent [OF this, of env "nat pool_size"] obtain p0 where
    "database_pool env t pool_size = (Done (), p0)" "pool_consistent p0"
    "length (idle_conns p0) \<le> nat pool_size"
    by (auto simp: database_pool_def new_pool_def)
  then show ?thesis using db_calls_consistent by blast
qed

theorem pool_is_conserved_witness:
  "\<exists>p0. database_pool healthy_env no_tables 2 = (Done (), p0) \<and>
     (\<forall>p. db_calls healthy_env [Username_exists ''bob''] p0 = (Done (), p) \<longrightarrow> pool_consistent p)
     \<and> db_calls healthy_env [Username_exists ''bob''] p0
         = (Done (), p0\<lparr>idle_conns := [1, 0], db_clock := 10\<rparr>)"
proof -
  obtain p0 where p0: "database_pool healthy_env no_tables 2 = (Done (), p0)"
    and all: "\<forall>p. db_calls healthy_env [Username_exists ''bob''] p0 = (Done (), p) \<longrightarrow> pool_consistent p"
    using pool_is_conserved [of healthy_env no_tables 2] by blast
  have "p0 = \<lparr>idle_conns = [0, 1], next_handle = 2, live_conns = [1, 0], open_stmts = 0,
      open_results = 0, db_clock = 4, db_tables = no_tables\<rparr>"
    using p0 by (auto simp add: database_pool_def new_pool_def create_connection_def db_bind_def api_def
        healthy_env_def returns_def numeral_2_eq_2 Let_def)
  then have "db_calls healthy_env [Username_exists ''bob''] p0
         = (Done (), p0\<lparr>idle_conns := [1, 0], db_clock := 10\<rparr>)"
    by (simp add: db_username_exists_def run_defs healthy_defs)
  then show ?thesis using p0 all by blast
qed

text \<open>
  While the server can be pinged, requests take turns: after n requests that returned, the queue
  of idle connections is the old one rotated n times and no connection was opened or closed.
\<close>

theorem requests_take_turns:
  assumes "\<And>k. call_ok env k Mysql_ping" and "db_calls env qs p = (Done (), p')"
  shows "idle_conns p' = rotate (length qs) (idle_conns p) \<and> live_conns p' = live_conns p"
  using pings_rotate assms by blast

theorem requests_take_turns_witness:
  "\<exists>p p'. idle_conns p = [4, 7, 5] \<and>
     db_calls healthy_env [Username_exists ''bob'', Delete_friend 1 2] p = (Done (), p') \<and>
     idle_conns p' = [5, 4, 7]"
proof -
  let ?p = "\<lparr>idle_conns = [4, 7, 5], next_handle = 9, live_conns = [4, 5, 7], open_stmts = 0,
      open_results = 0, db_clock = 4, db_tables = no_tables\<rparr>"
  let ?qs = "[Username_exists ''bob'', Delete_friend 1 2]"
  have "fst (db_calls healthy_env ?qs ?p) = Done ()"
    by (simp add: db_username_exists_def db_delete_friend_def run_defs healthy_defs)
  then obtain p' where p': "db_calls healthy_env ?qs ?p = (Done (), p')"
    by (cases "db_calls healthy_env ?qs ?p") simp
  have "call_ok healthy_env k Mysql_ping" for k by (simp add: healthy_env_def)
  from requests_take_turns [OF this p'] have "idle_conns p' = [5, 4, 7]"
    by (simp add: numeral_2_eq_2)
  with p' show ?thesis by (intro exI [of _ ?p] exI [of _ p']) simp
qed

text \<open>
  C31. A failed reconnect loses the connection for good: when the database cannot be pinged and not
  reconnected to during as many requests as there are idle connections, those requests report
  failure and the pool is empty, so every later request waits for ever, even when the database is
  back.
\<close>

theorem outage_empties_pool:
  assumes "\<And>k. db_clock p \<le> k \<Longrightarrow> k < db_clock p + 3 * length qs \<Longrightarrow> \<not> can_connect env k"
    and "length (idle_conns p) = length qs"
  shows "\<exists>p'. db_calls env qs p = (Done (), p') \<and> idle_conns p' = [] \<and>
     (\<forall>env' q. db_call env' q p' = (Blocks, p'))"
  using down_calls_empty_pool [OF assms] db_call_blocked by blast

theorem outage_empties_pool_witness:
  "\<exists>p'. db_calls failing_env [Add_friend 1 2]
       ((new_pool no_tables)\<lparr>idle_conns := [0], live_conns := [0], next_handle := 1\<rparr>) = (Done (), p') \<and>
     idle_conns p' = [] \<and> (\<forall>env' q. db_call env' q p' = (Blocks, p'))"
  by (rule outage_empties_pool) (simp_all add: can_connect_def failing_env_def)

end
