(* ===== verification/Account_Store.thy ===== *)
theory Account_Store
  imports Database_Pool
begin

text \<open>
  What the account methods of \<open>DatabasePool\<close> amount to when the database answers: a map from user
  names (under the key of the collation) to password hashes. The locale \<open>account_store\<close> is that
  contract, its lemmas are about any sequence of registrations and password changes, and it is
  interpreted on the methods of Database_Pool.
\<close>

section \<open>Accounts as a map\<close>

datatype account_change = Registered string string string string | Changed string string

text \<open>
  A run of changes, given how a registration and a password change are carried out, and the map
  each change is meant to leave: a registration that succeeded adds its entry, a password change
  alters the entry of an account that exists.
\<close>

fun apply_change ::
  "(string \<Rightarrow> string \<Rightarrow> string \<Rightarrow> string \<Rightarrow> 's \<Rightarrow> bool \<times> 's) \<Rightarrow> (string \<Rightarrow> string \<Rightarrow> 's \<Rightarrow> bool \<times> 's) \<Rightarrow>
     account_change \<Rightarrow> 's \<Rightarrow> bool \<times> 's"
where
  "apply_change register change (Registered n h q a) s = register n h q a s"
| "apply_change register change (Changed n h) s = change n h s"

fun apply_changes ::
  "(string \<Rightarrow> string \<Rightarrow> string \<Rightarrow> string \<Rightarrow> 's \<Rightarrow> bool \<times> 's) \<Rightarrow> (string \<Rightarrow> string \<Rightarrow> 's \<Rightarrow> bool \<times> 's) \<Rightarrow>
     account_change list \<Rightarrow> 's \<Rightarrow> bool list \<times> 's"
where
  "apply_changes register change [] s = ([], s)"
| "apply_changes register change (c # cs) s =
     (let (b, s1) = apply_change register change c s;
          (bs, s2) = apply_changes register change cs s1
      in (b # bs, s2))"

fun good_change :: "(string \<Rightarrow> bool) \<Rightarrow> (string \<Rightarrow> bool) \<Rightarrow> account_change \<Rightarrow> bool" where
  "good_change good_name good_text (Registered n h q a) \<longleftrightarrow>
     good_name n \<and> good_text h \<and> good_text q \<and> good_text a"
| "good_change good_name good_text (Changed n h) \<longleftrightarrow> good_text h"

fun change_map :: "(string \<Rightarrow> 'k) \<Rightarrow> account_change \<Rightarrow> bool \<Rightarrow> ('k \<Rightarrow> string option) \<Rightarrow> 'k \<Rightarrow> string option" where
  "change_map key (Registered n h q a) b m = (if b then m(key n \<mapsto> h) else m)"
| "change_map key (Changed n h) b m = (if m (key n) = None then m else m(key n \<mapsto> h))"

lemma change_map_keeps: "m k \<noteq> None \<Longrightarrow> change_map key c b m k \<noteq> None"
  by (cases c) auto

locale account_store =
  fixes valid :: "'s \<Rightarrow> bool"
    and key :: "string \<Rightarrow> 'k"
    and hash_of :: "'s \<Rightarrow> 'k \<Rightarrow> string option"
    and good_name :: "string \<Rightarrow> bool"
    and good_text :: "string \<Rightarrow> bool"
    and register :: "string \<Rightarrow> string \<Rightarrow> string \<Rightarrow> string \<Rightarrow> 's \<Rightarrow> bool \<times> 's"
    and change :: "string \<Rightarrow> string \<Rightarrow> 's \<Rightarrow> bool \<times> 's"
  assumes register_valid:
      "valid s \<Longrightarrow> good_name n \<Longrightarrow> good_text h \<Longrightarrow> good_text q \<Longrightarrow> good_text a \<Longrightarrow> valid (snd (register n h q a s))"
    and register_hash:
      "valid s \<Longrightarrow> good_name n \<Longrightarrow> good_text h \<Longrightarrow> good_text q \<Longrightarrow> good_text a \<Longrightarrow> register n h q a s = (b, s') \<Longrightarrow>
         hash_of s' = (if b then (hash_of s)(key n \<mapsto> h) else hash_of s)"
    and register_fresh:
      "valid s \<Longrightarrow> good_name n \<Longrightarrow> good_text h \<Longrightarrow> good_text q \<Longrightarrow> good_text a \<Longrightarrow> register n h q a s = (True, s') \<Longrightarrow>
         hash_of s (key n) = None"
    and change_valid: "valid s \<Longrightarrow> good_text h \<Longrightarrow> valid (snd (change n h s))"
    and change_hash:
      "valid s \<Longrightarrow> good_text h \<Longrightarrow> change n h s = (b, s') \<Longrightarrow>
         b \<and> hash_of s' =
           (if hash_of s (key n) = None then hash_of s else (hash_of s)(key n \<mapsto> h))"
begin

lemma apply_change_step:
  assumes "valid s" and "good_change good_name good_text c" and "apply_change register change c s = (b, s')"
  shows "valid s'" and "hash_of s' = change_map key c b (hash_of s)"
proof -
  have "valid s' \<and> hash_of s' = change_map key c b (hash_of s)"
  proof (cases c)
    case (Registered n h q a)
    with assms show ?thesis
      using register_valid [of s n h q a] register_hash [of s n h q a b s'] by simp
  next
    case (Changed n h)
    with assms show ?thesis
      using change_valid [of s h n] change_hash [of s h n b s'] by simp
  qed
  then show "valid s'" "hash_of s' = change_map key c b (hash_of s)" by auto
qed

lemma apply_changes_map:
  assumes "valid s" and "\<forall>c\<in>set cs. good_change good_name good_text c" and "apply_changes register change cs s = (bs, s')"
  shows "valid s' \<and> length bs = length cs \<and>
    hash_of s' = fold (\<lambda>(c, b). change_map key c b) (zip cs bs) (hash_of s)"
  using assms
proof (induction cs arbitrary: s bs)
  case (Cons c cs)
  obtain b s1 bs1 where c: "apply_change register change c s = (b, s1)" "apply_changes register change cs s1 = (bs1, s')"
    and bs: "bs = b # bs1"
    using Cons.prems(3) by (auto simp: Let_def split: prod.splits)
  show ?case
    using Cons.IH [OF _ _ c(2)] apply_change_step [OF Cons.prems(1) _ c(1)] Cons.prems(2) bs by simp
qed simp

text \<open>An account that exists never disappears, and nobody but a change of its own password alters it.\<close>

lemma hash_stays:
  assumes "valid s" and "\<forall>c\<in>set cs. good_change good_name good_text c" and "apply_changes register change cs s = (bs, s')"
    and "hash_of s k = Some h" and "\<forall>n h. Changed n h \<in> set cs \<longrightarrow> key n \<noteq> k"
  shows "hash_of s' k = Some h"
  using assms
proof (induction cs arbitrary: s bs)
  case (Cons c cs)
  obtain b s1 bs1 where c: "apply_change register change c s = (b, s1)" "apply_changes register change cs s1 = (bs1, s')"
    using Cons.prems(3) by (auto simp: Let_def split: prod.splits)
  note st = apply_change_step [OF Cons.prems(1) _ c(1)]
  have "hash_of s1 k = Some h"
  proof (cases c)
    case (Registered n h' q a)
    then have "b \<Longrightarrow> hash_of s (key n) = None"
      using register_fresh [of s n h' q a s1] Cons.prems(1,2) c(1) by auto
    then show ?thesis
      using st(2) Cons.prems(2,4) Registered by auto
  next
    case (Changed n h')
    then show ?thesis using st(2) Cons.prems(2,4,5) by auto
  qed
  then show ?case using Cons.IH [OF st(1) _ c(2)] Cons.prems(2,5) by auto
qed simp

end

section \<open>The methods when the library works\<close>

text \<open>The pool after a request that took n library calls and left the tables t.\<close>

definition after_call :: "pool \<Rightarrow> nat \<Rightarrow> tables \<Rightarrow> pool" where
  "after_call p n t = p\<lparr>idle_conns := rotate1 (idle_conns p), db_clock := db_clock p + n, db_tables := t\<rparr>"

definition on_connection :: "pool \<Rightarrow> nat \<Rightarrow> tables \<Rightarrow> pool" where
  "on_connection p n t = p\<lparr>idle_conns := tl (idle_conns p), open_stmts := open_stmts p + 1,
     db_tables := t, db_clock := db_clock p + n, open_results := open_results p + 1\<rparr>"

lemma after_call_sel [simp]:
  "db_tables (after_call p n t) = t"
  "idle_conns (after_call p n t) = [] \<longleftrightarrow> idle_conns p = []"
  by (simp_all add: after_call_def)

definition run_sql :: "sql_rules \<Rightarrow> sql \<Rightarrow> pool \<Rightarrow> (column list list \<times> nat) option \<times> tables" where
  "run_sql ru q p = (case sql_run ru (db_clock p + 4) q (db_tables p) of
     None \<Rightarrow> (None, db_tables p) | Some (rs, i, t) \<Rightarrow> (Some (rs, i), t))"

lemma run_sql_service:
  assumes "follows_schema ru env" and "run_sql ru q p = (r, t)"
  shows "service env (Suc (Suc (Suc (Suc (db_clock p))))) q (db_tables p) = (r, t)"
  using assms by (simp add: follows_schema_def run_sql_def eval_nat_numeral)

lemma update_runs:
  assumes "library_works env" and "follows_schema ru env" and "idle_conns p \<noteq> []"
    and "run_sql ru q p = (r, t)"
  shows "update env q p = (Done (r \<noteq> None), after_call p 5 t)"
  using assms(1,3-) run_sql_service [OF assms(2,4)] by (cases "idle_conns p")
    (simp_all add: run_defs library_works_def after_call_def on_connection_def eval_nat_numeral
      split: prod.splits option.splits)

lemma insert_runs:
  assumes "library_works env" and "follows_schema ru env" and "idle_conns p \<noteq> []"
    and "run_sql ru q p = (r, t)"
  shows "with_connection env none (run_statement env q none
      (\<lambda>r. case r of None \<Rightarrow> close_with none | Some (_, i) \<Rightarrow> close_with (f i))) p
    = (Done (case r of None \<Rightarrow> none | Some (_, i) \<Rightarrow> f i), after_call p 5 t)"
  using assms(1,3-) run_sql_service [OF assms(2,4)] by (cases "idle_conns p")
    (simp_all add: run_defs library_works_def after_call_def on_connection_def eval_nat_numeral
      split: prod.splits option.splits)

lemma query_runs:
  assumes "library_works env" and "follows_schema ru env" and "idle_conns p \<noteq> []"
    and "run_sql ru q p = (Some (rs, i), t)"
    and "k rs (on_connection p 6 t) = (Done x, on_connection p n t)"
  shows "query env q none k p = (Done x, after_call p n t)"
  using assms(1,3-) run_sql_service [OF assms(2,4)] by (cases "idle_conns p")
    (simp_all add: run_defs library_works_def after_call_def on_connection_def eval_nat_numeral
      split: prod.splits option.splits)

lemma query_refused:
  assumes "library_works env" and "follows_schema ru env" and "idle_conns p \<noteq> []"
    and "run_sql ru q p = (None, t)"
  shows "query env q none k p = (Done none, after_call p 5 t)"
  using assms(1,3-) run_sql_service [OF assms(2,4)] by (cases "idle_conns p")
    (simp_all add: run_defs library_works_def after_call_def on_connection_def eval_nat_numeral
      split: prod.splits option.splits)

section \<open>Buffers\<close>

text \<open>A text that comes back whole from a buffer of length n: shorter than n and without a NUL.\<close>

definition plain_text :: "nat \<Rightarrow> string \<Rightarrow> bool" where
  "plain_text n s \<longleftrightarrow> length s < n \<and> CHR 0x00 \<notin> set s"

lemma store_text_plain:
  assumes "plain_text n s"
  shows "store_text n s old = (True, s @ CHR 0x00 # drop (Suc (length s)) old)"
  using assms by (simp add: store_text_def plain_text_def Let_def)

lemma c_string_plain: "CHR 0x00 \<notin> set s \<Longrightarrow> c_string (s @ CHR 0x00 # rest) = Done s"
  by (auto simp: c_string_def takeWhile_append)

lemma mysql_stmt_fetch_row:
  assumes "library_works env" and "map2 (fetch_column env) r bufs = cols"
  shows "mysql_stmt_fetch env (r # rs) bufs p
     = (Done (list_all fst cols, map snd cols), p\<lparr>db_clock := Suc (db_clock p)\<rparr>)"
  using assms by (simp add: mysql_stmt_fetch_def library_works_def run_defs)

lemma mysql_stmt_fetch_end:
  "mysql_stmt_fetch env [] bufs p = (Done (False, bufs), p\<lparr>db_clock := Suc (db_clock p)\<rparr>)"
  by (simp add: mysql_stmt_fetch_def run_defs)

lemma fetch_plain:
  assumes "library_works env" and "plain_text n s"
  shows "fetch_column env (Text_column s) (Text_buffer n old)
     = (True, Text_buffer n (s @ CHR 0x00 # drop (Suc (length s)) old))"
  using assms by (simp add: library_works_def store_text_plain)

lemma read_plain:
  assumes "bufs ! i = Text_buffer n (s @ CHR 0x00 # rest)" and "CHR 0x00 \<notin> set s"
  shows "read_text bufs i p = (Done s, p)"
  using assms by (simp add: read_text_def lift_outcome_def c_string_plain)

section \<open>Users by name\<close>

lemma users_named_cases:
  assumes "schema_ok ru t"
  obtains "users_named ru t n = []" | u where "users_named ru t n = [u]" "u \<in> set (users t)"
    "same_text ru (ur_username u) n"
proof -
  have d: "distinct (map (\<lambda>u. coll_key ru (ur_username u)) (users_named ru t n))"
    using assms by (auto simp: schema_ok_def users_named_def intro: distinct_map_filter dest: users_okD(1))
  show thesis
  proof (cases "users_named ru t n")
    case (Cons u us)
    have in_named: "v \<in> set (users_named ru t n) \<longleftrightarrow> v \<in> set (users t) \<and> same_text ru (ur_username v) n" for v
      by (auto simp: users_named_def)
    have "same_text ru (ur_username u) n" "\<forall>v\<in>set us. same_text ru (ur_username v) n"
      and mem: "u \<in> set (users t)"
      using in_named unfolding Cons by auto
    moreover have "us = []"
    proof (rule ccontr)
      assume "us \<noteq> []"
      then obtain v where "v \<in> set us" by (cases us) auto
      then show False using d Cons calculation by (force simp: same_text_def)
    qed
    ultimately show thesis using that(2) Cons by blast
  qed (rule that(1))
qed

section \<open>Answers of the account methods\<close>

definition account_of :: "sql_rules \<Rightarrow> tables \<Rightarrow> string \<Rightarrow> user_row option" where
  "account_of ru t n = (case users_named ru t n of [] \<Rightarrow> None | u # _ \<Rightarrow> Some u)"

definition plain_user :: "user_row \<Rightarrow> bool" where
  "plain_user u \<longleftrightarrow> plain_text 64 (ur_username u) \<and> plain_text 256 (ur_password_hash u) \<and>
     plain_text 256 (ur_security_question u) \<and> plain_text 256 (ur_security_answer u)"

definition account_ready :: "sql_rules \<Rightarrow> mysql_env \<Rightarrow> pool \<Rightarrow> bool" where
  "account_ready ru env p \<longleftrightarrow> library_works env \<and> follows_schema ru env \<and> idle_conns p \<noteq> [] \<and>
     schema_ok ru (db_tables p) \<and> (\<forall>u\<in>set (users (db_tables p)). plain_user u)"

lemma on_connection_tick [simp]:
  "(on_connection p n t)\<lparr>db_clock := Suc (db_clock (on_connection p n t))\<rparr> = on_connection p (Suc n) t"
  by (simp add: on_connection_def)

lemma account_of_cases:
  assumes "account_ready ru env p"
  obtains "users_named ru (db_tables p) n = []" "account_of ru (db_tables p) n = None"
  | u where "users_named ru (db_tables p) n = [u]" "account_of ru (db_tables p) n = Some u"
      "u \<in> set (users (db_tables p))" "plain_user u" "0 < ur_user_id u" "ur_user_id u \<le> int_max"
proof -
  have ok: "schema_ok ru (db_tables p)" using assms by (simp add: account_ready_def)
  show thesis
    by (rule users_named_cases [OF ok, of n])
      (use assms ok that in \<open>auto simp: account_of_def account_ready_def schema_ok_def dest: users_okD(3)\<close>)
qed

lemma fetch_id:
  "i \<le> int_max \<Longrightarrow> fetch_column env (Int_column (int i)) (Int_buffer v) = (True, Int_buffer (word_of_nat i))"
  by (simp add: int_max_def)

lemma verify_runs:
  assumes "account_ready ru env p"
  shows "db_verify_user env n pw user p =
    (Done (case account_of ru (db_tables p) n of
       None \<Rightarrow> (False, user)
     | Some u \<Rightarrow> if ur_password_hash u = sha256 env pw
         then (True, user\<lparr>u_user_id := user_id_of u, u_username := ur_username u,
                u_password_hash := ur_password_hash u\<rparr>)
         else (False, user)), after_call p 7 (db_tables p))"
proof -
  have lib: "library_works env" "follows_schema ru env" "idle_conns p \<noteq> []"
    using assms by (simp_all add: account_ready_def)
  have q: "run_sql ru (Select_login n) p = (Some (map (\<lambda>u. [Int_column (int (ur_user_id u)),
      Text_column (ur_username u), Text_column (ur_password_hash u)])
      (users_named ru (db_tables p) n), 0), db_tables p)"
    by (simp add: run_sql_def rows_def)
  show ?thesis
    unfolding db_verify_user_def
  proof (rule query_runs [OF lib q])
    show "db_bind (mysql_stmt_fetch env (map (\<lambda>u. [Int_column (int (ur_user_id u)),
        Text_column (ur_username u), Text_column (ur_password_hash u)]) (users_named ru (db_tables p) n))
      [Int_buffer (stack_int env), Text_buffer 64 (stack_array env 65),
       Text_buffer 256 (stack_array env 257)])
     (\<lambda>(ok, bufs). if \<not> ok then returns (False, user) else db_bind (read_text bufs 2) (\<lambda>stored_hash.
        if stored_hash = sha256 env pw then db_bind (read_text bufs 1) (\<lambda>name.
          returns (True, user\<lparr>u_user_id := int_at bufs 0, u_username := name,
            u_password_hash := stored_hash\<rparr>)) else returns (False, user)))
     (on_connection p 6 (db_tables p)) =
     (Done (case account_of ru (db_tables p) n of None \<Rightarrow> (False, user)
       | Some u \<Rightarrow> if ur_password_hash u = sha256 env pw then (True, user\<lparr>u_user_id := user_id_of u,
           u_username := ur_username u, u_password_hash := ur_password_hash u\<rparr>) else (False, user)),
      on_connection p 7 (db_tables p))"
    proof (cases rule: account_of_cases [OF assms, of n])
      case 1
      then show ?thesis
        by (simp add: db_bind_def mysql_stmt_fetch_end returns_def)
    next
      case (2 u)
      then show ?thesis
        using lib(1) unfolding plain_user_def
        by (simp add: db_bind_def mysql_stmt_fetch_row fetch_id fetch_plain returns_def user_id_of_def
            read_plain [of _ _ 256 "ur_password_hash u"] read_plain [of _ _ 64 "ur_username u"]
            plain_text_def del: fetch_column.simps)
    qed
  qed
qed

lemma username_exists_runs:
  assumes "account_ready ru env p"
  shows "db_username_exists env n p =
    (Done (account_of ru (db_tables p) n \<noteq> None), after_call p 6 (db_tables p))"
proof -
  have lib: "library_works env" "follows_schema ru env" "idle_conns p \<noteq> []"
    using assms by (simp_all add: account_ready_def)
  have "run_sql ru (Select_count n) p
      = (Some ([[Int_column (int (length (users_named ru (db_tables p) n)))]], 0), db_tables p)"
    by (simp add: run_sql_def rows_def)
  note srv = run_sql_service [OF lib(2) this]
  show ?thesis
    using lib(1,3) srv
    by (cases rule: account_of_cases [OF assms, of n]; cases "idle_conns p")
      (simp_all add: db_username_exists_def run_defs library_works_def after_call_def eval_nat_numeral)
qed

lemma security_question_runs:
  assumes "account_ready ru env p"
  shows "db_get_security_question env n qu an p =
    (Done (case account_of ru (db_tables p) n of
       None \<Rightarrow> (False, qu, an) | Some u \<Rightarrow> (True, ur_security_question u, ur_security_answer u)),
     after_call p 7 (db_tables p))"
proof -
  have lib: "library_works env" "follows_schema ru env" "idle_conns p \<noteq> []"
    using assms by (simp_all add: account_ready_def)
  have q: "run_sql ru (Select_security n) p = (Some (map (\<lambda>u. [Text_column (ur_security_question u),
      Text_column (ur_security_answer u)]) (users_named ru (db_tables p) n), 0), db_tables p)"
    by (simp add: run_sql_def rows_def)
  show ?thesis
    unfolding db_get_security_question_def
  proof (rule query_runs [OF lib q])
    show "db_bind (mysql_stmt_fetch env (map (\<lambda>u. [Text_column (ur_security_question u),
        Text_column (ur_security_answer u)]) (users_named ru (db_tables p) n))
      [Text_buffer 256 (stack_array env 257), Text_buffer 256 (stack_array env 257)])
     (\<lambda>(ok, bufs). if ok then db_bind (read_text bufs 0) (\<lambda>q. db_bind (read_text bufs 1) (\<lambda>a.
        returns (True, q, a))) else returns (False, qu, an)) (on_connection p 6 (db_tables p)) =
     (Done (case account_of ru (db_tables p) n of None \<Rightarrow> (False, qu, an)
       | Some u \<Rightarrow> (True, ur_security_question u, ur_security_answer u)),
      on_connection p 7 (db_tables p))"
    proof (cases rule: account_of_cases [OF assms, of n])
      case 1
      then show ?thesis
        by (simp add: db_bind_def mysql_stmt_fetch_end returns_def)
    next
      case (2 u)
      then show ?thesis
        using lib(1) unfolding plain_user_def
        by (simp add: db_bind_def mysql_stmt_fetch_row fetch_plain returns_def
            read_plain [of _ _ 256 "ur_security_question u"] read_plain [of _ _ 256 "ur_security_answer u"]
            plain_text_def del: fetch_column.simps)
    qed
  qed
qed

lemma register_runs:
  assumes "account_ready ru env p"
  shows "db_register_user env n h q a i p =
    (case insert_user ru n h q a (db_tables p) of
       None \<Rightarrow> (Done (False, i), after_call p 5 (db_tables p))
     | Some (_, k, t) \<Rightarrow> (Done (True, word_of_nat k), after_call p 5 t))"
proof -
  have lib: "library_works env" "follows_schema ru env" "idle_conns p \<noteq> []"
    using assms by (simp_all add: account_ready_def)
  show ?thesis
  proof (cases "insert_user ru n h q a (db_tables p)")
    case None
    then have "run_sql ru (Insert_user n h q a) p = (None, db_tables p)" by (simp add: run_sql_def)
    then show ?thesis by (simp add: db_register_user_def insert_runs [OF lib] None)
  next
    case (Some z)
    obtain rs k t where z: "z = (rs, k, t)" by (cases z)
    then have "run_sql ru (Insert_user n h q a) p = (Some (rs, k), t)" by (simp add: run_sql_def Some)
    then show ?thesis by (simp add: db_register_user_def insert_runs [OF lib] Some z)
  qed
qed

lemma reset_runs:
  assumes "account_ready ru env p"
  shows "db_reset_password env n h p =
    (case update_users (\<lambda>u. same_text ru (ur_username u) n) h ru (db_tables p) of
       None \<Rightarrow> (Done False, after_call p 5 (db_tables p))
     | Some (_, _, t) \<Rightarrow> (Done True, after_call p 5 t))"
proof -
  have lib: "library_works env" "follows_schema ru env" "idle_conns p \<noteq> []"
    using assms by (simp_all add: account_ready_def)
  show ?thesis
  proof (cases "update_users (\<lambda>u. same_text ru (ur_username u) n) h ru (db_tables p)")
    case None
    then have "run_sql ru (Update_password_by_name n h) p = (None, db_tables p)"
      by (simp add: run_sql_def)
    then show ?thesis by (simp add: db_reset_password_def update_runs [OF lib] None)
  next
    case (Some z)
    obtain rs k t where z: "z = (rs, k, t)" by (cases z)
    then have "run_sql ru (Update_password_by_name n h) p = (Some (rs, k), t)"
      by (simp add: run_sql_def Some)
    then show ?thesis by (simp add: db_reset_password_def update_runs [OF lib] Some z)
  qed
qed

text \<open>The abstract map: the hash stored for a name.\<close>

definition stored_hash :: "sql_rules \<Rightarrow> pool \<Rightarrow> string \<Rightarrow> string option" where
  "stored_hash ru p = map_of (map (\<lambda>u. (coll_key ru (ur_username u), ur_password_hash u)) (users (db_tables p)))"

lemma stored_hash_account:
  "stored_hash ru p (coll_key ru n) = map_option ur_password_hash (account_of ru (db_tables p) n)"
proof -
  have "map_of (map (\<lambda>u. (coll_key ru (ur_username u), ur_password_hash u)) us) (coll_key ru n)
      = map_option ur_password_hash (case filter (\<lambda>u. same_text ru (ur_username u) n) us of
          [] \<Rightarrow> None | u # _ \<Rightarrow> Some u)" for us
    by (induction us) (auto simp: same_text_def)
  then show ?thesis by (simp add: stored_hash_def account_of_def users_named_def)
qed

section \<open>The pool implements the contract\<close>

definition answer :: "'a outcome \<Rightarrow> 'a \<Rightarrow> 'a" where
  "answer r none = (case r of Done x \<Rightarrow> x | _ \<Rightarrow> none)"

definition pool_register :: "mysql_env \<Rightarrow> string \<Rightarrow> string \<Rightarrow> string \<Rightarrow> string \<Rightarrow> pool \<Rightarrow> bool \<times> pool" where
  "pool_register env n h q a p =
     (let (r, p') = db_register_user env n h q a 0 p in (fst (answer r (False, 0)), p'))"

definition pool_change :: "mysql_env \<Rightarrow> string \<Rightarrow> string \<Rightarrow> pool \<Rightarrow> bool \<times> pool" where
  "pool_change env n h p = (let (r, p') = db_reset_password env n h p in (answer r False, p'))"

definition column_text :: "sql_rules \<Rightarrow> string \<Rightarrow> bool" where
  "column_text ru s \<longleftrightarrow> plain_text 256 s \<and> fits_varchar ru 256 s"

lemma register_step:
  assumes "account_ready ru env p" and "plain_text 64 n" and "column_text ru h"
    and "column_text ru q" and "column_text ru a" and "pool_register env n h q a p = (b, p')"
  shows "account_ready ru env p' \<and>
    stored_hash ru p' = (if b then (stored_hash ru p)(coll_key ru n \<mapsto> h) else stored_hash ru p) \<and>
    (b \<longrightarrow> stored_hash ru p (coll_key ru n) = None)"
proof (cases "insert_user ru n h q a (db_tables p)")
  case None
  then have "b = False" "p' = after_call p 5 (db_tables p)"
    using assms(6) by (simp_all add: pool_register_def register_runs [OF assms(1)] answer_def)
  then show ?thesis using assms(1) by (simp add: account_ready_def stored_hash_def)
next
  case (Some z)
  obtain rs k t where z: "z = (rs, k, t)" by (cases z)
  have ins: "insert_user ru n h q a (db_tables p) = Some (rs, k, t)" using Some z by simp
  have b: "b" "p' = after_call p 5 t"
    using assms(6) by (simp_all add: pool_register_def register_runs [OF assms(1)] answer_def ins)
  have us: "users t = users (db_tables p) @ [\<lparr>ur_user_id = k, ur_username = n, ur_password_hash = h,
      ur_avatar_url = None, ur_security_question = q, ur_security_answer = a\<rparr>]"
    and new: "users_named ru (db_tables p) n = []"
    using ins by (auto simp: insert_user_def split: if_splits)
  have none: "stored_hash ru p (coll_key ru n) = None"
    using new by (simp add: stored_hash_account account_of_def)
  have "schema_ok ru t" using schema_ok_insert_user [OF ins] assms(1) by (simp add: account_ready_def)
  then have "account_ready ru env p'"
    using assms(1-5) us b(2) by (auto simp: account_ready_def plain_user_def column_text_def)
  moreover have "stored_hash ru p' = (stored_hash ru p)(coll_key ru n \<mapsto> h)"
    using none b(2) us by (auto simp: stored_hash_def map_of_append fun_eq_iff map_add_def split: option.splits)
  ultimately show ?thesis using b none by simp
qed

lemma stored_hash_update:
  "map_of (map (\<lambda>u. (coll_key ru (ur_username u), ur_password_hash u))
      (map (\<lambda>u. if same_text ru (ur_username u) n then u\<lparr>ur_password_hash := h\<rparr> else u) us))
   = (let m = map_of (map (\<lambda>u. (coll_key ru (ur_username u), ur_password_hash u)) us)
      in if m (coll_key ru n) = None then m else m(coll_key ru n \<mapsto> h))"
  by (induction us) (auto simp: same_text_def fun_eq_iff Let_def)

lemma change_step:
  assumes "account_ready ru env p" and "column_text ru h" and "pool_change env n h p = (b, p')"
  shows "account_ready ru env p' \<and> b \<and>
    stored_hash ru p' = (if stored_hash ru p (coll_key ru n) = None then stored_hash ru p
      else (stored_hash ru p)(coll_key ru n \<mapsto> h))"
proof -
  let ?t = "(db_tables p)\<lparr>users := map (\<lambda>u. if same_text ru (ur_username u) n
    then u\<lparr>ur_password_hash := h\<rparr> else u) (users (db_tables p))\<rparr>"
  have upd: "update_users (\<lambda>u. same_text ru (ur_username u) n) h ru (db_tables p) = Some ([], 0, ?t)"
    using assms(2) by (simp add: update_users_def rows_def column_text_def)
  have b: "b" "p' = after_call p 5 ?t"
    using assms(3) by (simp_all add: pool_change_def reset_runs [OF assms(1)] answer_def upd)
  have "schema_ok ru ?t" using schema_ok_update_users [OF upd] assms(1) by (simp add: account_ready_def)
  then have "account_ready ru env p'"
    using assms(1,2) b(2) by (auto simp: account_ready_def plain_user_def column_text_def)
  then show ?thesis
    using b stored_hash_update [of ru n h "users (db_tables p)"]
    by (simp add: stored_hash_def Let_def)
qed

interpretation pool_accounts: account_store "account_ready ru env" "coll_key ru" "stored_hash ru"
    "plain_text 64" "column_text ru" "pool_register env" "pool_change env" for ru env
proof unfold_locales
  fix s n h q a b s'
  assume pre: "account_ready ru env s" "plain_text 64 n" "column_text ru h" "column_text ru q"
    "column_text ru a"
  show "account_ready ru env (snd (pool_register env n h q a s))"
    using register_step [OF pre] by (metis prod.collapse)
  show "stored_hash ru s' = (if b then (stored_hash ru s)(coll_key ru n \<mapsto> h) else stored_hash ru s)"
    if "pool_register env n h q a s = (b, s')"
    using register_step [OF pre that] by simp
  show "stored_hash ru s (coll_key ru n) = None" if "pool_register env n h q a s = (True, s')"
    using register_step [OF pre that] by simp
next
  fix s n h b s'
  assume pre: "account_ready ru env s" "column_text ru h"
  show "account_ready ru env (snd (pool_change env n h s))"
    using change_step [OF pre] by (metis prod.collapse)
  show "b \<and> stored_hash ru s' = (if stored_hash ru s (coll_key ru n) = None then stored_hash ru s
      else (stored_hash ru s)(coll_key ru n \<mapsto> h))" if "pool_change env n h s = (b, s')"
    using change_step [OF pre that] by simp
qed

section \<open>Names that do not fit the buffer of the query\<close>

lemma store_text_exact: "length s = n \<Longrightarrow> store_text n s old = (True, s @ drop n old)"
  by (simp add: store_text_def Let_def)

lemma store_text_long: "n < length s \<Longrightarrow> store_text n s old = (False, take n s @ drop n old)"
  by (simp add: store_text_def Let_def)

lemma stack_array_last: "drop n (stack_array env (Suc n)) = [stack_junk env n]"
  by (simp add: stack_array_def)

lemma login_row:
  fixes p :: pool
  assumes "library_works env" and "follows_schema ru env" and "idle_conns p \<noteq> []"
    and "users_named ru (db_tables p) n = [u]"
  shows "service env (Suc (Suc (Suc (Suc (db_clock p))))) (Select_login n) (db_tables p)
    = (Some ([[Int_column (int (ur_user_id u)), Text_column (ur_username u),
        Text_column (ur_password_hash u)]], 0), db_tables p)"
proof (rule run_sql_service [OF assms(2)])
  show "run_sql ru (Select_login n) p = (Some ([[Int_column (int (ur_user_id u)),
      Text_column (ur_username u), Text_column (ur_password_hash u)]], 0), db_tables p)"
    by (simp add: run_sql_def rows_def assms(4))
qed

lemma unat_byte_less: "unat (b :: byte) < 256"
  using unsigned_less [of b] by simp

lemma hex_digit_not_null: "unat b < 16 \<Longrightarrow> hex_digit b \<noteq> CHR 0x00"
proof -
  assume "unat b < 16"
  then have "hex_digit b \<in> set ''0123456789abcdef''"
    unfolding hex_digit_def by (intro nth_mem) simp
  then show ?thesis by auto
qed

lemma sha256_shape: "length (sha256 env s) = 64" "CHR 0x00 \<notin> set (sha256 env s)"
proof -
  have "unat (drop_bit 4 b) < 16" "unat (take_bit 4 b) < 16" for b :: byte
    using unat_byte_less [of b] unat_div_distrib [of b 16] unat_mod_distrib [of b 16]
    by (simp_all add: drop_bit_eq_div take_bit_eq_mod)
  then show "CHR 0x00 \<notin> set (sha256 env s)"
    by (auto simp: sha256_def Let_def hex_byte_def hex_digit_not_null hex_digit_not_null [symmetric])
  show "length (sha256 env s) = 64"
    by (simp add: sha256_def Let_def hex_byte_def length_concat o_def SHA256_DIGEST_LENGTH_def sum_list_triv)
qed

lemma sha256_column: "fits_varchar ru 256 (sha256 env s) \<Longrightarrow> column_text ru (sha256 env s)"
  by (simp add: column_text_def plain_text_def sha256_shape)

lemma plain_rules_column: "column_text plain_rules s \<longleftrightarrow> plain_text 256 s"
  by (auto simp: column_text_def plain_rules_def plain_text_def)

lemma sha256_plain [simp]: "plain_text 256 (sha256 env s)"
  by (simp add: plain_text_def sha256_shape)

section \<open>Properties of accounts\<close>

definition start_pool :: pool where
  "start_pool = (new_pool no_tables)\<lparr>idle_conns := [0], live_conns := [0], next_handle := 1\<rparr>"

lemma start_pool_ready: "account_ready plain_rules healthy_env start_pool"
  using healthy_env_follows
  by (simp add: account_ready_def start_pool_def new_pool_def no_tables_def schema_defs)

text \<open>
  After a registration that succeeded, a login with the same name is accepted exactly for the
  passwords that have the same SHA-256 text, and gives back the name and the new user id; the
  name exists, and nobody can register a name the collation takes for the same one.
\<close>

theorem register_then_verify:
  assumes "account_ready ru env p" and "plain_text 64 n" and "column_text ru (sha256 env pw)"
    and "column_text ru q" and "column_text ru a"
    and "db_register_user env n (sha256 env pw) q a i p = (Done (True, uid), p')"
  shows "(\<exists>u. fst (db_verify_user env n pw' user p') = Done (sha256 env pw' = sha256 env pw, u) \<and>
      (sha256 env pw' = sha256 env pw \<longrightarrow> u_user_id u = uid \<and> u_username u = n)) \<and>
    fst (db_username_exists env n p') = Done True \<and>
    (same_text ru n n' \<longrightarrow> fst (db_register_user env n' h q' a' j p') = Done (False, j))"
proof -
  obtain rs k t where ins: "insert_user ru n (sha256 env pw) q a (db_tables p) = Some (rs, k, t)"
    and k: "uid = word_of_nat k" "p' = after_call p 5 t"
    using assms(6) by (auto simp: register_runs [OF assms(1)] split: option.splits)
  define row where "row = \<lparr>ur_user_id = k, ur_username = n, ur_password_hash = sha256 env pw,
    ur_avatar_url = None, ur_security_question = q, ur_security_answer = a\<rparr>"
  have us: "users t = users (db_tables p) @ [row]" and new: "users_named ru (db_tables p) n = []"
    using ins by (auto simp: insert_user_def row_def split: if_splits)
  have named: "users_named ru t n' = [row]" if "same_text ru n n'" for n'
    using that new us by (auto simp: users_named_def same_text_def row_def filter_empty_conv)
  have acc: "account_of ru (db_tables p') n = Some row"
    using named [of n] k(2) by (simp add: account_of_def same_text_def)
  have ready: "account_ready ru env p'"
    using register_step [OF assms(1-5), of True p'] by (simp add: pool_register_def answer_def
      register_runs [OF assms(1)] ins k)
  have "\<exists>u. fst (db_verify_user env n pw' user p') = Done (sha256 env pw' = sha256 env pw, u) \<and>
      (sha256 env pw' = sha256 env pw \<longrightarrow> u_user_id u = uid \<and> u_username u = n)"
    unfolding verify_runs [OF ready] acc by (auto simp: row_def user_id_of_def k)
  moreover have "fst (db_username_exists env n p') = Done True"
    unfolding username_exists_runs [OF ready] acc by simp
  moreover have "same_text ru n n' \<longrightarrow> fst (db_register_user env n' h q' a' j p') = Done (False, j)"
    unfolding register_runs [OF ready] using named [of n'] k(2) by (auto simp: insert_user_def)
  ultimately show ?thesis by blast
qed

text \<open>
  C14. Refinement: over any run of registrations and password changes with texts that fit their
  columns, the stored hashes are what the abstract map of accounts says, and \<open>verify_user\<close> accepts
  a name and password exactly when the map holds the password's SHA-256 text for that name.
\<close>

theorem accounts_refine_map:
  assumes "account_ready ru env p"
    and "\<forall>c\<in>set cs. good_change (plain_text 64) (column_text ru) c"
    and "apply_changes (pool_register env) (pool_change env) cs p = (bs, p')"
  shows "stored_hash ru p' = fold (\<lambda>(c, b). change_map (coll_key ru) c b) (zip cs bs) (stored_hash ru p) \<and>
    (\<exists>u. fst (db_verify_user env n pw user p')
       = Done (stored_hash ru p' (coll_key ru n) = Some (sha256 env pw), u))"
proof -
  note run = pool_accounts.apply_changes_map [OF assms]
  then have "account_ready ru env p'" by simp
  then have "\<exists>u. fst (db_verify_user env n pw user p')
       = Done (stored_hash ru p' (coll_key ru n) = Some (sha256 env pw), u)"
    by (cases "account_of ru (db_tables p') n")
      (auto simp: verify_runs stored_hash_account)
  with run show ?thesis by blast
qed

text \<open>
  Nobody else's registrations and password changes, in any number and order, touch an account:
  a login that was accepted is still accepted after a run of changes in which no password change
  names the account (under the collation's key).
\<close>

theorem others_leave_account_alone:
  assumes "account_ready ru env p"
    and "\<forall>c\<in>set cs. good_change (plain_text 64) (column_text ru) c"
    and "apply_changes (pool_register env) (pool_change env) cs p = (bs, p')"
    and "\<forall>m h. Changed m h \<in> set cs \<longrightarrow> \<not> same_text ru m n"
    and "fst (db_verify_user env n pw user p) = Done (True, u)"
  shows "\<exists>u'. fst (db_verify_user env n pw user p') = Done (True, u')"
proof -
  have "stored_hash ru p (coll_key ru n) = Some (sha256 env pw)"
    using assms(5) by (auto simp: verify_runs [OF assms(1)] stored_hash_account split: option.splits if_splits)
  then have kept: "stored_hash ru p' (coll_key ru n) = Some (sha256 env pw)"
    using pool_accounts.hash_stays [OF assms(1-3)] assms(4) by (metis same_text_def)
  have ready: "account_ready ru env p'"
    using pool_accounts.apply_changes_map [OF assms(1-3)] by blast
  show ?thesis
    using kept by (auto simp: verify_runs [OF ready] stored_hash_account)
qed

definition blank_user :: user where
  "blank_user = \<lparr>u_user_id = 0, u_username = [], u_password_hash = [], u_avatar_url = [],
     u_security_question = [], u_security_answer = []\<rparr>"

definition bob_row :: "string \<Rightarrow> user_row" where
  "bob_row pw = \<lparr>ur_user_id = 1, ur_username = ''bob'', ur_password_hash = sha256 healthy_env pw,
     ur_avatar_url = None, ur_security_question = ''pet'', ur_security_answer = ''x''\<rparr>"

definition bob_pool :: "string \<Rightarrow> pool" where
  "bob_pool pw = after_call start_pool 5 (no_tables\<lparr>users := [bob_row pw], next_user_id := 2\<rparr>)"

lemma bob_schema: "schema_ok plain_rules (no_tables\<lparr>users := [bob_row pw], next_user_id := 2\<rparr>)"
  by (simp add: schema_defs bob_row_def plain_rules_def no_tables_def int_max_def sha256_shape)

lemma bob_registers:
  "db_register_user healthy_env ''bob'' (sha256 healthy_env pw) ''pet'' ''x'' 0 start_pool
     = (Done (True, 1), bob_pool pw)"
  unfolding register_runs [OF start_pool_ready] bob_pool_def bob_row_def
  by (simp add: insert_user_def start_pool_def new_pool_def no_tables_def plain_rules_def
      users_named_def int_max_def sha256_shape numeral_2_eq_2)

theorem register_then_verify_witness:
  "(\<exists>u. fst (db_verify_user healthy_env ''bob'' ''pw'' blank_user (bob_pool ''pw'')) = Done (True, u)) \<and>
     fst (db_username_exists healthy_env ''bob'' (bob_pool ''pw'')) = Done True"
  using register_then_verify [OF start_pool_ready, of "''bob''" "''pw''" "''pet''" "''x''" 0 1
      "bob_pool ''pw''" "''pw''" blank_user] bob_registers [of "''pw''"]
  by (simp add: plain_rules_column) (fastforce simp: plain_text_def)

theorem accounts_refine_map_witness:
  "\<exists>bs p'. apply_changes (pool_register healthy_env) (pool_change healthy_env)
       [Registered ''bob'' (sha256 healthy_env ''pw'') ''pet'' ''x'', Changed ''bob'' (sha256 healthy_env ''new'')]
       start_pool = (bs, p') \<and>
     (\<exists>u. fst (db_verify_user healthy_env ''bob'' ''new'' blank_user p') = Done (True, u))"
proof -
  let ?cs = "[Registered ''bob'' (sha256 healthy_env ''pw'') ''pet'' ''x'',
    Changed ''bob'' (sha256 healthy_env ''new'')]"
  have good: "\<forall>c\<in>set ?cs. good_change (plain_text 64) (column_text plain_rules) c"
    by (simp add: plain_rules_column) (simp add: plain_text_def)
  obtain bs p' where run: "apply_changes (pool_register healthy_env) (pool_change healthy_env) ?cs start_pool
      = (bs, p')" by (cases "apply_changes (pool_register healthy_env) (pool_change healthy_env) ?cs start_pool")
  then have "hd bs" "length bs = 2"
    by (auto simp: Let_def pool_register_def bob_registers answer_def split: prod.splits)
  then have "fold (\<lambda>(c, b). change_map (coll_key plain_rules) c b) (zip ?cs bs) m ''bob''
      = Some (sha256 healthy_env ''new'')" for m
    by (cases bs; cases "tl bs") (auto simp: plain_rules_def)
  then show ?thesis
    using accounts_refine_map [OF start_pool_ready good run, of "''bob''" "''new''" blank_user] run
    by (auto simp: plain_rules_def)
qed

theorem others_leave_account_alone_witness:
  "\<exists>bs p'. apply_changes (pool_register healthy_env) (pool_change healthy_env)
       [Registered ''eve'' ''h'' ''pet'' ''x'', Changed ''eve'' ''h2''] (bob_pool ''pw'') = (bs, p') \<and>
     (\<exists>u. fst (db_verify_user healthy_env ''bob'' ''pw'' blank_user p') = Done (True, u))"
proof -
  let ?cs = "[Registered ''eve'' ''h'' ''pet'' ''x'', Changed ''eve'' ''h2'']"
  obtain bs p' where run: "apply_changes (pool_register healthy_env) (pool_change healthy_env) ?cs
      (bob_pool ''pw'') = (bs, p')"
    by (cases "apply_changes (pool_register healthy_env) (pool_change healthy_env) ?cs (bob_pool ''pw'')")
  have good: "\<forall>c\<in>set ?cs. good_change (plain_text 64) (column_text plain_rules) c"
    by (simp add: plain_rules_column) (simp add: plain_text_def)
  have ready: "account_ready plain_rules healthy_env (bob_pool ''pw'')"
    using healthy_env_follows
    by (simp add: account_ready_def bob_pool_def start_pool_def new_pool_def plain_user_def bob_schema)
      (simp add: bob_row_def plain_text_def sha256_shape)
  have "account_of plain_rules (db_tables (bob_pool ''pw'')) ''bob'' = Some (bob_row ''pw'')"
    by (simp add: account_of_def users_named_def bob_pool_def same_text_def bob_row_def)
  then obtain u where v: "fst (db_verify_user healthy_env ''bob'' ''pw'' blank_user (bob_pool ''pw'')) = Done (True, u)"
    by (simp add: verify_runs [OF ready] bob_row_def)
  show ?thesis
    using others_leave_account_alone [OF ready good run _ v] run
    by (auto simp: same_text_def plain_rules_def)
qed

end
