(* ===== verification/Database_Queries.thy ===== *)
theory Database_Queries
  imports Account_Store
begin

text \<open>
  The rest of what the database methods promise: what each request changes in the tables, and that
  none breaks the constraints of the schema, and what the fixed-size buffers of the queries do to long names, message histories and missing
  avatars.
\<close>

section \<open>Requests and the schema\<close>

text \<open>
  \<open>keeps_tables m\<close>: m leaves the tables alone. \<open>runs_only ru q m\<close>: m leaves them alone or runs the
  statement q on them once, and q was accepted.
\<close>

definition keeps_tables :: "'a db \<Rightarrow> bool" where
  "keeps_tables m \<longleftrightarrow> (\<forall>p. db_tables (snd (m p)) = db_tables p)"

definition ran_sql :: "sql_rules \<Rightarrow> sql \<Rightarrow> tables \<Rightarrow> tables \<Rightarrow> bool" where
  "ran_sql ru q t t' \<longleftrightarrow> t' = t \<or> (\<exists>now rs i. sql_run ru now q t = Some (rs, i, t'))"

definition runs_only :: "sql_rules \<Rightarrow> sql \<Rightarrow> 'a db \<Rightarrow> bool" where
  "runs_only ru q m \<longleftrightarrow> (\<forall>p. ran_sql ru q (db_tables p) (db_tables (snd (m p))))"

named_theorems schema_intros \<open>which operations touch the tables\<close>

lemma keeps_tables_bind [schema_intros]:
  assumes "keeps_tables m" and "\<And>x. keeps_tables (f x)" shows "keeps_tables (db_bind m f)"
  unfolding keeps_tables_def db_bind_def
proof
  fix p
  show "db_tables (snd (case m p of (Done x, p') \<Rightarrow> f x p' | (Blocks, p') \<Rightarrow> (Blocks, p')
      | (Overread, p') \<Rightarrow> (Overread, p'))) = db_tables p"
    using assms by (cases "m p"; cases "fst (m p)") (auto simp: keeps_tables_def dest: spec [of _ p])
qed

lemma keeps_tables_steps [schema_intros]:
  "keeps_tables (returns x)" "keeps_tables (api env c)" "keeps_tables stmt_opened"
  "keeps_tables mysql_stmt_close" "keeps_tables result_opened" "keeps_tables mysql_free_result"
  "keeps_tables (mysql_close h)" "keeps_tables (release_connection h)" "keeps_tables (lift_outcome r)"
  by (simp_all add: keeps_tables_def run_defs)

lemma keeps_tables_if [schema_intros]:
  "keeps_tables m \<Longrightarrow> keeps_tables n \<Longrightarrow> keeps_tables (if b then m else n)"
  by simp

lemma keeps_tables_option [schema_intros]:
  "keeps_tables m \<Longrightarrow> (\<And>x. keeps_tables (f x)) \<Longrightarrow> keeps_tables (case z of None \<Rightarrow> m | Some x \<Rightarrow> f x)"
  by (cases z) simp_all

lemma keeps_tables_split [schema_intros]:
  "(\<And>x y. keeps_tables (f x y)) \<Longrightarrow> keeps_tables (case z of (x, y) \<Rightarrow> f x y)"
  by (cases z) simp

lemma keeps_tables_create [schema_intros]: "keeps_tables (create_connection env)"
proof -
  have "keeps_tables (\<lambda>p. db_bind (api env Mysql_real_connect) (\<lambda>ok.
        if \<not> ok then db_bind (mysql_close (next_handle p)) (\<lambda>_. returns None)
        else returns (Some (next_handle p)))
      (p\<lparr>next_handle := Suc (next_handle p), live_conns := next_handle p # live_conns p\<rparr>))"
    by (simp add: keeps_tables_def run_defs)
  then show ?thesis
    unfolding create_connection_def Let_def by (intro schema_intros)
qed

lemma keeps_tables_get_connection: "keeps_tables (get_connection env)"
proof -
  have "keeps_tables (db_bind (api env Mysql_ping) (\<lambda>ok.
      if ok then returns (Some c) else db_bind (mysql_close c) (\<lambda>_. create_connection env)))" for c
    by (intro schema_intros)
  then show ?thesis
    by (simp add: keeps_tables_def get_connection_def split: list.split)
qed

lemma keeps_tables_fetch [schema_intros]:
  "keeps_tables (mysql_stmt_fetch env rs bufs)" "keeps_tables (read_text bufs i)"
  unfolding mysql_stmt_fetch_def
  by (intro schema_intros) (simp add: keeps_tables_def read_text_def lift_outcome_def)

lemma keeps_tables_fetch_while [schema_intros]:
  "(\<And>b. keeps_tables (g b)) \<Longrightarrow> keeps_tables (fetch_while env g rs bufs acc)"
proof (induction rs arbitrary: bufs acc)
  case Nil
  show ?case unfolding fetch_while.simps by (intro schema_intros)
next
  case (Cons r rs)
  show ?case unfolding fetch_while.simps by (intro schema_intros Cons.prems Cons.IH)
qed

lemma keeps_tables_close [schema_intros]:
  "keeps_tables (close_with x)" "keeps_tables k \<Longrightarrow> keeps_tables (with_result env none k)"
  unfolding close_with_def with_result_def by (intro schema_intros | assumption)+

lemma runs_only_keeps: "keeps_tables m \<Longrightarrow> runs_only ru q m"
  by (simp add: keeps_tables_def runs_only_def ran_sql_def)

lemma runs_only_first:
  assumes "keeps_tables m" and "\<And>x. runs_only ru q (f x)" shows "runs_only ru q (db_bind m f)"
  unfolding runs_only_def db_bind_def
proof
  fix p
  have "db_tables (snd (m p)) = db_tables p" using assms(1) by (simp add: keeps_tables_def)
  moreover have "ran_sql ru q (db_tables p') (db_tables (snd (f x p')))" for x p'
    using assms(2) by (simp add: runs_only_def)
  ultimately show "ran_sql ru q (db_tables p) (db_tables (snd (case m p of (Done x, p') \<Rightarrow> f x p'
      | (Blocks, p') \<Rightarrow> (Blocks, p') | (Overread, p') \<Rightarrow> (Overread, p'))))"
    by (cases "m p"; cases "fst (m p)") (auto simp: ran_sql_def, metis+)
qed

lemma runs_only_last:
  assumes "runs_only ru q m" and "\<And>x. keeps_tables (f x)" shows "runs_only ru q (db_bind m f)"
  unfolding runs_only_def db_bind_def
proof
  fix p
  have "ran_sql ru q (db_tables p) (db_tables (snd (m p)))" using assms(1) by (simp add: runs_only_def)
  moreover have "db_tables (snd (f x p')) = db_tables p'" for x p'
    using assms(2) by (simp add: keeps_tables_def)
  ultimately show "ran_sql ru q (db_tables p) (db_tables (snd (case m p of (Done x, p') \<Rightarrow> f x p'
      | (Blocks, p') \<Rightarrow> (Blocks, p') | (Overread, p') \<Rightarrow> (Overread, p'))))"
    by (cases "m p"; cases "fst (m p)") auto
qed

lemma runs_only_if: "runs_only ru q m \<Longrightarrow> runs_only ru q n \<Longrightarrow> runs_only ru q (if b then m else n)"
  by simp

lemma runs_only_execute:
  assumes "follows_schema ru env" shows "runs_only ru q (mysql_stmt_execute env q)"
  using assms
  by (fastforce simp: runs_only_def ran_sql_def mysql_stmt_execute_def follows_schema_def Let_def
      split: prod.splits option.splits)

lemma runs_only_statement:
  assumes "follows_schema ru env" and "\<And>r. keeps_tables (k r)"
  shows "runs_only ru q (run_statement env q none k)"
  unfolding run_statement_def
  by (intro runs_only_first runs_only_if runs_only_last runs_only_execute assms runs_only_keeps
      schema_intros)

lemma runs_only_with_connection:
  assumes "runs_only ru q body" shows "runs_only ru q (with_connection env none body)"
proof -
  have "runs_only ru q (case conn of None \<Rightarrow> returns none
      | Some c \<Rightarrow> db_bind body (\<lambda>x. db_bind (release_connection c) (\<lambda>_. returns x)))" for conn
    by (cases conn) (auto intro!: runs_only_keeps runs_only_last [OF assms] schema_intros)
  then show ?thesis
    unfolding with_connection_def by (intro runs_only_first keeps_tables_get_connection)
qed

lemma runs_only_query:
  assumes "follows_schema ru env" and "\<And>rs. keeps_tables (k rs)" shows "runs_only ru q (query env q none k)"
  unfolding query_def by (intro runs_only_with_connection runs_only_statement schema_intros assms)

lemma runs_only_update: "follows_schema ru env \<Longrightarrow> runs_only ru q (update env q)"
  unfolding update_def by (intro runs_only_with_connection runs_only_statement schema_intros)

text \<open>The statement each method runs, with its parameters in the order the method binds them.\<close>

fun statement_of :: "db_request \<Rightarrow> sql" where
  "statement_of (Verify_user n p u) = Select_login n"
| "statement_of (Register_user n h q a i) = Insert_user n h q a"
| "statement_of (Username_exists n) = Select_count n"
| "statement_of (Get_security_question n q a) = Select_security n"
| "statement_of (Reset_password n h) = Update_password_by_name n h"
| "statement_of (Update_password i h) = Update_password_by_id i h"
| "statement_of (Get_user_by_id i u) = Select_user_by_id i"
| "statement_of (Get_user_by_name n u) = Select_user_by_name n"
| "statement_of (Get_friends i fs) = Select_friends i"
| "statement_of (Send_message i j c m) = Insert_message i j c"
| "statement_of (Get_messages i j ms l) = Select_messages i j l"
| "statement_of (Add_user n h) = Insert_user_without_security n h"
| "statement_of (Add_friend i j) = Insert_friend i j"
| "statement_of (Delete_friend i j) = sql.Delete_friend i j"

lemma runs_only_db_call:
  assumes "follows_schema ru env" shows "runs_only ru (statement_of q) (db_call env q)"
proof -
  note defs = db_verify_user_def db_register_user_def db_username_exists_def db_get_security_question_def
    db_reset_password_def db_update_password_def db_get_user_by_id_def db_get_user_by_name_def
    fetch_user_def db_get_friends_def db_send_message_def db_get_messages_def db_add_user_def
    db_add_friend_def db_delete_friend_def read_friend_def read_message_def drop_answer_def Let_def
  show ?thesis
    by (cases q; simp only: db_call.simps statement_of.simps; unfold defs; intro runs_only_last
      runs_only_query runs_only_update runs_only_with_connection runs_only_statement schema_intros assms)
qed

text \<open>
  What a request that was accepted does to the tables, written out: the row it adds, with the value
  of every column, the rows it removes, or the hash it changes. A request that reads, and
  \<open>add_user\<close>, which the schema always refuses, has no effect.
\<close>

fun request_effect :: "sql_rules \<Rightarrow> db_request \<Rightarrow> tables \<Rightarrow> tables \<Rightarrow> bool" where
  "request_effect ru (Register_user n h q a i) t t' \<longleftrightarrow>
     (\<forall>u\<in>set (users t). \<not> same_text ru (ur_username u) n) \<and>
     t' = t\<lparr>users := users t @ [\<lparr>ur_user_id = next_user_id t, ur_username = n, ur_password_hash = h,
              ur_avatar_url = None, ur_security_question = q, ur_security_answer = a\<rparr>],
            next_user_id := next_user_id t + 1\<rparr>"
| "request_effect ru (Reset_password n h) t t' \<longleftrightarrow>
     t' = t\<lparr>users := map (\<lambda>u. if same_text ru (ur_username u) n then u\<lparr>ur_password_hash := h\<rparr> else u) (users t)\<rparr>"
| "request_effect ru (Update_password i h) t t' \<longleftrightarrow>
     t' = t\<lparr>users := map (\<lambda>u. if user_id_of u = i then u\<lparr>ur_password_hash := h\<rparr> else u) (users t)\<rparr>"
| "request_effect ru (Send_message i j c m) t t' \<longleftrightarrow>
     users_with_id t i \<noteq> [] \<and> users_with_id t j \<noteq> [] \<and>
     (\<exists>now. t' = t\<lparr>messages := messages t @ [\<lparr>mr_msg_id = next_msg_id t, mr_from_id = i, mr_to_id = j,
              mr_content = c, mr_timestamp = current_time ru now\<rparr>],
            next_msg_id := next_msg_id t + 1\<rparr>)"
| "request_effect ru (Add_friend i j) t t' \<longleftrightarrow>
     users_with_id t i \<noteq> [] \<and> users_with_id t j \<noteq> [] \<and>
     t' = t\<lparr>friends := friends t @ [\<lparr>fr_id = next_friend_row t, fr_user_id = i, fr_friend_id = j, fr_status = 1\<rparr>],
            next_friend_row := next_friend_row t + 1\<rparr>"
| "request_effect ru (Delete_friend i j) t t' \<longleftrightarrow>
     t' = t\<lparr>friends := filter (\<lambda>f. \<not> (fr_user_id f = i \<and> fr_friend_id f = j)) (friends t)\<rparr>"
| "request_effect ru q t t' \<longleftrightarrow> t' = t"

primrec request_effects :: "sql_rules \<Rightarrow> db_request list \<Rightarrow> tables \<Rightarrow> tables \<Rightarrow> bool" where
  "request_effects ru [] t t' \<longleftrightarrow> t' = t"
| "request_effects ru (q # qs) t t' \<longleftrightarrow>
     (\<exists>t1. (t1 = t \<or> request_effect ru q t t1) \<and> request_effects ru qs t1 t')"

lemma request_effects_none: "request_effects ru qs t t"
  by (induction qs) auto

lemma statement_effect:
  "sql_run ru now (statement_of q) t = Some (rs, k, t') \<Longrightarrow> request_effect ru q t t'"
  by (cases q) (auto simp: rows_def insert_user_def insert_friend_def insert_message_def update_users_def
      users_named_def filter_empty_conv split: if_splits)

lemma db_call_effect:
  assumes "follows_schema ru env" and "db_call env q p = (r, p')"
  shows "db_tables p' = db_tables p \<or> request_effect ru q (db_tables p) (db_tables p')"
    and "schema_ok ru (db_tables p) \<Longrightarrow> schema_ok ru (db_tables p')"
proof -
  have "ran_sql ru (statement_of q) (db_tables p) (db_tables p')"
    using runs_only_db_call [OF assms(1), of q] assms(2) unfolding runs_only_def by (metis snd_conv)
  then show "db_tables p' = db_tables p \<or> request_effect ru q (db_tables p) (db_tables p')"
    and "schema_ok ru (db_tables p) \<Longrightarrow> schema_ok ru (db_tables p')"
    by (auto simp: ran_sql_def intro: statement_effect schema_ok_sql_run)
qed

text \<open>
  C16. The tables change only the way the requests say: after any sequence of requests, whatever
  library calls fail on the way and however the sequence ends, the tables come from the old ones by
  the requests in their order, each of which did nothing or exactly what it is for (a message has
  the sender, the addressee and the text of its request, a friendship its two users, a new account
  its name, hash, question and answer, and a password change touches the hashes of the named user
  only). And the constraints of the schema hold: unique names and primary keys, foreign keys, column
  widths, counters ahead of the ids.
\<close>

theorem schema_survives:
  assumes "follows_schema ru env" and "schema_ok ru (db_tables p)"
  shows "schema_ok ru (db_tables (snd (db_calls env qs p))) \<and>
    request_effects ru qs (db_tables p) (db_tables (snd (db_calls env qs p)))"
  using assms(2)
proof (induction qs arbitrary: p)
  case Nil
  then show ?case by (simp add: returns_def)
next
  case (Cons q qs)
  obtain r p1 where call: "db_call env q p = (r, p1)" by (cases "db_call env q p")
  note effect = db_call_effect [OF assms(1) call]
  show ?case
  proof (cases r)
    case (Done x)
    then have "db_calls env (q # qs) p = db_calls env qs p1" by (simp add: db_bind_def call)
    then show ?thesis using Cons.IH [OF effect(2) [OF Cons.prems]] effect(1) by auto
  qed (use effect Cons.prems in \<open>auto simp: db_bind_def call intro: request_effects_none\<close>)
qed

text \<open>The tables sql/init.sql starts with.\<close>

definition init_user :: "nat \<Rightarrow> string \<Rightarrow> string \<Rightarrow> user_row" where
  "init_user i n q = \<lparr>ur_user_id = i, ur_username = n,
     ur_password_hash = ''ef92b778bafe771e89245b89ecbc08a44a4e166c06659911881f383d4473e94f'',
     ur_avatar_url = None, ur_security_question = q,
     ur_security_answer = ''ef92b778bafe771e89245b89ecbc08a44a4e166c06659911881f383d4473e94f''\<rparr>"

definition init_friend :: "nat \<Rightarrow> i32 \<Rightarrow> i32 \<Rightarrow> friend_row" where
  "init_friend k i j = \<lparr>fr_id = k, fr_user_id = i, fr_friend_id = j, fr_status = 1\<rparr>"

definition init_tables :: tables where
  "init_tables = \<lparr>users = [init_user 1 ''admin'' ''Your favorite pet name?'',
       init_user 2 ''user1'' ''Your first school name?'', init_user 3 ''user2'' ''Your birthday month?''],
     friends = [init_friend 1 1 2, init_friend 2 1 3, init_friend 3 2 1, init_friend 4 3 1],
     messages = [], next_user_id = 4, next_friend_row = 5, next_msg_id = 1\<rparr>"

lemma init_tables_ok: "schema_ok plain_rules init_tables"
  by (simp add: schema_defs init_tables_def init_user_def init_friend_def plain_rules_def int_max_def
      users_with_id_def user_id_of_def)

theorem schema_survives_witness:
  "let qs = [Register_user ''bob'' ''h'' ''q'' ''a'' 0, Add_friend 4 1, Send_message 4 1 ''hi'' 0];
       t = db_tables (snd (db_calls healthy_env qs (start_pool\<lparr>db_tables := init_tables\<rparr>)))
   in schema_ok plain_rules t \<and> request_effects plain_rules qs init_tables t"
  using schema_survives [OF healthy_env_follows(1), of "start_pool\<lparr>db_tables := init_tables\<rparr>"]
  by (simp add: init_tables_ok del: request_effects.simps db_calls.simps)

section \<open>Long names\<close>

lemma text_fetch:
  "library_works env \<Longrightarrow> fetch_column env (Text_column s) (Text_buffer n old)
     = (length s \<le> n, Text_buffer n (snd (store_text n s old)))"
  by (simp add: library_works_def store_text_def Let_def)

lemma query_overreads:
  assumes "library_works env" and "follows_schema ru env" and "idle_conns p \<noteq> []"
    and "run_sql ru q p = (Some (rs, i), t)"
    and "k rs (on_connection p 6 t) = (Overread, p')"
  shows "fst (query env q none k p) = Overread"
  using assms(1,3-) run_sql_service [OF assms(2,4)] by (cases "idle_conns p")
    (simp_all add: run_defs library_works_def after_call_def on_connection_def eval_nat_numeral)

lemma read_unterminated:
  assumes "bufs ! i = Text_buffer n a" and "CHR 0x00 \<notin> set a"
  shows "read_text bufs i p = (Overread, p)"
  using assms by (simp add: read_text_def lift_outcome_def c_string_def)

text \<open>
  C37. The 64 bytes \<open>verify_user\<close> has for a name are too few for names the schema accepts: a user
  whose name is longer than 64 bytes (64 characters of several bytes each are allowed) is refused
  with every password, and for a name of exactly 64 bytes the right password makes the server read
  past the buffer, unless the uninitialised byte behind it happens to be 0.
\<close>

theorem long_names_lock_out:
  assumes "library_works env" and "follows_schema ru env" and "idle_conns p \<noteq> []"
    and "users_named ru (db_tables p) n = [u]" and "ur_user_id u \<le> int_max"
    and "plain_text 256 (ur_password_hash u)" and "CHR 0x00 \<notin> set (ur_username u)"
  shows "(64 < length (ur_username u) \<longrightarrow> fst (db_verify_user env n pw user p) = Done (False, user)) \<and>
    (length (ur_username u) = 64 \<and> stack_junk env 64 \<noteq> CHR 0x00 \<and> ur_password_hash u = sha256 env pw \<longrightarrow>
       fst (db_verify_user env n pw user p) = Overread)"
proof -
  let ?row = "[Int_column (int (ur_user_id u)), Text_column (ur_username u), Text_column (ur_password_hash u)]"
  let ?bufs = "[Int_buffer (stack_int env), Text_buffer 64 (stack_array env 65),
      Text_buffer 256 (stack_array env 257)]"
  have q: "run_sql ru (Select_login n) p = (Some ([?row], 0), db_tables p)"
    by (simp add: run_sql_def rows_def assms(4))
  have hash: "length (ur_password_hash u) \<le> 256" "CHR 0x00 \<notin> set (ur_password_hash u)"
    using assms(6) by (simp_all add: plain_text_def)
  have row: "mysql_stmt_fetch env [?row] ?bufs c = (Done (length (ur_username u) \<le> 64,
      [Int_buffer (user_id_of u), Text_buffer 64 (snd (store_text 64 (ur_username u) (stack_array env 65))),
       Text_buffer 256 (ur_password_hash u @ CHR 0x00 # drop (Suc (length (ur_password_hash u))) (stack_array env 257))]),
      c\<lparr>db_clock := Suc (db_clock c)\<rparr>)" for c
    by (simp add: mysql_stmt_fetch_row [OF assms(1)] fetch_id [OF assms(5)] fetch_plain [OF assms(1,6)]
        text_fetch [OF assms(1), of "ur_username u"] user_id_of_def del: fetch_column.simps)
  have "fst (db_verify_user env n pw user p) = Done (False, user)" if "64 < length (ur_username u)"
  proof -
    have "db_verify_user env n pw user p = (Done (False, user), after_call p 7 (db_tables p))"
      unfolding db_verify_user_def
      by (rule query_runs [OF assms(1-3) q]) (use that in \<open>simp add: db_bind_def row returns_def\<close>)
    then show ?thesis by simp
  qed
  moreover have "fst (db_verify_user env n pw user p) = Overread"
    if "length (ur_username u) = 64" "stack_junk env 64 \<noteq> CHR 0x00" "ur_password_hash u = sha256 env pw"
  proof -
    have last: "drop 64 (stack_array env 65) = [stack_junk env 64]"
      using stack_array_last [of 64 env] by simp
    show ?thesis
      unfolding db_verify_user_def
      by (rule query_overreads [OF assms(1-3) q, where p' = "on_connection p 7 (db_tables p)"])
        (use that assms(7) hash last in \<open>simp add: db_bind_def row [unfolded that(3)] store_text_exact
          read_plain [of _ _ 256 "sha256 env pw"]
          read_unterminated [of _ _ 64 "ur_username u @ [stack_junk env 64]"]\<close>)
  qed
  ultimately show ?thesis by blast
qed

definition long_row :: user_row where
  "long_row = (bob_row ''pw'')\<lparr>ur_username := replicate 65 CHR ''x''\<rparr>"

theorem long_names_lock_out_witness:
  "fst (db_verify_user healthy_env (replicate 65 CHR ''x'') ''pw'' blank_user
     (start_pool\<lparr>db_tables := no_tables\<lparr>users := [long_row]\<rparr>\<rparr>)) = Done (False, blank_user)"
  using long_names_lock_out [OF healthy_env_follows(2,1), of
      "start_pool\<lparr>db_tables := no_tables\<lparr>users := [long_row]\<rparr>\<rparr>" "replicate 65 CHR ''x''" long_row "''pw''"
      blank_user]
  by (simp add: start_pool_def long_row_def bob_row_def users_named_def same_text_def int_max_def)

section \<open>Message histories\<close>

lemma fetch_int: "fetch_column env (Int_column (sint (x :: i32))) (Int_buffer v) = (True, Int_buffer x)"
  using sint_greater_eq [of x] sint_less [of x] by simp

definition message_columns :: "message_row \<Rightarrow> column list" where
  "message_columns m = [Int_column (int (mr_msg_id m)), Int_column (sint (mr_from_id m)),
     Int_column (sint (mr_to_id m)), Text_column (mr_content m), Text_column (mr_timestamp m)]"

definition message_of :: "message_row \<Rightarrow> chat_message" where
  "message_of m = \<lparr>m_msg_id = word_of_nat (mr_msg_id m), m_from_id = mr_from_id m,
     m_to_id = mr_to_id m, m_content = mr_content m, m_timestamp = mr_timestamp m\<rparr>"

text \<open>Rows as MySQL prints them: 19 characters of time; contents that do not end exactly at the buffer.\<close>

definition readable_message :: "message_row \<Rightarrow> bool" where
  "readable_message m \<longleftrightarrow> mr_msg_id m \<le> int_max \<and> CHR 0x00 \<notin> set (mr_content m) \<and>
     length (mr_content m) \<noteq> 4095 \<and> length (mr_timestamp m) = 19 \<and> CHR 0x00 \<notin> set (mr_timestamp m)"

definition message_bufs :: "char \<Rightarrow> bind_buffer list \<Rightarrow> bool" where
  "message_bufs junk bufs \<longleftrightarrow> (\<exists>a b c d e. bufs = [Int_buffer a, Int_buffer b, Int_buffer c,
     Text_buffer 4095 d, Text_buffer 19 e] \<and> drop 19 e = [junk])"

lemma fetch_message:
  assumes "library_works env" and "readable_message m" and "message_bufs junk bufs"
  obtains bufs' where "\<And>p rs. mysql_stmt_fetch env (message_columns m # rs) bufs p
      = (Done (length (mr_content m) < 4095, bufs'), p\<lparr>db_clock := Suc (db_clock p)\<rparr>)"
    "message_bufs junk bufs'"
    "\<And>p. length (mr_content m) < 4095 \<Longrightarrow> read_message bufs' p
       = (if junk = CHR 0x00 then (Done (message_of m), p) else (Overread, p))"
proof -
  obtain a b c d e where bufs: "bufs = [Int_buffer a, Int_buffer b, Int_buffer c, Text_buffer 4095 d,
      Text_buffer 19 e]" and e: "drop 19 e = [junk]"
    using assms(3) by (auto simp: message_bufs_def)
  let ?bufs = "[Int_buffer (word_of_nat (mr_msg_id m)), Int_buffer (mr_from_id m), Int_buffer (mr_to_id m),
    Text_buffer 4095 (snd (store_text 4095 (mr_content m) d)), Text_buffer 19 (mr_timestamp m @ [junk])]"
  have ts: "store_text 19 (mr_timestamp m) e = (True, mr_timestamp m @ [junk])"
    using assms(2) e by (simp add: readable_message_def store_text_exact)
  show thesis
  proof (rule that [of ?bufs])
    show "mysql_stmt_fetch env (message_columns m # rs) bufs p
      = (Done (length (mr_content m) < 4095, ?bufs), p\<lparr>db_clock := Suc (db_clock p)\<rparr>)" for p rs
      using assms(2) ts
      by (simp add: mysql_stmt_fetch_row [OF assms(1)] message_columns_def bufs readable_message_def
          fetch_id fetch_int text_fetch [OF assms(1)] less_le del: fetch_column.simps)
    show "message_bufs junk ?bufs"
      using assms(2) by (auto simp: message_bufs_def readable_message_def)
    fix p :: pool
    assume short: "length (mr_content m) < 4095"
    then have content: "read_text ?bufs 3 p = (Done (mr_content m), p)"
      using assms(2) by (intro read_plain [of _ _ 4095 _ "drop (Suc (length (mr_content m))) d"])
        (simp_all add: store_text_plain plain_text_def readable_message_def)
    have stamp: "read_text ?bufs 4 p
        = (if junk = CHR 0x00 then (Done (mr_timestamp m), p) else (Overread, p))" for p
      using assms(2) read_plain [of ?bufs 4 19 "mr_timestamp m" "[]"]
      by (auto simp: readable_message_def intro: read_unterminated)
    show "read_message ?bufs p = (if junk = CHR 0x00 then (Done (message_of m), p) else (Overread, p))"
      unfolding read_message_def
      by (simp only: db_bind_def content stamp prod.case outcome.case) (simp add: returns_def message_of_def)
  qed
qed

lemma fetch_messages:
  assumes "library_works env" and "\<forall>m\<in>set ms. readable_message m" and "message_bufs (CHR 0x00) bufs"
  shows "\<exists>k. fetch_while env read_message (map message_columns ms) bufs acc p
    = (Done (acc @ map message_of (takeWhile (\<lambda>m. length (mr_content m) < 4095) ms)),
       p\<lparr>db_clock := db_clock p + k\<rparr>)"
  using assms(2,3)
proof (induction ms arbitrary: bufs acc p)
  case Nil
  show ?case by (intro exI [of _ 1]) (simp add: db_bind_def mysql_stmt_fetch_end returns_def)
next
  case (Cons m ms)
  obtain bufs' where f: "\<And>p rs. mysql_stmt_fetch env (message_columns m # rs) bufs p
      = (Done (length (mr_content m) < 4095, bufs'), p\<lparr>db_clock := Suc (db_clock p)\<rparr>)"
    and b: "message_bufs (CHR 0x00) bufs'"
    and r: "\<And>p. length (mr_content m) < 4095 \<Longrightarrow> read_message bufs' p = (Done (message_of m), p)"
    using fetch_message [OF assms(1) _ Cons.prems(2), of m] Cons.prems(1) by auto
  show ?case
  proof (cases "length (mr_content m) < 4095")
    case True
    obtain k where k: "fetch_while env read_message (map message_columns ms) bufs' (acc @ [message_of m])
        (p\<lparr>db_clock := Suc (db_clock p)\<rparr>) = (Done ((acc @ [message_of m]) @
        map message_of (takeWhile (\<lambda>m. length (mr_content m) < 4095) ms)), p\<lparr>db_clock := Suc (db_clock p) + k\<rparr>)"
      using Cons.IH [OF _ b, of "acc @ [message_of m]" "p\<lparr>db_clock := Suc (db_clock p)\<rparr>"] Cons.prems(1)
      by auto
    show ?thesis
      by (intro exI [of _ "Suc k"]) (simp add: db_bind_def f r [OF True] True k [simplified])
  next
    case False
    then show ?thesis by (intro exI [of _ 1]) (simp add: db_bind_def f returns_def)
  qed
qed

definition conversation :: "sql_rules \<Rightarrow> tables \<Rightarrow> i32 \<Rightarrow> i32 \<Rightarrow> nat \<Rightarrow> message_row list" where
  "conversation ru t a b limit = take limit (newest_first ru
     (filter (\<lambda>m. (mr_from_id m = a \<and> mr_to_id m = b) \<or> (mr_from_id m = b \<and> mr_to_id m = a)) (messages t)))"

lemma select_conversation: "select_messages ru t a b limit = map message_columns (conversation ru t a b limit)"
  by (simp add: select_messages_def conversation_def message_columns_def)

lemma on_connection_clock:
  "(on_connection p n t)\<lparr>db_clock := db_clock (on_connection p n t) + k\<rparr> = on_connection p (n + k) t"
  by (simp add: on_connection_def)

lemma start_message_bufs:
  "message_bufs (stack_junk env 19) [Int_buffer a, Int_buffer b, Int_buffer c,
     Text_buffer 4095 (stack_array env 4096), Text_buffer 19 (stack_array env 20)]"
  using stack_array_last [of 19 env] by (simp add: message_bufs_def)

text \<open>
  C38. \<open>get_messages\<close> reports success and appends the newest messages of the two users, oldest
  first, but only up to the first one whose content does not fit the 4095-byte buffer: that one and
  everything older is left out without an error. This needs luck: the 19 bytes announced for the
  timestamp are exactly its length, so no NUL is stored, and unless the uninitialised last byte of
  the array is 0 the server reads past it on the first message.
\<close>

theorem history_is_cut_short:
  assumes "library_works env" and "follows_schema ru env" and "idle_conns p \<noteq> []"
    and "0 \<le> sint limit"
    and "\<forall>m\<in>set (conversation ru (db_tables p) a b (unat limit)). readable_message m"
  shows "(stack_junk env 19 = CHR 0x00 \<longrightarrow>
      fst (db_get_messages env a b acc limit p) = Done (True, rev (acc @ map message_of
        (takeWhile (\<lambda>m. length (mr_content m) < 4095) (conversation ru (db_tables p) a b (unat limit)))))) \<and>
    (stack_junk env 19 \<noteq> CHR 0x00 \<and> (\<exists>m ms. conversation ru (db_tables p) a b (unat limit) = m # ms \<and>
        length (mr_content m) < 4095) \<longrightarrow>
      fst (db_get_messages env a b acc limit p) = Overread)"
proof -
  let ?ms = "conversation ru (db_tables p) a b (unat limit)"
  let ?bufs = "[Int_buffer (stack_int env), Int_buffer (stack_int env), Int_buffer (stack_int env),
    Text_buffer 4095 (stack_array env 4096), Text_buffer 19 (stack_array env 20)]"
  have q: "run_sql ru (Select_messages a b limit) p = (Some (map message_columns ?ms, 0), db_tables p)"
    using assms(4) by (simp add: run_sql_def rows_def select_conversation)
  have "fst (db_get_messages env a b acc limit p) = Done (True, rev (acc @ map message_of
      (takeWhile (\<lambda>m. length (mr_content m) < 4095) ?ms)))" if "stack_junk env 19 = CHR 0x00"
  proof -
    have b0: "message_bufs (CHR 0x00) ?bufs"
      using start_message_bufs [of env] that by metis
    obtain k where k: "fetch_while env read_message (map message_columns ?ms) ?bufs acc
        (on_connection p 6 (db_tables p)) = (Done (acc @ map message_of
          (takeWhile (\<lambda>m. length (mr_content m) < 4095) ?ms)), on_connection p (6 + k) (db_tables p))"
      using fetch_messages [OF assms(1,5) b0]
      unfolding on_connection_clock [symmetric] by blast
    have "db_get_messages env a b acc limit p = (Done (True, rev (acc @ map message_of
        (takeWhile (\<lambda>m. length (mr_content m) < 4095) ?ms))), after_call p (6 + k) (db_tables p))"
      unfolding db_get_messages_def
      by (rule query_runs [OF assms(1-3) q]) (simp only: db_bind_def k prod.case outcome.case returns_def)
    then show ?thesis by simp
  qed
  moreover have "fst (db_get_messages env a b acc limit p) = Overread"
    if junk: "stack_junk env 19 \<noteq> CHR 0x00" and ms: "?ms = m # ms" "length (mr_content m) < 4095" for m ms
  proof -
    obtain bufs' where f: "\<And>p rs. mysql_stmt_fetch env (message_columns m # rs) ?bufs p
        = (Done (length (mr_content m) < 4095, bufs'), p\<lparr>db_clock := Suc (db_clock p)\<rparr>)"
      and r: "\<And>p. read_message bufs' p = (Overread, p)"
      using fetch_message [OF assms(1) _ start_message_bufs, of m "stack_int env" "stack_int env" "stack_int env"]
        assms(5) ms junk by (metis list.set_intros(1))
    show ?thesis
      unfolding db_get_messages_def
      by (rule query_overreads [OF assms(1-3) q])
        (simp add: ms db_bind_def f r)
  qed
  ultimately show ?thesis by blast
qed

definition hi_row :: message_row where
  "hi_row = \<lparr>mr_msg_id = 1, mr_from_id = 1, mr_to_id = 2, mr_content = ''hi'',
     mr_timestamp = ''2025-01-01 00:00:00''\<rparr>"

theorem history_is_cut_short_witness:
  "fst (db_get_messages healthy_env 1 2 [] 50 (start_pool\<lparr>db_tables := no_tables\<lparr>messages := [hi_row]\<rparr>\<rparr>))
     = Done (True, [message_of hi_row])"
proof -
  have "conversation plain_rules (no_tables\<lparr>messages := [hi_row]\<rparr>) 1 2 50 = [hi_row]"
    by (simp add: conversation_def hi_row_def plain_rules_def)
  then show ?thesis
    using history_is_cut_short [OF healthy_env_follows(2,1), of
        "start_pool\<lparr>db_tables := no_tables\<lparr>messages := [hi_row]\<rparr>\<rparr>" 50 1 2 "[]"]
    by (simp add: start_pool_def readable_message_def hi_row_def int_max_def healthy_env_def)
qed

section \<open>Friend lists\<close>

text \<open>What the friend query shows of the rows fs of \<open>friends\<close>: id, name and avatar of each friend.\<close>

definition friend_entries :: "tables \<Rightarrow> friend_row list \<Rightarrow> (i32 \<times> string \<times> string option) list" where
  "friend_entries t fs =
     concat (map (\<lambda>f. map (\<lambda>u. (fr_friend_id f, ur_username u, ur_avatar_url u))
                       (users_with_id t (fr_friend_id f))) fs)"

definition entry_columns :: "i32 \<times> string \<times> string option \<Rightarrow> column list" where
  "entry_columns e = (case e of (i, n, a) \<Rightarrow> [Int_column (sint i), Text_column n, text_or_null a])"

lemma select_friend_entries:
  "select_friends ru now t i = map entry_columns (friend_entries t (scan_order ru now (friends_of t i)))"
  by (simp add: select_friends_def friend_entries_def entry_columns_def map_concat o_def)

definition readable_entry :: "i32 \<times> string \<times> string option \<Rightarrow> bool" where
  "readable_entry e \<longleftrightarrow> plain_text 64 (fst (snd e)) \<and> pred_option (plain_text 256) (snd (snd e))"

text \<open>
  The avatar of a friend who has none is the one of the row before, and at first what the stack held.
\<close>

fun carry_avatars :: "i32 \<Rightarrow> string \<Rightarrow> (i32 \<times> string \<times> string option) list \<Rightarrow> friend list" where
  "carry_avatars i last_avatar [] = []"
| "carry_avatars i last_avatar ((j, n, a) # es) =
     (let avatar = case a of None \<Rightarrow> last_avatar | Some s \<Rightarrow> s
      in \<lparr>f_user_id = i, f_friend_id = j, f_friend_name = n, f_avatar_url = avatar\<rparr>
           # carry_avatars i avatar es)"

definition friend_bufs :: "string \<Rightarrow> bind_buffer list \<Rightarrow> bool" where
  "friend_bufs cur bufs \<longleftrightarrow>
     (\<exists>a b c. bufs = [Int_buffer a, Text_buffer 64 b, Text_buffer 256 c] \<and> c_string c = Done cur)"

lemma fetch_friend:
  assumes "library_works env" and "readable_entry (j, n, a)" and "friend_bufs cur bufs"
  obtains bufs' where "\<And>p rs. mysql_stmt_fetch env (entry_columns (j, n, a) # rs) bufs p
      = (Done (True, bufs'), p\<lparr>db_clock := Suc (db_clock p)\<rparr>)"
    "friend_bufs (case a of None \<Rightarrow> cur | Some s \<Rightarrow> s) bufs'"
    "int_at bufs' 0 = j" "\<And>p. read_text bufs' 1 p = (Done n, p)"
    "\<And>p. read_text bufs' 2 p = (Done (case a of None \<Rightarrow> cur | Some s \<Rightarrow> s), p)"
proof -
  obtain x b c where bufs: "bufs = [Int_buffer x, Text_buffer 64 b, Text_buffer 256 c]" "c_string c = Done cur"
    using assms(3) by (auto simp: friend_bufs_def)
  let ?c = "case a of None \<Rightarrow> c | Some s \<Rightarrow> s @ CHR 0x00 # drop (Suc (length s)) c"
  let ?bufs = "[Int_buffer j, Text_buffer 64 (n @ CHR 0x00 # drop (Suc (length n)) b), Text_buffer 256 ?c]"
  have plain: "plain_text 64 n" "pred_option (plain_text 256) a"
    using assms(2) by (simp_all add: readable_entry_def)
  have avatar: "c_string ?c = Done (case a of None \<Rightarrow> cur | Some s \<Rightarrow> s)"
    using plain(2) bufs(2) by (cases a) (simp_all add: c_string_plain plain_text_def)
  show thesis
  proof (rule that [of ?bufs])
    show "mysql_stmt_fetch env (entry_columns (j, n, a) # rs) bufs p
      = (Done (True, ?bufs), p\<lparr>db_clock := Suc (db_clock p)\<rparr>)" for p rs
      using plain fetch_plain [OF assms(1)]
      by (cases a) (simp_all add: mysql_stmt_fetch_row [OF assms(1)] entry_columns_def bufs fetch_int
        fetch_column.simps(3) del: fetch_column.simps(1,2,4-))
    show "friend_bufs (case a of None \<Rightarrow> cur | Some s \<Rightarrow> s) ?bufs"
      using avatar by (simp add: friend_bufs_def)
    show "int_at ?bufs 0 = j" by simp
    fix p :: pool
    show "read_text ?bufs 1 p = (Done n, p)"
      by (rule read_plain [of _ _ 64]) (use plain in \<open>auto simp: plain_text_def\<close>)
    show "read_text ?bufs 2 p = (Done (case a of None \<Rightarrow> cur | Some s \<Rightarrow> s), p)"
      using avatar by (simp add: read_text_def lift_outcome_def)
  qed
qed

lemma read_friend_runs:
  assumes "int_at bufs 0 = j" and "\<And>p. read_text bufs 1 p = (Done n, p)"
    and "\<And>p. read_text bufs 2 p = (Done a, p)"
  shows "read_friend i bufs p
    = (Done \<lparr>f_user_id = i, f_friend_id = j, f_friend_name = n, f_avatar_url = a\<rparr>, p)"
  unfolding read_friend_def
  by (simp only: db_bind_def assms prod.case outcome.case) (simp add: returns_def)

lemma fetch_friends:
  assumes "library_works env" and "\<forall>e\<in>set es. readable_entry e" and "friend_bufs cur bufs"
  shows "\<exists>k. fetch_while env (read_friend i) (map entry_columns es) bufs acc p
    = (Done (acc @ carry_avatars i cur es), p\<lparr>db_clock := db_clock p + k\<rparr>)"
  using assms(2,3)
proof (induction es arbitrary: cur bufs acc p)
  case Nil
  show ?case by (intro exI [of _ 1]) (simp add: db_bind_def mysql_stmt_fetch_end returns_def)
next
  case (Cons e es)
  obtain j n a where e: "e = (j, n, a)" by (cases e)
  let ?avatar = "case a of None \<Rightarrow> cur | Some s \<Rightarrow> s"
  let ?f = "\<lparr>f_user_id = i, f_friend_id = j, f_friend_name = n, f_avatar_url = ?avatar\<rparr>"
  obtain bufs' where f: "\<And>p rs. mysql_stmt_fetch env (entry_columns (j, n, a) # rs) bufs p
      = (Done (True, bufs'), p\<lparr>db_clock := Suc (db_clock p)\<rparr>)"
    and b: "friend_bufs ?avatar bufs'" and texts: "int_at bufs' 0 = j" "\<And>p. read_text bufs' 1 p = (Done n, p)"
      "\<And>p. read_text bufs' 2 p = (Done ?avatar, p)"
    using fetch_friend [OF assms(1) _ Cons.prems(2), of j n a] Cons.prems(1) e by auto
  note r = read_friend_runs [OF texts, of i]
  obtain k where k: "fetch_while env (read_friend i) (map entry_columns es) bufs' (acc @ [?f])
      (p\<lparr>db_clock := Suc (db_clock p)\<rparr>)
      = (Done ((acc @ [?f]) @ carry_avatars i ?avatar es), p\<lparr>db_clock := Suc (db_clock p) + k\<rparr>)"
    using Cons.IH [OF _ b, of "acc @ [?f]" "p\<lparr>db_clock := Suc (db_clock p)\<rparr>"] Cons.prems(1) by auto
  show ?case
    by (intro exI [of _ "Suc k"]) (simp add: db_bind_def e f r k [simplified] Let_def)
qed

text \<open>The rows of the friend query on the pool p, in the order the database server returns them.\<close>

definition friend_answer :: "sql_rules \<Rightarrow> pool \<Rightarrow> i32 \<Rightarrow> (i32 \<times> string \<times> string option) list" where
  "friend_answer ru p i =
     friend_entries (db_tables p) (scan_order ru (db_clock p + 4) (friends_of (db_tables p) i))"

lemma mset_concat_map: "mset (concat (map g xs)) = (\<Sum>x\<in>#mset xs. mset (g x))"
  by (induction xs) simp_all

lemma mset_friend_entries: "mset fs = mset gs \<Longrightarrow> mset (friend_entries t fs) = mset (friend_entries t gs)"
  by (simp only: friend_entries_def mset_concat_map)

lemma friend_answer_mset:
  assumes "follows_schema ru env"
  shows "mset (friend_answer ru p i) = mset (friend_entries (db_tables p) (friends_of (db_tables p) i))"
  using assms by (auto simp: friend_answer_def follows_schema_def intro: mset_friend_entries)

lemma get_friends_runs:
  assumes "library_works env" and "follows_schema ru env" and "idle_conns p \<noteq> []"
    and "\<forall>e\<in>set (friend_answer ru p i). readable_entry e"
    and "c_string (stack_array env 257) = Done junk"
  shows "\<exists>k. db_get_friends env i acc p
    = (Done (True, acc @ carry_avatars i junk (friend_answer ru p i)), after_call p k (db_tables p))"
proof -
  let ?bufs = "[Int_buffer (stack_int env), Text_buffer 64 (stack_array env 65),
    Text_buffer 256 (stack_array env 257)]"
  let ?es = "friend_answer ru p i"
  have q: "run_sql ru (Select_friends i) p = (Some (map entry_columns ?es, 0), db_tables p)"
    by (simp add: run_sql_def rows_def select_friend_entries friend_answer_def)
  have "friend_bufs junk ?bufs" using assms(5) by (simp add: friend_bufs_def)
  then obtain k where k: "fetch_while env (read_friend i) (map entry_columns ?es) ?bufs acc
      (on_connection p 6 (db_tables p))
      = (Done (acc @ carry_avatars i junk ?es), on_connection p (6 + k) (db_tables p))"
    using fetch_friends [OF assms(1,4)] unfolding on_connection_clock [symmetric] by blast
  have "db_get_friends env i acc p
      = (Done (True, acc @ carry_avatars i junk ?es), after_call p (6 + k) (db_tables p))"
    unfolding db_get_friends_def
    by (rule query_runs [OF assms(1-3) q]) (simp only: db_bind_def k prod.case outcome.case returns_def)
  then show ?thesis by blast
qed

text \<open>
  C39. \<open>get_friends\<close> appends every friend of the user once for each row of \<open>friends\<close>, with his own id
  and name, in the order the database server happens to return the rows (the query has no
  \<open>ORDER BY\<close>). A friend without an avatar gets the avatar shown for the row returned just before,
  because a \<open>NULL\<close> column leaves the shared buffer alone, and the first one what the array held
  before: whose avatar it is depends on that order.
\<close>

theorem friends_inherit_avatars:
  assumes "library_works env" and "follows_schema ru env" and "idle_conns p \<noteq> []"
    and "\<forall>e\<in>set (friend_entries (db_tables p) (friends_of (db_tables p) i)). readable_entry e"
    and "c_string (stack_array env 257) = Done junk"
  shows "fst (db_get_friends env i acc p) = Done (True, acc @ carry_avatars i junk (friend_answer ru p i)) \<and>
    mset (friend_answer ru p i) = mset (friend_entries (db_tables p) (friends_of (db_tables p) i))"
proof -
  note same = friend_answer_mset [OF assms(2), of p i]
  then have "\<forall>e\<in>set (friend_answer ru p i). readable_entry e" using assms(4) by (metis set_mset_mset)
  from get_friends_runs [OF assms(1-3) this assms(5), of acc] same show ?thesis by auto
qed

text \<open>
  Two answers to the same question: Bob has an avatar and Eve has none, and in one order of the rows
  she is shown with his, in the other one without.
\<close>

definition pair_tables :: tables where
  "pair_tables = no_tables\<lparr>
     users := [(bob_row ''pw'')\<lparr>ur_user_id := 2, ur_avatar_url := Some ''bob.png''\<rparr>,
               (bob_row ''pw'')\<lparr>ur_user_id := 3, ur_username := ''eve''\<rparr>],
     friends := [\<lparr>fr_id = 1, fr_user_id = 1, fr_friend_id = 2, fr_status = 1\<rparr>,
                 \<lparr>fr_id = 2, fr_user_id = 1, fr_friend_id = 3, fr_status = 1\<rparr>]\<rparr>"

definition backward_rules :: sql_rules where
  "backward_rules = plain_rules\<lparr>scan_order := \<lambda>_. rev\<rparr>"

definition backward_env :: mysql_env where
  "backward_env = healthy_env\<lparr>service := (\<lambda>now q t. case sql_run backward_rules now q t of
     None \<Rightarrow> (None, t) | Some (rs, i, t') \<Rightarrow> (Some (rs, i), t'))\<rparr>"

lemma backward_env_follows: "follows_schema backward_rules backward_env" "library_works backward_env"
  using healthy_env_follows(2)
  by (simp_all add: follows_schema_def library_works_def backward_env_def) (simp add: backward_rules_def)

lemma pair_entries:
  "friend_entries pair_tables (friends_of pair_tables 1) = [(2, ''bob'', Some ''bob.png''), (3, ''eve'', None)]"
  "friend_entries pair_tables (rev (friends_of pair_tables 1)) = [(3, ''eve'', None), (2, ''bob'', Some ''bob.png'')]"
  by (simp_all add: friend_entries_def friends_of_def pair_tables_def users_with_id_def user_id_of_def bob_row_def)

lemma pair_answers:
  "friend_answer plain_rules (start_pool\<lparr>db_tables := pair_tables\<rparr>) 1
     = [(2, ''bob'', Some ''bob.png''), (3, ''eve'', None)]"
  "friend_answer backward_rules (start_pool\<lparr>db_tables := pair_tables\<rparr>) 1
     = [(3, ''eve'', None), (2, ''bob'', Some ''bob.png'')]"
  by (simp_all add: friend_answer_def plain_rules_def backward_rules_def pair_entries)

theorem friends_inherit_avatars_witness:
  "fst (db_get_friends healthy_env 1 [] (start_pool\<lparr>db_tables := pair_tables\<rparr>))
     = Done (True, [\<lparr>f_user_id = 1, f_friend_id = 2, f_friend_name = ''bob'', f_avatar_url = ''bob.png''\<rparr>,
                    \<lparr>f_user_id = 1, f_friend_id = 3, f_friend_name = ''eve'', f_avatar_url = ''bob.png''\<rparr>]) \<and>
   fst (db_get_friends backward_env 1 [] (start_pool\<lparr>db_tables := pair_tables\<rparr>))
     = Done (True, [\<lparr>f_user_id = 1, f_friend_id = 3, f_friend_name = ''eve'', f_avatar_url = []\<rparr>,
                    \<lparr>f_user_id = 1, f_friend_id = 2, f_friend_name = ''bob'', f_avatar_url = ''bob.png''\<rparr>])"
proof -
  let ?p = "start_pool\<lparr>db_tables := pair_tables\<rparr>"
  have junk: "c_string (stack_array healthy_env 257) = Done []" "c_string (stack_array backward_env 257) = Done []"
    by (simp_all add: c_string_def stack_array_def healthy_env_def backward_env_def upt_rec [of 0])
  have idle: "idle_conns ?p \<noteq> []" by (simp add: start_pool_def)
  have read: "\<forall>e\<in>set (friend_entries (db_tables ?p) (friends_of (db_tables ?p) 1)). readable_entry e"
    by (simp add: pair_entries readable_entry_def plain_text_def)
  show ?thesis
    using friends_inherit_avatars [OF healthy_env_follows(2,1) idle read junk(1), of "[]"]
      friends_inherit_avatars [OF backward_env_follows(2,1) idle read junk(2), of "[]"]
    by (simp add: pair_answers Let_def)
qed

section \<open>Inserts when the library works\<close>

lemma send_message_runs:
  assumes "library_works env" and "follows_schema ru env" and "idle_conns p \<noteq> []"
  shows "db_send_message env i j content m p =
    (case insert_message ru (db_clock p + 4) i j content (db_tables p) of
       None \<Rightarrow> (Done (False, m), after_call p 5 (db_tables p))
     | Some (_, k, t) \<Rightarrow> (Done (True, word_of_nat k), after_call p 5 t))"
proof (cases "insert_message ru (db_clock p + 4) i j content (db_tables p)")
  case None
  then have "run_sql ru (Insert_message i j content) p = (None, db_tables p)" by (simp add: run_sql_def)
  then show ?thesis by (simp add: db_send_message_def insert_runs [OF assms] None)
next
  case (Some z)
  obtain rs k t where z: "z = (rs, k, t)" by (cases z)
  then have "run_sql ru (Insert_message i j content) p = (Some (rs, k), t)" by (simp add: run_sql_def Some)
  then show ?thesis by (simp add: db_send_message_def insert_runs [OF assms] Some z)
qed

lemma add_friend_runs:
  assumes "library_works env" and "follows_schema ru env" and "idle_conns p \<noteq> []"
  shows "db_add_friend env i j p =
    (case insert_friend i j (db_tables p) of
       None \<Rightarrow> (Done False, after_call p 5 (db_tables p))
     | Some (_, k, t) \<Rightarrow> (Done True, after_call p 5 t))"
proof (cases "insert_friend i j (db_tables p)")
  case None
  then have "run_sql ru (Insert_friend i j) p = (None, db_tables p)" by (simp add: run_sql_def)
  then show ?thesis by (simp add: db_add_friend_def update_runs [OF assms] None)
next
  case (Some z)
  obtain rs k t where z: "z = (rs, k, t)" by (cases z)
  then have "run_sql ru (Insert_friend i j) p = (Some (rs, k), t)" by (simp add: run_sql_def Some)
  then show ?thesis by (simp add: db_add_friend_def update_runs [OF assms] Some z)
qed

definition two_users :: tables where
  "two_users = no_tables\<lparr>users := [bob_row ''pw'', (bob_row ''pw'')\<lparr>ur_user_id := 2, ur_username := ''eve''\<rparr>],
     next_user_id := 3\<rparr>"

lemma two_users_with_id: "users_with_id two_users 1 \<noteq> []" "users_with_id two_users 2 \<noteq> []"
  by (simp_all add: two_users_def users_with_id_def user_id_of_def bob_row_def)

lemma two_users_messages:
  "db_send_message healthy_env 2 1 ''hi'' 0 (start_pool\<lparr>db_tables := two_users\<rparr>)
     = (Done (True, 1), after_call (start_pool\<lparr>db_tables := two_users\<rparr>) 5
          (two_users\<lparr>messages := [\<lparr>mr_msg_id = 1, mr_from_id = 2, mr_to_id = 1, mr_content = ''hi'',
             mr_timestamp = ''2025-01-01 00:00:00''\<rparr>], next_msg_id := 2\<rparr>))"
proof -
  have "insert_message plain_rules 4 2 1 ''hi'' two_users = Some ([], 1,
      two_users\<lparr>messages := [\<lparr>mr_msg_id = 1, mr_from_id = 2, mr_to_id = 1, mr_content = ''hi'',
             mr_timestamp = ''2025-01-01 00:00:00''\<rparr>], next_msg_id := 2\<rparr>)"
    using two_users_with_id
    by (simp add: insert_message_def plain_rules_def bigint_max_def) (simp add: two_users_def no_tables_def)
  then show ?thesis
    by (simp add: send_message_runs [OF healthy_env_follows(2,1)] start_pool_def new_pool_def)
qed

section \<open>A user by id\<close>

lemma users_with_id_cases:
  assumes "schema_ok ru t"
  obtains "users_with_id t i = []" | u where "users_with_id t i = [u]" "u \<in> set (users t)" "user_id_of u = i"
proof (cases "users_with_id t i")
  case (Cons u us)
  have mem: "v \<in> set (u # us) \<longleftrightarrow> v \<in> set (users t) \<and> user_id_of v = i" for v
    unfolding Cons [symmetric] by (auto simp: users_with_id_def)
  have small: "v \<in> set (users t) \<Longrightarrow> ur_user_id v < 2 ^ 32" for v
    using assms by (auto simp: schema_ok_def int_max_def dest!: users_okD(3))
  have d: "distinct (map ur_user_id (u # us))"
    using assms unfolding Cons [symmetric] users_with_id_def schema_ok_def
    by (auto intro: distinct_map_filter dest: users_okD(2))
  have same: "ur_user_id v = ur_user_id u" if "v \<in> set us" for v
  proof -
    have "unat (word_of_nat (ur_user_id v) :: i32) = unat (word_of_nat (ur_user_id u) :: i32)"
      using mem that by (metis list.set_intros user_id_of_def)
    moreover have "v \<in> set (users t)" "u \<in> set (users t)" using mem [of v] mem [of u] that by simp_all
    ultimately show ?thesis using small [of v] small [of u] by (simp add: unat_of_nat)
  qed
  have "us = []"
  proof (rule ccontr)
    assume "us \<noteq> []"
    then obtain v where v: "v \<in> set us" by (cases us) auto
    from same [OF v] v have "ur_user_id u \<in> ur_user_id ` set us" by (metis imageI)
    then show False using d by simp
  qed
  moreover have "u \<in> set (users t)" "user_id_of u = i" using mem [of u] by simp_all
  ultimately show thesis using that(2) [of u] Cons by simp
qed (rule that(1))

lemma id_column:
  assumes "k \<le> int_max"
  shows "Int_column (int k) = Int_column (sint (word_of_nat k :: i32))"
proof -
  have "sint (word_of_nat k :: i32) = int k"
    using assms by (simp add: int_max_def signed_of_nat signed_take_bit_int_eq_self)
  then show ?thesis by simp
qed

definition plain_avatar :: "user_row \<Rightarrow> bool" where
  "plain_avatar u \<longleftrightarrow> pred_option (plain_text 256) (ur_avatar_url u)"

lemma get_user_by_id_runs:
  assumes "account_ready ru env p" and "\<forall>u\<in>set (users (db_tables p)). plain_avatar u"
    and "c_string (stack_array env 257) = Done junk"
  shows "db_get_user_by_id env i user p =
    (Done (case users_with_id (db_tables p) i of
       [] \<Rightarrow> (False, user)
     | u # _ \<Rightarrow> (True, user\<lparr>u_user_id := i, u_username := ur_username u,
         u_avatar_url := (case ur_avatar_url u of None \<Rightarrow> junk | Some s \<Rightarrow> s)\<rparr>)), after_call p 7 (db_tables p))"
proof -
  have lib: "library_works env" "follows_schema ru env" "idle_conns p \<noteq> []" and ok: "schema_ok ru (db_tables p)"
    using assms(1) by (simp_all add: account_ready_def)
  let ?rs = "map (\<lambda>u. [Int_column (int (ur_user_id u)), Text_column (ur_username u), text_or_null (ur_avatar_url u)])
     (users_with_id (db_tables p) i)"
  have q: "run_sql ru (Select_user_by_id i) p = (Some (?rs, 0), db_tables p)"
    by (simp add: run_sql_def rows_def)
  let ?bufs = "[Int_buffer (u_user_id user), Text_buffer 64 (stack_array env 65),
    Text_buffer 256 (stack_array env 257)]"
  have bufs: "friend_bufs junk ?bufs" using assms(3) by (simp add: friend_bufs_def)
  show ?thesis
    unfolding db_get_user_by_id_def fetch_user_def
  proof (rule query_runs [OF lib q], cases rule: users_with_id_cases [OF ok, of i])
    case 1
    then show "db_bind (mysql_stmt_fetch env ?rs ?bufs) (\<lambda>(ok, bufs). let user = user\<lparr>u_user_id := int_at bufs 0\<rparr>
        in if ok then db_bind (read_text bufs 1) (\<lambda>name. db_bind (read_text bufs 2) (\<lambda>avatar.
             returns (True, user\<lparr>u_username := name, u_avatar_url := avatar\<rparr>))) else returns (False, user))
      (on_connection p 6 (db_tables p)) = (Done (case users_with_id (db_tables p) i of [] \<Rightarrow> (False, user)
       | u # _ \<Rightarrow> (True, user\<lparr>u_user_id := i, u_username := ur_username u,
           u_avatar_url := (case ur_avatar_url u of None \<Rightarrow> junk | Some s \<Rightarrow> s)\<rparr>)), on_connection p 7 (db_tables p))"
      by (simp add: db_bind_def mysql_stmt_fetch_end returns_def Let_def)
  next
    case (2 u)
    then have cols: "?rs = [entry_columns (i, ur_username u, ur_avatar_url u)]"
      using ok id_column [of "ur_user_id u"] by (auto simp: entry_columns_def schema_ok_def user_id_of_def dest: users_okD(3))
    have "readable_entry (i, ur_username u, ur_avatar_url u)"
      using 2(2) assms(1,2) by (auto simp: readable_entry_def account_ready_def plain_user_def plain_avatar_def)
    then obtain bufs' where f: "\<And>p rs. mysql_stmt_fetch env (entry_columns (i, ur_username u, ur_avatar_url u) # rs) ?bufs p
        = (Done (True, bufs'), p\<lparr>db_clock := Suc (db_clock p)\<rparr>)"
      and texts: "int_at bufs' 0 = i" "\<And>p. read_text bufs' 1 p = (Done (ur_username u), p)"
        "\<And>p. read_text bufs' 2 p = (Done (case ur_avatar_url u of None \<Rightarrow> junk | Some s \<Rightarrow> s), p)"
      by (rule fetch_friend [OF lib(1) _ bufs]) blast
    show "db_bind (mysql_stmt_fetch env ?rs ?bufs) (\<lambda>(ok, bufs). let user = user\<lparr>u_user_id := int_at bufs 0\<rparr>
        in if ok then db_bind (read_text bufs 1) (\<lambda>name. db_bind (read_text bufs 2) (\<lambda>avatar.
             returns (True, user\<lparr>u_username := name, u_avatar_url := avatar\<rparr>))) else returns (False, user))
      (on_connection p 6 (db_tables p)) = (Done (case users_with_id (db_tables p) i of [] \<Rightarrow> (False, user)
       | u # _ \<Rightarrow> (True, user\<lparr>u_user_id := i, u_username := ur_username u,
           u_avatar_url := (case ur_avatar_url u of None \<Rightarrow> junk | Some s \<Rightarrow> s)\<rparr>)), on_connection p 7 (db_tables p))"
      unfolding cols using 2(1)
      by (simp only: db_bind_def f prod.case outcome.case Let_def if_True texts list.case on_connection_tick) 
        (simp add: returns_def)
  qed
qed

end
