(* ===== verification/Cxx_Numbers.thy ===== *)
theory Cxx_Numbers
  imports Qq_Prelude
begin

text \<open>
  The two conversions of the C++ standard library the server uses between numbers and text:
  \<open>std::to_string(int)\<close> (keys of the cache) and \<open>std::stoi\<close> (configuration, values of the cache).
  \<open>stoi\<close> skips white space, takes an optional sign and as many digits as there are, throws when
  there is no digit or the value is no \<open>int\<close>, and says how many characters it used.
\<close>

definition digit_char :: "nat \<Rightarrow> char" where
  "digit_char d = char_of (48 + d)"

definition is_digit :: "char \<Rightarrow> bool" where
  "is_digit c \<longleftrightarrow> 48 \<le> (of_char c :: nat) \<and> (of_char c :: nat) \<le> 57"

definition digit_val :: "char \<Rightarrow> nat" where
  "digit_val c = of_char c - 48"

fun decimal :: "nat \<Rightarrow> string" where
  "decimal n = (if n < 10 then [digit_char n] else decimal (n div 10) @ [digit_char (n mod 10)])"

declare decimal.simps [simp del]

definition to_string :: "int \<Rightarrow> string" where
  "to_string i = (if i < 0 then CHR ''-'' # decimal (nat (- i)) else decimal (nat i))"

definition digits_val :: "string \<Rightarrow> nat" where
  "digits_val = foldl (\<lambda>n c. n * 10 + digit_val c) 0"

datatype stoi_result = Stoi int nat | Invalid_argument | Out_of_range

definition is_space :: "char \<Rightarrow> bool" where
  "is_space c \<longleftrightarrow> c \<in> {CHR '' '', CHR 0x09, CHR 0x0A, CHR 0x0B, CHR 0x0C, CHR 0x0D}"

definition int_in_range :: "int \<Rightarrow> bool" where
  "int_in_range i \<longleftrightarrow> - (2 ^ 31) \<le> i \<and> i < 2 ^ 31"

definition stoi :: "string \<Rightarrow> stoi_result" where
  "stoi str =
     (let spaces = takeWhile is_space str;
          rest = dropWhile is_space str;
          negative = (rest \<noteq> [] \<and> hd rest = CHR ''-'');
          signed = (negative \<or> rest \<noteq> [] \<and> hd rest = CHR ''+'');
          digits = takeWhile is_digit (if signed then tl rest else rest);
          value = (if negative then - int (digits_val digits) else int (digits_val digits))
      in if digits = [] then Invalid_argument
         else if int_in_range value
         then Stoi value (length spaces + (if signed then 1 else 0) + length digits)
         else Out_of_range)"

lemma of_digit_char: "d < 10 \<Longrightarrow> (of_char (digit_char d) :: nat) = 48 + d"
  by (simp add: digit_char_def)

lemma digit_char_props:
  assumes "d < 10"
  shows "is_digit (digit_char d)" "digit_val (digit_char d) = d"
  using assms by (simp_all add: is_digit_def digit_val_def of_digit_char)

lemma is_digit_not_other:
  assumes "is_digit c" shows "\<not> is_space c" "c \<noteq> CHR ''-''" "c \<noteq> CHR ''+''" "c \<noteq> CHR '':''"
  using assms by (auto simp: is_digit_def is_space_def)

lemma decimal_props:
  "decimal n \<noteq> [] \<and> (\<forall>c\<in>set (decimal n). is_digit c) \<and> digits_val (decimal n) = n"
proof (induction n rule: decimal.induct)
  case (1 n)
  show ?case
  proof (cases "n < 10")
    case True
    then show ?thesis by (simp add: decimal.simps digits_val_def digit_char_props)
  next
    case False
    then show ?thesis
      using 1 by (simp add: decimal.simps [of n] digits_val_def digit_char_props)
  qed
qed

lemma takeWhile_all_digits: "\<forall>c\<in>set s. is_digit c \<Longrightarrow> takeWhile is_digit s = s"
  by (simp add: takeWhile_eq_all_conv)

lemma to_string_chars: "c \<in> set (to_string i) \<Longrightarrow> is_digit c \<or> c = CHR ''-''"
  using decimal_props by (auto simp: to_string_def split: if_splits)

lemma stoi_digits:
  assumes "s \<noteq> []" and "\<forall>c\<in>set s. is_digit c"
  shows "stoi s = (if int_in_range (int (digits_val s)) then Stoi (int (digits_val s)) (length s)
      else Out_of_range)"
    and "stoi (CHR ''-'' # s) = (if int_in_range (- int (digits_val s))
      then Stoi (- int (digits_val s)) (Suc (length s)) else Out_of_range)"
proof -
  note tw = takeWhile_all_digits [OF assms(2)]
  obtain c cs where c: "s = c # cs" "is_digit c" using assms by (cases s) auto
  note other = is_digit_not_other [OF c(2)]
  have space: "takeWhile is_space s = []" "dropWhile is_space s = s"
    using c other by simp_all
  show "stoi s = (if int_in_range (int (digits_val s)) then Stoi (int (digits_val s)) (length s)
      else Out_of_range)"
    using c(1) other tw unfolding stoi_def space Let_def by (simp del: takeWhile_eq_all_conv)
  show "stoi (CHR ''-'' # s) = (if int_in_range (- int (digits_val s))
      then Stoi (- int (digits_val s)) (Suc (length s)) else Out_of_range)"
    using assms(1) tw by (simp add: stoi_def is_space_def Let_def del: takeWhile_eq_all_conv)
qed

lemma stoi_to_string:
  assumes "int_in_range i" shows "stoi (to_string i) = Stoi i (length (to_string i))"
proof -
  have d: "decimal n \<noteq> []" "\<forall>c\<in>set (decimal n). is_digit c" "digits_val (decimal n) = n" for n
    using decimal_props by blast+
  show ?thesis
    using assms by (simp add: to_string_def stoi_digits [OF d(1,2)] d(3))
qed

lemma to_string_inj:
  assumes "int_in_range i" and "int_in_range j" and "to_string i = to_string j" shows "i = j"
proof -
  have "Stoi i (length (to_string i)) = stoi (to_string i)"
    by (rule stoi_to_string [OF assms(1), symmetric])
  also have "\<dots> = stoi (to_string j)" by (rule arg_cong [OF assms(3)])
  also have "\<dots> = Stoi j (length (to_string j))" by (rule stoi_to_string [OF assms(2)])
  finally have "i = j \<and> length (to_string i) = length (to_string j)"
    by (rule stoi_result.inject(1) [THEN iffD1])
  then show ?thesis by blast
qed

lemma sint_in_range: "int_in_range (sint (x :: i32))"
  using sint_greater_eq [of x] sint_less [of x] by (simp add: int_in_range_def)

end
