(* ===== verification/Cache_Manager.thy ===== *)
theory Cache_Manager
  imports Cxx_Numbers
begin

text \<open>
  \<open>CacheManager\<close> of server/src/cache_manager.cpp: a thin layer over one hiredis context. hiredis and
  the Redis server are not part of the repository; they are the record \<open>redis_env\<close>, a parameter: what
  a connect, a command, an append and a read of a reply answer, by a clock of calls.

  The state has the context, whether the manager's mutex is held, the commands handed to hiredis so
  far with their variadic arguments, and the number of reply objects that were received and not
  freed. An operation returns a value, ends in an exception of \<open>std::stoi\<close>, or locks a mutex its own
  thread already holds.
\<close>

datatype redis_arg = Str_arg string | Int_arg int | Va_list "redis_arg list"

datatype redis_reply =
    Reply_string string
  | Reply_integer int
  | Reply_nil
  | Reply_status string
  | Reply_error string
  | Reply_array "redis_reply list"

record redis_env =
  redis_connect :: bool
  redis_command :: "nat \<Rightarrow> string \<Rightarrow> redis_arg list \<Rightarrow> redis_reply option"
  redis_append :: "nat \<Rightarrow> string \<Rightarrow> bool"
  redis_get_reply :: "nat \<Rightarrow> redis_reply option"

record cache =
  cache_ctx :: bool
  cache_locked :: bool
  cache_clock :: nat
  cache_sent :: "(string \<times> redis_arg list) list"
  cache_objects :: int

datatype 'a cache_outcome = Returned 'a | Threw | Deadlock

type_synonym 'a cache_op = "cache \<Rightarrow> 'a cache_outcome \<times> cache"

text \<open>The objects of a reply: itself and, for an array, those of its elements, which it owns.\<close>

fun reply_objects :: "redis_reply \<Rightarrow> int" where
  "reply_objects (Reply_array rs) = 1 + sum_list (map reply_objects rs)"
| "reply_objects _ = 1"

fun reply_option_objects :: "redis_reply option \<Rightarrow> int" where
  "reply_option_objects None = 0"
| "reply_option_objects (Some r) = reply_objects r"

section \<open>Context, commands and replies\<close>

definition redis_call :: "redis_env \<Rightarrow> string \<Rightarrow> redis_arg list \<Rightarrow> cache \<Rightarrow> redis_reply option \<times> cache" where
  "redis_call env fmt args c =
     (let r = redis_command env (cache_clock c) fmt args
      in (r, c\<lparr>cache_clock := Suc (cache_clock c), cache_sent := cache_sent c @ [(fmt, args)],
               cache_objects := cache_objects c + reply_option_objects r\<rparr>))"

text \<open>
  The constructor. The reply to \<open>SELECT\<close> is dropped without being freed.
\<close>

definition cache_manager :: "redis_env \<Rightarrow> int \<Rightarrow> cache" where
  "cache_manager env db =
     (let c = \<lparr>cache_ctx = redis_connect env, cache_locked = False, cache_clock = 0, cache_sent = [],
               cache_objects = 0\<rparr>
      in if cache_ctx c then snd (redis_call env ''SELECT %d'' [Int_arg db] c) else c)"

definition destroy_cache :: "cache \<Rightarrow> cache" where
  "destroy_cache c = (if cache_ctx c then c\<lparr>cache_ctx := False\<rparr> else c)"

text \<open>
  \<open>safe_command\<close> packs its arguments into a \<open>va_list\<close> and passes that list, as one argument, to the
  variadic \<open>redisCommand\<close> (and not to \<open>redisvCommand\<close>, which takes a list).
\<close>

definition safe_command :: "redis_env \<Rightarrow> string \<Rightarrow> redis_arg list \<Rightarrow> cache \<Rightarrow> redis_reply option \<times> cache" where
  "safe_command env fmt args c =
     (if \<not> cache_ctx c then (None, c) else redis_call env fmt [Va_list args] c)"

definition free_reply :: "redis_reply option \<Rightarrow> cache \<Rightarrow> cache" where
  "free_reply r c = c\<lparr>cache_objects := cache_objects c - reply_option_objects r\<rparr>"

definition build_key :: "string \<Rightarrow> int \<Rightarrow> string" where
  "build_key prefix user_id = prefix @ '':'' @ to_string user_id"

text \<open>\<open>std::lock_guard\<close> on the non-recursive mutex around a body.\<close>

definition locked :: "'a cache_op \<Rightarrow> 'a cache_op" where
  "locked body c =
     (if cache_locked c then (Deadlock, c)
      else (let (r, c') = body (c\<lparr>cache_locked := True\<rparr>)
            in case r of Deadlock \<Rightarrow> (Deadlock, c') | _ \<Rightarrow> (r, c'\<lparr>cache_locked := False\<rparr>)))"

definition guarded :: "'a \<Rightarrow> 'a cache_op \<Rightarrow> 'a cache_op" where
  "guarded none body = locked (\<lambda>c. if \<not> cache_ctx c then (Returned none, c) else body c)"

section \<open>Operations\<close>

text \<open>The methods that fail on no reply and on an error reply, and the ones that ignore the reply.\<close>

definition set_command :: "redis_env \<Rightarrow> string \<Rightarrow> redis_arg list \<Rightarrow> bool cache_op" where
  "set_command env fmt args = guarded False (\<lambda>c.
     let (reply, c) = safe_command env fmt args c
     in case reply of
          None \<Rightarrow> (Returned False, free_reply reply c)
        | Some (Reply_error _) \<Rightarrow> (Returned False, free_reply reply c)
        | Some _ \<Rightarrow> (Returned True, free_reply reply c))"

definition del_command :: "redis_env \<Rightarrow> string \<Rightarrow> redis_arg list \<Rightarrow> bool cache_op" where
  "del_command env fmt args = guarded False (\<lambda>c.
     let (reply, c) = safe_command env fmt args c in (Returned True, free_reply reply c))"

definition cache_set_online :: "redis_env \<Rightarrow> int \<Rightarrow> bool \<Rightarrow> bool cache_op" where
  "cache_set_online env user_id online =
     set_command env ''SET %s %d''
       [Str_arg (build_key ''user'' user_id @ '':online''), Int_arg (if online then 1 else 0)]"

definition cache_is_online :: "redis_env \<Rightarrow> int \<Rightarrow> bool cache_op" where
  "cache_is_online env user_id = guarded False (\<lambda>c.
     let (reply, c) = safe_command env ''GET %s'' [Str_arg (build_key ''user'' user_id @ '':online'')] c
     in case reply of
          None \<Rightarrow> (Returned False, c)
        | Some r \<Rightarrow> (Returned (r = Reply_string ''1''), free_reply reply c))"

definition cache_get_connection_id :: "redis_env \<Rightarrow> int \<Rightarrow> string \<Rightarrow> (bool \<times> string) cache_op" where
  "cache_get_connection_id env user_id conn_id = guarded (False, conn_id) (\<lambda>c.
     let (reply, c) = safe_command env ''GET %s'' [Str_arg (build_key ''user'' user_id @ '':conn'')] c
     in case reply of
          None \<Rightarrow> (Returned (False, conn_id), c)
        | Some (Reply_string s) \<Rightarrow> (Returned (True, s), free_reply reply c)
        | Some _ \<Rightarrow> (Returned (False, conn_id), free_reply reply c))"

definition cache_set_connection_id :: "redis_env \<Rightarrow> int \<Rightarrow> string \<Rightarrow> bool cache_op" where
  "cache_set_connection_id env user_id conn_id =
     set_command env ''SET %s %s'' [Str_arg (build_key ''user'' user_id @ '':conn''), Str_arg conn_id]"

definition cache_remove_connection_id :: "redis_env \<Rightarrow> int \<Rightarrow> bool cache_op" where
  "cache_remove_connection_id env user_id =
     del_command env ''DEL %s'' [Str_arg (build_key ''user'' user_id @ '':conn'')]"

definition cache_add_friend :: "redis_env \<Rightarrow> int \<Rightarrow> int \<Rightarrow> bool cache_op" where
  "cache_add_friend env user_id friend_id =
     set_command env ''SADD %s %d'' [Str_arg (build_key ''user'' user_id @ '':friends''), Int_arg friend_id]"

definition cache_remove_friend :: "redis_env \<Rightarrow> int \<Rightarrow> int \<Rightarrow> bool cache_op" where
  "cache_remove_friend env user_id friend_id =
     set_command env ''SREM %s %d'' [Str_arg (build_key ''user'' user_id @ '':friends''), Int_arg friend_id]"

text \<open>The loop over the members: strings are converted, an exception leaves the loop, others are skipped.\<close>

fun push_members :: "redis_reply list \<Rightarrow> int list \<Rightarrow> int list option" where
  "push_members [] fs = Some fs"
| "push_members (Reply_string s # rs) fs =
     (case stoi s of Stoi i _ \<Rightarrow> push_members rs (fs @ [i]) | _ \<Rightarrow> None)"
| "push_members (_ # rs) fs = push_members rs fs"

definition cache_get_friends :: "redis_env \<Rightarrow> int \<Rightarrow> int list \<Rightarrow> (bool \<times> int list) cache_op" where
  "cache_get_friends env user_id fs = guarded (False, fs) (\<lambda>c.
     let (reply, c) = safe_command env ''SMEMBERS %s'' [Str_arg (build_key ''user'' user_id @ '':friends'')] c
     in case reply of
          Some (Reply_array rs) \<Rightarrow>
            (case push_members rs fs of
               None \<Rightarrow> (Threw, c)
             | Some fs' \<Rightarrow> (Returned (True, fs'), free_reply reply c))
        | _ \<Rightarrow> (Returned (False, fs), free_reply reply c))"

definition cache_clear_friends :: "redis_env \<Rightarrow> int \<Rightarrow> bool cache_op" where
  "cache_clear_friends env user_id =
     del_command env ''DEL %s'' [Str_arg (build_key ''user'' user_id @ '':friends'')]"

definition cache_increment_unread :: "redis_env \<Rightarrow> int \<Rightarrow> bool cache_op" where
  "cache_increment_unread env user_id =
     set_command env ''INCR %s'' [Str_arg (build_key ''user'' user_id @ '':unread'')]"

definition cache_decrement_unread :: "redis_env \<Rightarrow> int \<Rightarrow> bool cache_op" where
  "cache_decrement_unread env user_id =
     set_command env ''DECR %s'' [Str_arg (build_key ''user'' user_id @ '':unread'')]"

definition cache_get_unread_count :: "redis_env \<Rightarrow> int \<Rightarrow> int \<Rightarrow> (bool \<times> int) cache_op" where
  "cache_get_unread_count env user_id count = guarded (False, count) (\<lambda>c.
     let (reply, c) = safe_command env ''GET %s'' [Str_arg (build_key ''user'' user_id @ '':unread'')] c
     in case reply of
          None \<Rightarrow> (Returned (False, count), c)
        | Some (Reply_string s) \<Rightarrow>
            (case stoi s of Stoi i _ \<Rightarrow> (Returned (True, i), free_reply reply c) | _ \<Rightarrow> (Threw, c))
        | Some Reply_nil \<Rightarrow> (Returned (True, 0), free_reply reply c)
        | Some _ \<Rightarrow> (Returned (False, count), free_reply reply c))"

definition cache_clear_unread :: "redis_env \<Rightarrow> int \<Rightarrow> bool cache_op" where
  "cache_clear_unread env user_id =
     set_command env ''SET %s 0'' [Str_arg (build_key ''user'' user_id @ '':unread'')]"

definition cache_set_ttl :: "redis_env \<Rightarrow> string \<Rightarrow> int \<Rightarrow> bool cache_op" where
  "cache_set_ttl env key seconds = set_command env ''EXPIRE %s %d'' [Str_arg key, Int_arg seconds]"

definition cache_delete_key :: "redis_env \<Rightarrow> string \<Rightarrow> bool cache_op" where
  "cache_delete_key env key = del_command env ''DEL %s'' [Str_arg key]"

definition cache_exists_key :: "redis_env \<Rightarrow> string \<Rightarrow> bool cache_op" where
  "cache_exists_key env key = guarded False (\<lambda>c.
     let (reply, c) = safe_command env ''EXISTS %s'' [Str_arg key] c
     in case reply of
          None \<Rightarrow> (Returned False, c)
        | Some (Reply_integer i) \<Rightarrow> (Returned (i > 0), free_reply reply c)
        | Some _ \<Rightarrow> (Returned False, free_reply reply c))"

text \<open>
  \<open>pipeline\<close> calls its argument while it holds the mutex. \<open>free_all\<close> frees the elements of a reply
  and then the reply, which frees its elements too.
\<close>

fun reply_elements :: "redis_reply \<Rightarrow> redis_reply list" where
  "reply_elements (Reply_array rs) = rs"
| "reply_elements _ = []"

definition free_all :: "redis_reply option \<Rightarrow> cache \<Rightarrow> cache" where
  "free_all r c =
     (case r of
        None \<Rightarrow> c
      | Some r \<Rightarrow> free_reply (Some r) (fold (\<lambda>e. free_reply (Some e)) (reply_elements r) c))"

definition append_command :: "redis_env \<Rightarrow> string \<Rightarrow> cache \<Rightarrow> bool \<times> cache" where
  "append_command env fmt c =
     (redis_append env (cache_clock c) fmt,
      c\<lparr>cache_clock := Suc (cache_clock c), cache_sent := cache_sent c @ [(fmt, [])]\<rparr>)"

definition get_reply :: "redis_env \<Rightarrow> cache \<Rightarrow> redis_reply option \<times> cache" where
  "get_reply env c =
     (let r = redis_get_reply env (cache_clock c)
      in (r, c\<lparr>cache_clock := Suc (cache_clock c),
               cache_objects := cache_objects c + reply_option_objects r\<rparr>))"

definition cache_pipeline :: "redis_env \<Rightarrow> unit cache_op \<Rightarrow> bool cache_op" where
  "cache_pipeline env commands = guarded False (\<lambda>c.
     let (ok, c) = append_command env ''MULTI'' c
     in if \<not> ok then (Returned False, c)
        else (case commands c of
            (Deadlock, c) \<Rightarrow> (Deadlock, c)
          | (Threw, c) \<Rightarrow> (Threw, c)
          | (Returned _, c) \<Rightarrow>
              (let (ok, c) = append_command env ''EXEC'' c
               in if \<not> ok then (Returned False, c)
                  else (let (r0, c) = get_reply env c
                        in if r0 = None then (Returned False, free_all None c)
                           else (let (r1, c) = get_reply env c
                                 in if r1 = None then (Returned False, free_all r0 c)
                                    else (Returned True, free_all r1 (free_all r0 c)))))))"

section \<open>What every operation keeps\<close>

text \<open>
  \<open>cache_safe m\<close>: the operation blocks only on a mutex that is held; when it ends it leaves the
  mutex free and the context as it was, every reply object it received is freed unless it threw,
  and without a context it sends nothing. Whatever it sends, it sends one \<open>va_list\<close> per command.
\<close>

definition cache_safe :: "'a cache_op \<Rightarrow> bool" where
  "cache_safe m \<longleftrightarrow> (\<forall>c r c'. m c = (r, c') \<longrightarrow>
     (r = Deadlock) = cache_locked c \<and>
     (cache_locked c \<longrightarrow> c' = c) \<and>
     (\<not> cache_locked c \<longrightarrow> \<not> cache_locked c' \<and> cache_ctx c' = cache_ctx c) \<and>
     (r \<noteq> Threw \<longrightarrow> cache_objects c' = cache_objects c) \<and>
     (\<not> cache_ctx c \<longrightarrow> r \<noteq> Threw \<and> c' = c) \<and>
     (\<exists>cmds. cache_sent c' = cache_sent c @ cmds \<and> (\<forall>(fmt, args)\<in>set cmds. \<exists>l. args = [Va_list l])))"

definition body_safe :: "'a cache_op \<Rightarrow> bool" where
  "body_safe m \<longleftrightarrow> (\<forall>c r c'. m c = (r, c') \<and> cache_ctx c \<longrightarrow>
     r \<noteq> Deadlock \<and> cache_locked c' = cache_locked c \<and> cache_ctx c' = cache_ctx c \<and>
     (r \<noteq> Threw \<longrightarrow> cache_objects c' = cache_objects c) \<and>
     (\<exists>cmds. cache_sent c' = cache_sent c @ cmds \<and> (\<forall>(fmt, args)\<in>set cmds. \<exists>l. args = [Va_list l])))"

lemma guarded_safe [inv_intros]:
  assumes "body_safe body" shows "cache_safe (guarded none body)"
  unfolding cache_safe_def
proof (intro allI impI)
  fix c r c' assume run: "guarded none body c = (r, c')"
  obtain r1 c1 where b: "body (c\<lparr>cache_locked := True\<rparr>) = (r1, c1)" by (cases "body (c\<lparr>cache_locked := True\<rparr>)")
  note body = assms [unfolded body_safe_def, rule_format, OF conjI [OF b]]
  have "(case r1 of Deadlock \<Rightarrow> (Deadlock, c1) | _ \<Rightarrow> (r1, c1\<lparr>cache_locked := False\<rparr>)) = (r, c')
      \<longrightarrow> cache_ctx c \<longrightarrow> r = r1 \<and> c' = c1\<lparr>cache_locked := False\<rparr>"
    using body by (auto split: cache_outcome.splits)
  then show "(r = Deadlock) = cache_locked c \<and> (cache_locked c \<longrightarrow> c' = c) \<and>
     (\<not> cache_locked c \<longrightarrow> \<not> cache_locked c' \<and> cache_ctx c' = cache_ctx c) \<and>
     (r \<noteq> Threw \<longrightarrow> cache_objects c' = cache_objects c) \<and> (\<not> cache_ctx c \<longrightarrow> r \<noteq> Threw \<and> c' = c) \<and>
     (\<exists>cmds. cache_sent c' = cache_sent c @ cmds \<and> (\<forall>(fmt, args)\<in>set cmds. \<exists>l. args = [Va_list l]))"
    using run body by (cases "cache_ctx c") (auto simp: guarded_def locked_def b split: if_splits)
qed

lemma safe_command_effect:
  assumes "cache_ctx c" and "safe_command env fmt args c = (r, c')"
  shows "c' = c\<lparr>cache_clock := Suc (cache_clock c), cache_sent := cache_sent c @ [(fmt, [Va_list args])],
    cache_objects := cache_objects c + reply_option_objects r\<rparr>"
  using assms by (auto simp: safe_command_def redis_call_def Let_def)

lemma body_safe_command:
  assumes "\<And>r c. f r c = (Threw, c) \<or> (\<exists>x. f r c = (Returned x, free_reply r c)) \<or>
      (r = None \<and> (\<exists>x. f r c = (Returned x, c)))"
  shows "body_safe (\<lambda>c. case safe_command env fmt args c of (r, c) \<Rightarrow> f r c)"
proof -
  have "case safe_command env fmt args c of (reply, c1) \<Rightarrow> f reply c1 = (r, c') \<longrightarrow> r \<noteq> Deadlock \<and>
      cache_locked c' = cache_locked c \<and> cache_ctx c' = cache_ctx c \<and>
      (r \<noteq> Threw \<longrightarrow> cache_objects c' = cache_objects c) \<and>
      cache_sent c' = cache_sent c @ [(fmt, [Va_list args])]" if ctx: "cache_ctx c" for c r c'
  proof -
    obtain reply c1 where s: "safe_command env fmt args c = (reply, c1)"
      by (cases "safe_command env fmt args c")
    show ?thesis
      using assms [of reply c1] safe_command_effect [OF ctx s] by (auto simp: s free_reply_def)
  qed
  then show ?thesis
    unfolding body_safe_def by fastforce
qed

lemma set_command_safe [inv_intros]: "cache_safe (set_command env fmt args)"
  unfolding set_command_def Let_def
  by (intro guarded_safe body_safe_command) (auto split: option.split redis_reply.split)

lemma del_command_safe [inv_intros]: "cache_safe (del_command env fmt args)"
  unfolding del_command_def Let_def by (intro guarded_safe body_safe_command) auto

lemma read_commands_safe [inv_intros]:
  "cache_safe (cache_is_online env i)" "cache_safe (cache_get_connection_id env i s)"
  "cache_safe (cache_get_friends env i fs)" "cache_safe (cache_get_unread_count env i n)"
  "cache_safe (cache_exists_key env k)"
  unfolding cache_is_online_def cache_get_connection_id_def cache_get_friends_def
    cache_get_unread_count_def cache_exists_key_def Let_def
  by (intro guarded_safe body_safe_command;
      auto split: option.split redis_reply.split stoi_result.split)+

section \<open>What a caller relies on\<close>

text \<open>
  The contract of a write to the cache, for the handlers that call one: with the mutex free it
  returns, whatever Redis answers, and gives the mutex back.
\<close>

locale cache_write =
  fixes op :: "bool cache_op"
  assumes returns: "\<not> cache_locked c \<Longrightarrow> \<exists>b c'. op c = (Returned b, c') \<and> \<not> cache_locked c'"

lemma set_command_returns:
  assumes "\<not> cache_locked c"
  shows "\<exists>b c'. set_command env fmt args c = (Returned b, c') \<and> \<not> cache_locked c'"
proof -
  obtain r c' where run: "set_command env fmt args c = (r, c')" by (cases "set_command env fmt args c")
  have "r \<noteq> Deadlock \<and> \<not> cache_locked c'"
    using set_command_safe [of env fmt args] run assms unfolding cache_safe_def by blast
  moreover have "r \<noteq> Threw"
    using run by (auto simp: set_command_def guarded_def locked_def Let_def
        split: prod.splits option.splits redis_reply.splits if_splits cache_outcome.splits)
  ultimately show ?thesis using run by (cases r) auto
qed

interpretation set_online: cache_write "cache_set_online env i b" for env i b
  by unfold_locales (simp add: cache_set_online_def set_command_returns)

interpretation set_connection: cache_write "cache_set_connection_id env i n" for env i n
  by unfold_locales (simp add: cache_set_connection_id_def set_command_returns)

interpretation count_unread: cache_write "cache_increment_unread env i" for env i
  by unfold_locales (simp add: cache_increment_unread_def set_command_returns)

section \<open>Properties of the cache\<close>

definition healthy_redis :: redis_env where
  "healthy_redis = \<lparr>redis_connect = True, redis_command = (\<lambda>_ _ _. Some (Reply_status ''OK'')),
     redis_append = (\<lambda>_ _. True), redis_get_reply = (\<lambda>_. Some (Reply_array [Reply_integer 1]))\<rparr>"

definition idle_cache :: cache where
  "idle_cache = \<lparr>cache_ctx = True, cache_locked = False, cache_clock = 0, cache_sent = [], cache_objects = 0\<rparr>"

text \<open>
  C27. Every method of the cache returns the mutex and frees every reply object it received exactly
  once, on every answer hiredis can give, except when \<open>std::stoi\<close> throws; without a context it sends
  nothing and changes nothing; and it can only hang when its own thread already holds the mutex.
\<close>

theorem cache_methods_are_safe:
  "cache_safe (cache_set_online env i b) \<and> cache_safe (cache_is_online env i) \<and>
   cache_safe (cache_get_connection_id env i s) \<and> cache_safe (cache_set_connection_id env i s) \<and>
   cache_safe (cache_remove_connection_id env i) \<and> cache_safe (cache_add_friend env i j) \<and>
   cache_safe (cache_remove_friend env i j) \<and> cache_safe (cache_get_friends env i fs) \<and>
   cache_safe (cache_clear_friends env i) \<and> cache_safe (cache_increment_unread env i) \<and>
   cache_safe (cache_decrement_unread env i) \<and> cache_safe (cache_get_unread_count env i n) \<and>
   cache_safe (cache_clear_unread env i) \<and> cache_safe (cache_set_ttl env s n) \<and>
   cache_safe (cache_delete_key env s) \<and> cache_safe (cache_exists_key env s)"
  by (intro conjI; (rule read_commands_safe |
      (unfold cache_set_online_def cache_set_connection_id_def cache_remove_connection_id_def
        cache_add_friend_def cache_remove_friend_def cache_clear_friends_def cache_increment_unread_def
        cache_decrement_unread_def cache_clear_unread_def cache_set_ttl_def cache_delete_key_def)[1],
       rule set_command_safe del_command_safe))

text \<open>
  What hiredis needs: one argument for each conversion of the format, a C string for \<open>%s\<close> and an
  \<open>int\<close> for \<open>%d\<close>.
\<close>

fun conversions :: "string \<Rightarrow> char list" where
  "conversions [] = []"
| "conversions [c] = []"
| "conversions (c # d # s) = (if c = CHR ''%'' then d # conversions s else conversions (d # s))"

fun conversion_arg :: "char \<Rightarrow> redis_arg \<Rightarrow> bool" where
  "conversion_arg c (Str_arg _) \<longleftrightarrow> c = CHR ''s''"
| "conversion_arg c (Int_arg _) \<longleftrightarrow> c = CHR ''d''"
| "conversion_arg c (Va_list _) \<longleftrightarrow> False"

definition well_formed_call :: "string \<Rightarrow> redis_arg list \<Rightarrow> bool" where
  "well_formed_call fmt args \<longleftrightarrow> list_all2 conversion_arg (conversions fmt) args"

definition sends_malformed :: "'a cache_op \<Rightarrow> bool" where
  "sends_malformed m \<longleftrightarrow> (\<forall>c. cache_ctx c \<and> \<not> cache_locked c \<longrightarrow>
     (\<exists>fmt args sent. cache_sent (snd (m c)) = cache_sent c @ [(fmt, sent)] \<and>
        sent = [Va_list args] \<and> well_formed_call fmt args \<and> \<not> well_formed_call fmt sent))"

lemma not_well_formed_va_list: "\<not> well_formed_call fmt [Va_list args]"
  by (auto simp: well_formed_call_def list_all2_Cons2)

lemma guarded_sent:
  assumes "\<not> cache_locked c" and "cache_ctx c"
    and "\<And>c'. cache_ctx c' \<Longrightarrow> cache_sent (snd (body c')) = cache_sent c' @ [x]"
  shows "cache_sent (snd (guarded none body c)) = cache_sent c @ [x]"
  using assms(1,2) assms(3) [of "c\<lparr>cache_locked := True\<rparr>"]
  by (auto simp: guarded_def locked_def split: prod.splits cache_outcome.splits)

lemma safe_command_sent:
  "cache_ctx c \<Longrightarrow> cache_sent (snd (safe_command env fmt args c)) = cache_sent c @ [(fmt, [Va_list args])]"
  by (simp add: safe_command_def redis_call_def Let_def)

lemma command_malformed:
  assumes "well_formed_call fmt args"
    and "\<And>r c. cache_sent (snd (f r c)) = cache_sent c"
  shows "sends_malformed (guarded none (\<lambda>c. case safe_command env fmt args c of (r, c) \<Rightarrow> f r c))"
proof -
  have "cache_sent (snd (guarded none (\<lambda>c. case safe_command env fmt args c of (r, c) \<Rightarrow> f r c) c))
      = cache_sent c @ [(fmt, [Va_list args])]" if "cache_ctx c" "\<not> cache_locked c" for c
    by (rule guarded_sent [OF that(2,1)])
      (use assms(2) safe_command_sent in \<open>auto split: prod.split\<close>, metis snd_conv)
  then show ?thesis
    unfolding sends_malformed_def using assms(1) not_well_formed_va_list by blast
qed

lemma free_reply_sent [simp]: "cache_sent (free_reply r c) = cache_sent c"
  by (simp add: free_reply_def)

lemma set_command_malformed: "well_formed_call fmt args \<Longrightarrow> sends_malformed (set_command env fmt args)"
  unfolding set_command_def Let_def
  by (rule command_malformed) (auto split: option.split redis_reply.split)

lemma del_command_malformed: "well_formed_call fmt args \<Longrightarrow> sends_malformed (del_command env fmt args)"
  unfolding del_command_def Let_def by (rule command_malformed) auto

lemma read_commands_malformed:
  "sends_malformed (cache_is_online env i)" "sends_malformed (cache_get_connection_id env i s)"
  "sends_malformed (cache_get_friends env i fs)" "sends_malformed (cache_get_unread_count env i n)"
  "sends_malformed (cache_exists_key env k)"
  unfolding cache_is_online_def cache_get_connection_id_def cache_get_friends_def
    cache_get_unread_count_def cache_exists_key_def Let_def
  by (rule command_malformed;
      auto simp: well_formed_call_def split: option.split redis_reply.split stoi_result.split)+

text \<open>
  None of the methods ever sends the command it means to: each hands hiredis exactly one command
  whose format has conversions for the arguments the method gives, but what is passed is one
  \<open>va_list\<close>, which fits no conversion.
\<close>

theorem cache_commands_malformed:
  "sends_malformed (cache_set_online env i b) \<and> sends_malformed (cache_is_online env i) \<and>
   sends_malformed (cache_get_connection_id env i s) \<and> sends_malformed (cache_set_connection_id env i s) \<and>
   sends_malformed (cache_remove_connection_id env i) \<and> sends_malformed (cache_add_friend env i j) \<and>
   sends_malformed (cache_remove_friend env i j) \<and> sends_malformed (cache_get_friends env i fs) \<and>
   sends_malformed (cache_clear_friends env i) \<and> sends_malformed (cache_increment_unread env i) \<and>
   sends_malformed (cache_decrement_unread env i) \<and> sends_malformed (cache_get_unread_count env i n) \<and>
   sends_malformed (cache_clear_unread env i) \<and> sends_malformed (cache_set_ttl env s n) \<and>
   sends_malformed (cache_delete_key env s) \<and> sends_malformed (cache_exists_key env s)"
  unfolding cache_set_online_def cache_set_connection_id_def cache_remove_connection_id_def
    cache_add_friend_def cache_remove_friend_def cache_clear_friends_def cache_increment_unread_def
    cache_decrement_unread_def cache_clear_unread_def cache_set_ttl_def cache_delete_key_def
  by (intro conjI read_commands_malformed set_command_malformed del_command_malformed)
    (simp_all add: well_formed_call_def)

text \<open>
  The keys of different users and of different entries never coincide: a key determines the
  user id and the kind of entry.
\<close>

theorem cache_keys_distinct:
  assumes "int_in_range i" and "int_in_range j"
    and "{s, t} \<subseteq> {'':online'', '':conn'', '':friends'', '':unread''}"
  shows "build_key ''user'' i @ s = build_key ''user'' j @ t \<longleftrightarrow> i = j \<and> s = t"
proof -
  have tw: "takeWhile (\<lambda>c. c \<noteq> CHR '':'') (to_string n @ u) = to_string n"
    if "u \<in> {'':online'', '':conn'', '':friends'', '':unread''}" for n u
  proof -
    have "takeWhile (\<lambda>c. c \<noteq> CHR '':'') (to_string n @ u)
        = to_string n @ takeWhile (\<lambda>c. c \<noteq> CHR '':'') u"
    proof (rule takeWhile_append2)
      show "c \<noteq> CHR '':''" if "c \<in> set (to_string n)" for c
        using to_string_chars [OF that] is_digit_not_other(4) by auto
    qed
    then show ?thesis using that by auto
  qed
  have "to_string i @ s = to_string j @ t \<longleftrightarrow> i = j \<and> s = t"
  proof
    assume eq: "to_string i @ s = to_string j @ t"
    then have "to_string i = to_string j"
      using tw [of s i] tw [of t j] assms(3) by simp
    then show "i = j \<and> s = t"
      using to_string_inj [OF assms(1,2)] eq by simp
  qed simp
  then show ?thesis by (simp add: build_key_def)
qed

theorem cache_keys_distinct_witness:
  "build_key ''user'' 12 @ '':conn'' \<noteq> build_key ''user'' 1 @ '':conn''"
  using cache_keys_distinct [of 12 1 "'':conn''" "'':conn''"] by (simp add: int_in_range_def)

definition call_method :: "'a cache_op \<Rightarrow> unit cache_op" where
  "call_method m c = (case m c of (Returned _, c) \<Rightarrow> (Returned (), c) | (Threw, c) \<Rightarrow> (Threw, c)
     | (Deadlock, c) \<Rightarrow> (Deadlock, c))"

text \<open>
  \<open>pipeline\<close> cannot be used: with a connected context, a body that calls any method of the manager
  locks the mutex a second time and hangs; and with a body that does not, every reply whose
  elements come back is freed, elements included, after its elements were freed already.
\<close>

theorem pipeline_is_unusable:
  assumes "cache_ctx c" and "\<not> cache_locked c" and "\<And>k fmt. redis_append env k fmt"
  shows "fst (cache_pipeline env (call_method (cache_increment_unread env i)) c) = Deadlock \<and>
    (\<forall>rs rs'. redis_get_reply env (cache_clock c + 2) = Some (Reply_array rs) \<and>
        redis_get_reply env (cache_clock c + 3) = Some (Reply_array rs') \<longrightarrow>
      cache_objects (snd (cache_pipeline env (\<lambda>c. (Returned (), c)) c))
        = cache_objects c - sum_list (map reply_objects rs) - sum_list (map reply_objects rs'))"
proof -
  have sum: "cache_objects (fold (\<lambda>e. free_reply (Some e)) rs d)
      = cache_objects d - sum_list (map reply_objects rs)" for rs d
    by (induction rs arbitrary: d) (simp_all add: free_reply_def)
  have free: "cache_objects (free_all (Some (Reply_array rs)) d)
      = cache_objects d - 1 - 2 * sum_list (map reply_objects rs)" for rs d
    by (simp add: free_all_def free_reply_def [of "Some (Reply_array rs)"] sum)
  have "fst (cache_pipeline env (call_method (cache_increment_unread env i)) c) = Deadlock"
    using assms by (simp add: cache_pipeline_def guarded_def locked_def append_command_def
        call_method_def cache_increment_unread_def set_command_def)
  then show ?thesis
    using assms by (auto simp: cache_pipeline_def guarded_def locked_def append_command_def
        get_reply_def free Let_def eval_nat_numeral)
qed

theorem pipeline_is_unusable_witness:
  "fst (cache_pipeline healthy_redis (call_method (cache_increment_unread healthy_redis 7)) idle_cache) = Deadlock \<and>
   cache_objects (snd (cache_pipeline healthy_redis (\<lambda>c. (Returned (), c)) idle_cache)) = - 2"
  using pipeline_is_unusable [of idle_cache healthy_redis 7]
  by (simp add: idle_cache_def healthy_redis_def)

end
