(* ===== verification/Connection_Manager.thy ===== *)
theory Connection_Manager
  imports Server_Codec Stream_Framing
begin

text \<open>
  \<open>Connection\<close> and \<open>ConnectionManager\<close> of server/src/connection_manager.cpp. Connections are shared
  objects: the hub's heap maps references to them, the manager's two tables map connection ids to
  references (\<open>connections_\<close>) and user ids to connection ids (\<open>user_to_conn_\<close>). The server has one
  thread, so the manager's mutex is never contended and is not modelled.

  Boost.Asio is not part of the repository. What the code relies on is built into the shape of the
  operations: an asynchronous operation is a field of the connection (the header or body being
  read, the buffer being written, the closures posted by \<open>send\<close>), and its completion handler is an
  operation that the environment calls with the bytes read, or with an error. \<open>conn_wire\<close> holds the
  bytes whose write has completed. Two fields are history, read by no operation: all data passed to
  \<open>send\<close>, and all user ids the connection was given. A connection that the manager has dropped
  lives on while an operation holds it and is then destroyed, which only closes the socket; its
  record stays in the heap, where no operation reaches it any more.
\<close>

datatype read_state = No_read | Reading_header | Reading_body

record connection =
  conn_id :: string
  conn_user_id :: i32
  header_buffer :: bytes
  body_buffer :: bytes
  write_buffer :: "bytes list"
  conn_posted :: "bytes list"
  conn_writing :: bool
  conn_reading :: read_state
  conn_open :: bool
  conn_wire :: bytes
  conn_sends :: "bytes list"
  conn_logins :: "i32 list"

record hub =
  heap :: "nat \<Rightarrow> connection option"
  conn_table :: "string \<Rightarrow> nat option"
  user_to_conn :: "i32 \<Rightarrow> string option"

definition new_hub :: hub where
  "new_hub = \<lparr>heap = Map.empty, conn_table = Map.empty, user_to_conn = Map.empty\<rparr>"

section \<open>Connections\<close>

definition new_connection :: "string \<Rightarrow> connection" where
  "new_connection i = \<lparr>conn_id = i, conn_user_id = 0, header_buffer = replicate HEADER_SIZE 0,
     body_buffer = [], write_buffer = [], conn_posted = [], conn_writing = False,
     conn_reading = No_read, conn_open = True, conn_wire = [], conn_sends = [], conn_logins = []\<rparr>"

definition update_conn :: "nat \<Rightarrow> (connection \<Rightarrow> connection) \<Rightarrow> hub \<Rightarrow> hub" where
  "update_conn r f h = h\<lparr>heap := (heap h)(r := map_option f (heap h r))\<rparr>"

definition get_user_id :: "nat \<Rightarrow> hub \<Rightarrow> i32" where
  "get_user_id r h = (case heap h r of None \<Rightarrow> 0 | Some c \<Rightarrow> conn_user_id c)"

definition get_id :: "nat \<Rightarrow> hub \<Rightarrow> string" where
  "get_id r h = (case heap h r of None \<Rightarrow> [] | Some c \<Rightarrow> conn_id c)"

definition set_user_id :: "nat \<Rightarrow> i32 \<Rightarrow> hub \<Rightarrow> hub" where
  "set_user_id r u = update_conn r (\<lambda>c. c\<lparr>conn_user_id := u, conn_logins := conn_logins c @ [u]\<rparr>)"

definition do_read_header :: "nat \<Rightarrow> hub \<Rightarrow> hub" where
  "do_read_header r = update_conn r (\<lambda>c. c\<lparr>conn_reading := Reading_header\<rparr>)"

definition conn_start :: "nat \<Rightarrow> hub \<Rightarrow> hub" where
  "conn_start r = do_read_header r"

definition conn_stop :: "nat \<Rightarrow> hub \<Rightarrow> hub" where
  "conn_stop r = update_conn r (\<lambda>c. c\<lparr>conn_open := False\<rparr>)"

text \<open>\<open>send\<close> posts a closure that holds the data; \<open>run_posted\<close> runs the first one.\<close>

definition conn_send :: "nat \<Rightarrow> bytes \<Rightarrow> hub \<Rightarrow> hub" where
  "conn_send r data = update_conn r (\<lambda>c. c\<lparr>conn_posted := conn_posted c @ [data],
     conn_sends := conn_sends c @ [data]\<rparr>)"

definition do_write :: "connection \<Rightarrow> connection" where
  "do_write c = c\<lparr>conn_writing := True\<rparr>"

fun post_closure :: "connection \<Rightarrow> connection" where
  "post_closure c =
     (case conn_posted c of
        [] \<Rightarrow> c
      | data # rest \<Rightarrow>
          (let write_in_progress = (write_buffer c \<noteq> []);
               c = c\<lparr>conn_posted := rest, write_buffer := write_buffer c @ [data]\<rparr>
           in if \<not> write_in_progress then do_write c else c))"

definition run_posted :: "nat \<Rightarrow> hub \<Rightarrow> hub" where
  "run_posted r = update_conn r post_closure"

section \<open>The manager\<close>

definition cm_start :: "nat \<Rightarrow> hub \<Rightarrow> hub" where
  "cm_start r h = h\<lparr>conn_table := (conn_table h)(get_id r h \<mapsto> r)\<rparr>"

definition cm_stop :: "nat \<Rightarrow> hub \<Rightarrow> hub" where
  "cm_stop r h =
     (let h = (if get_user_id r h \<noteq> 0
               then h\<lparr>user_to_conn := (user_to_conn h)(get_user_id r h := None)\<rparr> else h)
      in h\<lparr>conn_table := (conn_table h)(get_id r h := None)\<rparr>)"

definition stop_all :: "hub \<Rightarrow> hub" where
  "stop_all h = h\<lparr>conn_table := Map.empty, user_to_conn := Map.empty\<rparr>"

definition send_to_user :: "i32 \<Rightarrow> bytes \<Rightarrow> hub \<Rightarrow> bool \<times> hub" where
  "send_to_user u data h =
     (case user_to_conn h u of
        None \<Rightarrow> (False, h)
      | Some i \<Rightarrow>
          (case conn_table h i of
             None \<Rightarrow> (False, h)
           | Some r \<Rightarrow> (True, conn_send r data h)))"

definition is_user_online :: "i32 \<Rightarrow> hub \<Rightarrow> bool" where
  "is_user_online u h \<longleftrightarrow> user_to_conn h u \<noteq> None"

definition set_user_connection :: "i32 \<Rightarrow> string \<Rightarrow> hub \<Rightarrow> hub" where
  "set_user_connection u i h = h\<lparr>user_to_conn := (user_to_conn h)(u \<mapsto> i)\<rparr>"

definition remove_user_connection :: "i32 \<Rightarrow> hub \<Rightarrow> hub" where
  "remove_user_connection u h = h\<lparr>user_to_conn := (user_to_conn h)(u := None)\<rparr>"

definition get_user_connection_id :: "i32 \<Rightarrow> hub \<Rightarrow> string" where
  "get_user_connection_id u h = (case user_to_conn h u of Some i \<Rightarrow> i | None \<Rightarrow> [])"

definition get_connection_count :: "hub \<Rightarrow> nat" where
  "get_connection_count h = card (dom (conn_table h))"

section \<open>Completion handlers\<close>

text \<open>The body length in a header: bytes 3 to 6 joined in 32 bits.\<close>

definition body_length :: "bytes \<Rightarrow> u32" where
  "body_length hdr = (push_bit 24 (ucast (hdr ! 3)) OR push_bit 16 (ucast (hdr ! 4)) OR
     push_bit 8 (ucast (hdr ! 5)) OR ucast (hdr ! 6))"

text \<open>\<open>std::vector::resize\<close>: cuts, or fills up with zeros.\<close>

definition resize :: "nat \<Rightarrow> bytes \<Rightarrow> bytes" where
  "resize n b = take n b @ replicate (n - length b) 0"

lemma length_resize [simp]: "length (resize n b) = n"
  by (simp add: resize_def)

lemma resize_empty [simp]: "resize n [] = replicate n 0"
  by (simp add: resize_def)

definition do_read_body :: "nat \<Rightarrow> hub \<Rightarrow> hub" where
  "do_read_body r = update_conn r (\<lambda>c. c\<lparr>conn_reading := Reading_body\<rparr>)"

definition on_header :: "bytes option \<Rightarrow> nat \<Rightarrow> hub \<Rightarrow> hub" where
  "on_header got r h =
     (let h = update_conn r (\<lambda>c. c\<lparr>conn_reading := No_read\<rparr>) h
      in case got of
           None \<Rightarrow> cm_stop r h
         | Some hdr \<Rightarrow>
             (let h = update_conn r (\<lambda>c. c\<lparr>header_buffer := hdr\<rparr>) h;
                  len = body_length hdr
              in if len > 0 \<and> len < 1024 * 1024
                 then do_read_body r
                        (update_conn r (\<lambda>c. c\<lparr>body_buffer := resize (unat len) (body_buffer c)\<rparr>) h)
                 else cm_stop r h))"

text \<open>\<open>on_body\<close>: the message handler is an argument; a packet is built from both buffers.\<close>

definition received_packet :: "connection \<Rightarrow> packet" where
  "received_packet c =
     (let hdr = header_buffer c;
          command = push_bit 8 (ucast (hdr ! 1)) OR ucast (hdr ! 2) :: u16
      in \<lparr>pkt_version = hdr ! 0, pkt_command = command_of_u16 command, pkt_data = body_buffer c\<rparr>)"

definition on_body_read :: "bytes \<Rightarrow> nat \<Rightarrow> hub \<Rightarrow> hub" where
  "on_body_read body r =
     update_conn r (\<lambda>c. c\<lparr>conn_reading := No_read, body_buffer := body\<rparr>)"

definition on_body_error :: "nat \<Rightarrow> hub \<Rightarrow> hub" where
  "on_body_error r h = cm_stop r (update_conn r (\<lambda>c. c\<lparr>conn_reading := No_read\<rparr>) h)"

fun write_done :: "connection \<Rightarrow> connection" where
  "write_done c =
     (let c = c\<lparr>conn_writing := False, conn_wire := conn_wire c @ hd (write_buffer c),
              write_buffer := tl (write_buffer c)\<rparr>
      in if write_buffer c \<noteq> [] then do_write c else c)"

definition on_write :: "bool \<Rightarrow> nat \<Rightarrow> hub \<Rightarrow> hub" where
  "on_write ok r h =
     (if ok then update_conn r write_done h
      else cm_stop r (update_conn r (\<lambda>c. c\<lparr>conn_writing := False\<rparr>) h))"

end
