(* ===== verification/Message_Handler.thy ===== *)
theory Message_Handler
  imports Connection_Manager Database_Queries Cache_Manager
begin

text \<open>
  \<open>MessageHandler\<close> of server/src/message_handler.cpp: one handler per request, over the whole state of
  the server (connections and their tables, pool, cache). The database, the cache, the wall clock
  are parameters. A handler ends \<open>Handled\<close>, \<open>Hangs\<close> (the pool has no connection left, or the cache's
  mutex is held), is \<open>Undefined\<close> (it read outside an array) or \<open>Aborted\<close> (an exception left it);
  \<open>Stopped\<close> is the end of the event loop, which no handler gives.
  Logging writes to the standard output only and is left out.
\<close>

record server_env =
  env_mysql :: mysql_env
  env_redis :: redis_env
  env_now :: "nat \<Rightarrow> i64"

record server =
  srv_hub :: hub
  srv_pool :: pool
  srv_cache :: cache
  srv_clock :: nat

datatype run_result = Handled | Hangs | Undefined | Aborted | Stopped

type_synonym handler = "server \<Rightarrow> run_result \<times> server"

definition handled :: handler where
  "handled s = (Handled, s)"

definition on_db :: "'a db \<Rightarrow> ('a \<Rightarrow> handler) \<Rightarrow> handler" where
  "on_db m k s =
     (case m (srv_pool s) of
        (Done x, p) \<Rightarrow> k x (s\<lparr>srv_pool := p\<rparr>)
      | (Blocks, p) \<Rightarrow> (Hangs, s\<lparr>srv_pool := p\<rparr>)
      | (Overread, p) \<Rightarrow> (Undefined, s\<lparr>srv_pool := p\<rparr>))"

text \<open>The handlers drop what the cache answers.\<close>

definition on_cache :: "bool cache_op \<Rightarrow> handler \<Rightarrow> handler" where
  "on_cache m k s =
     (case m (srv_cache s) of
        (Returned _, c) \<Rightarrow> k (s\<lparr>srv_cache := c\<rparr>)
      | (Deadlock, c) \<Rightarrow> (Hangs, s\<lparr>srv_cache := c\<rparr>)
      | (Threw, c) \<Rightarrow> (Aborted, s\<lparr>srv_cache := c\<rparr>))"

definition on_hub :: "(hub \<Rightarrow> hub) \<Rightarrow> server \<Rightarrow> server" where
  "on_hub f s = s\<lparr>srv_hub := f (srv_hub s)\<rparr>"

definition on_decoded :: "'a decoded option \<Rightarrow> ('a \<Rightarrow> handler) \<Rightarrow> handler" where
  "on_decoded d k s =
     (case d of
        None \<Rightarrow> (Undefined, s)
      | Some Rejected \<Rightarrow> (Handled, s)
      | Some (Decoded x) \<Rightarrow> k x s)"

definition send_response :: "nat \<Rightarrow> command_code \<Rightarrow> bytes \<Rightarrow> handler" where
  "send_response conn command data s =
     (Handled, on_hub (conn_send conn
        (encode \<lparr>pkt_version = VERSION, pkt_command = command, pkt_data = data\<rparr>)) s)"

text \<open>\<open>MessageHandler::sha256\<close> has the same body as the function of the database pool.\<close>

definition mh_sha256 :: "server_env \<Rightarrow> string \<Rightarrow> string" where
  "mh_sha256 env str =
     (let hash = digest (env_mysql env) (str_bytes str)
      in concat (map (\<lambda>i. hex_byte (hash ! i)) [0..<SHA256_DIGEST_LENGTH]))"

definition stack_user :: "server_env \<Rightarrow> user" where
  "stack_user env = \<lparr>u_user_id = stack_int (env_mysql env), u_username = [], u_password_hash = [],
     u_avatar_url = [], u_security_question = [], u_security_answer = []\<rparr>"

section \<open>Login and chat\<close>

definition login_answer :: "nat \<Rightarrow> error_code \<Rightarrow> i32 \<Rightarrow> string \<Rightarrow> handler" where
  "login_answer conn e uid name =
     send_response conn LOGIN_RESP (encode_login_response
       \<lparr>lresp_error_code = e, lresp_user_id = uid, lresp_username = name\<rparr>)"

definition handle_login :: "server_env \<Rightarrow> nat \<Rightarrow> login_request \<Rightarrow> handler" where
  "handle_login env conn req =
     on_db (db_verify_user (env_mysql env) (lreq_username req) (lreq_password req) (stack_user env))
       (\<lambda>(ok, user) s.
         if \<not> ok then login_answer conn USER_NOT_FOUND 0 [] s
         else if is_user_online (u_user_id user) (srv_hub s)
         then login_answer conn USER_ALREADY_ONLINE 0 [] s
         else (let s = on_hub (set_user_id conn (u_user_id user)) s;
                   s = on_hub (\<lambda>h. set_user_connection (u_user_id user) (get_id conn h) h) s
               in on_cache (cache_set_online (env_redis env) (sint (u_user_id user)) True)
                    (on_cache (cache_set_connection_id (env_redis env) (sint (u_user_id user))
                        (get_id conn (srv_hub s)))
                      (login_answer conn SUCCESS (u_user_id user) (u_username user))) s))"

definition chat_answer :: "nat \<Rightarrow> error_code \<Rightarrow> i32 \<Rightarrow> handler" where
  "chat_answer conn e msg_id =
     send_response conn MESSAGE_RESP (encode_message_response
       \<lparr>mresp_error_code = e, mresp_msg_id = msg_id\<rparr>)"

definition notify_packet :: "i32 \<Rightarrow> string \<Rightarrow> i64 \<Rightarrow> bytes" where
  "notify_packet from_id content timestamp =
     encode \<lparr>pkt_version = VERSION, pkt_command = MESSAGE_NOTIFY,
       pkt_data = encode_message_notify
         \<lparr>mn_from_id = from_id, mn_content = content, mn_timestamp = timestamp\<rparr>\<rparr>"

definition handle_chat_message :: "server_env \<Rightarrow> nat \<Rightarrow> message_request \<Rightarrow> handler" where
  "handle_chat_message env conn req s =
     (let from_id = get_user_id conn (srv_hub s)
      in if from_id = 0 then chat_answer conn PROTOCOL_ERROR 0 s
         else on_db (db_send_message (env_mysql env) from_id (mreq_to_id req) (mreq_content req) 0)
           (\<lambda>(ok, msg_id) s.
             if \<not> ok then chat_answer conn DATABASE_ERROR 0 s
             else if is_user_online (mreq_to_id req) (srv_hub s)
             then (let encoded = notify_packet from_id (mreq_content req) (env_now env (srv_clock s));
                       s = s\<lparr>srv_clock := Suc (srv_clock s)\<rparr>;
                       s = on_hub (\<lambda>h. snd (send_to_user (mreq_to_id req) encoded h)) s
                   in chat_answer conn SUCCESS msg_id s)
             else on_cache (cache_increment_unread (env_redis env) (sint (mreq_to_id req)))
                    (chat_answer conn SUCCESS msg_id) s) s)"

section \<open>Friends\<close>

definition friend_list_answer :: "nat \<Rightarrow> error_code \<Rightarrow> (i32 \<times> string) list \<Rightarrow> handler" where
  "friend_list_answer conn e fs =
     send_response conn FRIEND_LIST_RESP (encode_friend_list_response
       \<lparr>flresp_error_code = e, flresp_friends = fs\<rparr>)"

definition handle_friend_list :: "server_env \<Rightarrow> nat \<Rightarrow> handler" where
  "handle_friend_list env conn s =
     (let user_id = get_user_id conn (srv_hub s)
      in if user_id = 0 then friend_list_answer conn PROTOCOL_ERROR [] s
         else on_db (db_get_friends (env_mysql env) user_id [])
           (\<lambda>(ok, fs).
             if \<not> ok then friend_list_answer conn DATABASE_ERROR []
             else friend_list_answer conn SUCCESS
                    (map (\<lambda>f. (f_friend_id f, f_friend_name f)) fs)) s)"

definition add_friend_answer :: "nat \<Rightarrow> error_code \<Rightarrow> handler" where
  "add_friend_answer conn e =
     send_response conn ADD_FRIEND_RESP (encode_add_friend_response \<lparr>afresp_error_code = e\<rparr>)"

definition handle_add_friend :: "server_env \<Rightarrow> nat \<Rightarrow> add_friend_request \<Rightarrow> handler" where
  "handle_add_friend env conn req s =
     (let user_id = get_user_id conn (srv_hub s)
      in if user_id = 0 then add_friend_answer conn PROTOCOL_ERROR s
         else if afreq_user_id req = afreq_friend_id req then add_friend_answer conn CANNOT_ADD_SELF s
         else on_db (db_get_user_by_id (env_mysql env) (afreq_friend_id req) (stack_user env))
           (\<lambda>(found, _).
             if \<not> found then add_friend_answer conn USER_NOT_FOUND
             else on_db (db_add_friend (env_mysql env) (afreq_user_id req) (afreq_friend_id req))
               (\<lambda>added.
                 if \<not> added then add_friend_answer conn FRIEND_REQUEST_EXISTS
                 else on_db (db_add_friend (env_mysql env) (afreq_friend_id req) (afreq_user_id req))
                   (\<lambda>_. add_friend_answer conn SUCCESS))) s)"

section \<open>Accounts and version\<close>

definition register_answer :: "nat \<Rightarrow> error_code \<Rightarrow> i32 \<Rightarrow> handler" where
  "register_answer conn e uid =
     send_response conn REGISTER_RESP (encode_register_response
       \<lparr>rresp_error_code = e, rresp_user_id = uid\<rparr>)"

definition handle_register :: "server_env \<Rightarrow> nat \<Rightarrow> register_request \<Rightarrow> handler" where
  "handle_register env conn req =
     (if rreq_username req = [] \<or> rreq_password req = [] \<or> rreq_security_question req = []
         \<or> rreq_security_answer req = []
      then register_answer conn INVALID_REQUEST 0
      else on_db (db_username_exists (env_mysql env) (rreq_username req))
        (\<lambda>taken.
          if taken then register_answer conn USERNAME_EXISTS 0
          else on_db (db_register_user (env_mysql env) (rreq_username req)
                (mh_sha256 env (rreq_password req)) (rreq_security_question req)
                (mh_sha256 env (rreq_security_answer req)) 0)
            (\<lambda>(ok, user_id).
              if \<not> ok then register_answer conn DATABASE_ERROR 0
              else register_answer conn SUCCESS user_id)))"

definition question_answer :: "nat \<Rightarrow> error_code \<Rightarrow> string \<Rightarrow> handler" where
  "question_answer conn e question =
     send_response conn SECURITY_QUESTION_RESP (encode_security_question_response
       \<lparr>sqresp_error_code = e, sqresp_question = question\<rparr>)"

definition handle_security_question :: "server_env \<Rightarrow> nat \<Rightarrow> security_question_request \<Rightarrow> handler" where
  "handle_security_question env conn req =
     (if sqreq_username req = [] then question_answer conn INVALID_REQUEST []
      else on_db (db_get_security_question (env_mysql env) (sqreq_username req) [] [])
        (\<lambda>(ok, question, _).
          if \<not> ok then question_answer conn USER_NOT_FOUND []
          else question_answer conn SUCCESS question))"

definition reset_answer :: "nat \<Rightarrow> error_code \<Rightarrow> handler" where
  "reset_answer conn e =
     send_response conn RESET_PASSWORD_RESP (encode_reset_password_response \<lparr>rpresp_error_code = e\<rparr>)"

definition handle_reset_password :: "server_env \<Rightarrow> nat \<Rightarrow> reset_password_request \<Rightarrow> handler" where
  "handle_reset_password env conn req =
     (if rpreq_username req = [] \<or> rpreq_new_password req = [] \<or> rpreq_security_answer req = []
      then reset_answer conn INVALID_REQUEST
      else on_db (db_get_security_question (env_mysql env) (rpreq_username req) [] [])
        (\<lambda>(ok, question, answer_hash).
          if \<not> ok then reset_answer conn USER_NOT_FOUND
          else if mh_sha256 env (rpreq_security_answer req) \<noteq> answer_hash
          then reset_answer conn INVALID_ANSWER
          else on_db (db_reset_password (env_mysql env) (rpreq_username req)
                (mh_sha256 env (rpreq_new_password req)))
            (\<lambda>ok. if \<not> ok then reset_answer conn DATABASE_ERROR
                  else reset_answer conn SUCCESS)))"

definition SERVER_APP_VERSION :: i32 where
  "SERVER_APP_VERSION = 2"

definition update_url :: string where
  "update_url = ''https://github.com/lobster-xiaozhua/qq-copy/releases''"

text \<open>The description is Chinese text, in UTF-8.\<close>

definition update_desc :: string where
  "update_desc = bytes_str [0xE6, 0x96, 0xB0, 0xE7, 0x89, 0x88, 0xE6, 0x9C, 0xAC, 0xE5, 0x8F, 0xAF,
     0xE7, 0x94, 0xA8, 0xEF, 0xBC, 0x8C, 0xE8, 0xAF, 0xB7, 0xE4, 0xB8, 0x8B, 0xE8, 0xBD, 0xBD, 0xE6,
     0x9C, 0x80, 0xE6, 0x96, 0xB0, 0xE5, 0xAE, 0x89, 0xE8, 0xA3, 0x85, 0xE5, 0x8C, 0x85, 0xE6, 0x9B,
     0xB4, 0xE6, 0x96, 0xB0]"

definition handle_version_check :: "nat \<Rightarrow> version_check_request \<Rightarrow> handler" where
  "handle_version_check conn req =
     send_response conn VERSION_CHECK_RESP (encode_version_check_response
       \<lparr>vcresp_error_code = SUCCESS, vcresp_server_version = SERVER_APP_VERSION,
         vcresp_update_url = update_url, vcresp_update_desc = update_desc\<rparr>)"

section \<open>Dispatch\<close>

definition handle_message :: "server_env \<Rightarrow> nat \<Rightarrow> packet \<Rightarrow> handler" where
  "handle_message env conn packet =
     (case pkt_command packet of
        LOGIN_REQ \<Rightarrow> on_decoded (decode_login_request (pkt_data packet)) (handle_login env conn)
      | MESSAGE_REQ \<Rightarrow>
          on_decoded (decode_message_request (pkt_data packet)) (handle_chat_message env conn)
      | FRIEND_LIST_REQ \<Rightarrow> handle_friend_list env conn
      | ADD_FRIEND_REQ \<Rightarrow>
          (if length (pkt_data packet) \<ge> 4
           then (case read_int32 (pkt_data packet) 0 of
                   None \<Rightarrow> (\<lambda>s. (Undefined, s))
                 | Some friend_id \<Rightarrow>
                     (\<lambda>s. handle_add_friend env conn
                        \<lparr>afreq_user_id = get_user_id conn (srv_hub s), afreq_friend_id = friend_id\<rparr> s))
           else handled)
      | REGISTER_REQ \<Rightarrow>
          on_decoded (decode_register_request (pkt_data packet)) (handle_register env conn)
      | SECURITY_QUESTION_REQ \<Rightarrow>
          on_decoded (decode_security_question_request (pkt_data packet)) (handle_security_question env conn)
      | RESET_PASSWORD_REQ \<Rightarrow>
          on_decoded (decode_reset_password_request (pkt_data packet)) (handle_reset_password env conn)
      | VERSION_CHECK_REQ \<Rightarrow>
          on_decoded (decode_version_check_request (pkt_data packet)) (handle_version_check conn)
      | _ \<Rightarrow> handled)"

end
