(* ===== verification/Chat_Server.thy ===== *)
theory Chat_Server
  imports Message_Handler
begin

text \<open>
  \<open>ChatServer\<close> of server/src/chat_server.cpp and the event loop it runs. The loop has one thread:
  every completion handler runs to its end before the next one starts, so a run of the server is a
  sequence of the steps of \<open>server_step\<close>, one per completed operation.

  \<open>do_accept\<close> registers a new connection with the manager and accepts the next one; it does not
  call \<open>Connection::start\<close>. The step relation takes a flag that says whether something else starts
  connections: False is the program as it is, True the program with that call. What is proved for
  both holds of either.
\<close>

section \<open>Accepting and completion handlers\<close>

definition do_accept :: "(nat \<times> string) option \<Rightarrow> server \<Rightarrow> server" where
  "do_accept got s =
     (case got of
        None \<Rightarrow> s
      | Some (r, i) \<Rightarrow>
          (let s = on_hub (\<lambda>h. h\<lparr>heap := (heap h)(r \<mapsto> new_connection i)\<rparr>) s
           in on_hub (cm_start r) s))"

definition on_body :: "server_env \<Rightarrow> bytes option \<Rightarrow> nat \<Rightarrow> handler" where
  "on_body env got r s =
     (case got of
        None \<Rightarrow> (Handled, on_hub (on_body_error r) s)
      | Some body \<Rightarrow>
          (let s = on_hub (on_body_read body r) s
           in case heap (srv_hub s) r of
                None \<Rightarrow> (Handled, s)
              | Some c \<Rightarrow>
                  (case handle_message env r (received_packet c) s of
                     (Handled, s) \<Rightarrow> (Handled, on_hub (do_read_header r) s)
                   | other \<Rightarrow> other)))"

definition chat_server :: "server_env \<Rightarrow> tables \<Rightarrow> int \<Rightarrow> server" where
  "chat_server env t pool_size =
     \<lparr>srv_hub = new_hub, srv_pool = snd (database_pool (env_mysql env) t pool_size),
      srv_cache = cache_manager (env_redis env) 0, srv_clock = 0\<rparr>"

text \<open>\<open>stop\<close> ends the loop (\<open>io_context_.stop()\<close>): no completion handler runs after it.\<close>

definition chat_server_stop :: "server \<Rightarrow> server" where
  "chat_server_stop s = on_hub stop_all s"

text \<open>
  The steps. A completion handler runs when its operation is pending. A new connection has a new
  reference and any id: the constructor prints 64 bits that a Mersenne twister draws from a seed of
  32 bits, and nothing compares them with the ids in use. What depends on ids being different says so.
\<close>

inductive server_step :: "server_env \<Rightarrow> bool \<Rightarrow> server \<Rightarrow> run_result \<Rightarrow> server \<Rightarrow> bool"
  for env :: server_env and starts :: bool where
  accepted: "heap (srv_hub s) r = None \<Longrightarrow>
     server_step env starts s Handled (do_accept (Some (r, i)) s)"
| accept_failed: "server_step env starts s Handled (do_accept None s)"
| started: "starts \<Longrightarrow> heap (srv_hub s) r = Some c \<Longrightarrow> conn_reading c = No_read \<Longrightarrow>
     server_step env starts s Handled (on_hub (conn_start r) s)"
| header_done: "heap (srv_hub s) r = Some c \<Longrightarrow> conn_reading c = Reading_header \<Longrightarrow>
     (\<forall>hdr. got = Some hdr \<longrightarrow> length hdr = HEADER_SIZE) \<Longrightarrow>
     server_step env starts s Handled (on_hub (on_header got r) s)"
| body_done: "heap (srv_hub s) r = Some c \<Longrightarrow> conn_reading c = Reading_body \<Longrightarrow>
     (\<forall>body. got = Some body \<longrightarrow> length body = length (body_buffer c)) \<Longrightarrow>
     on_body env got r s = (res, s') \<Longrightarrow> server_step env starts s res s'"
| closure_run: "heap (srv_hub s) r = Some c \<Longrightarrow>
     server_step env starts s Handled (on_hub (run_posted r) s)"
| write_ended: "heap (srv_hub s) r = Some c \<Longrightarrow> conn_writing c \<Longrightarrow>
     server_step env starts s Handled (on_hub (on_write ok r) s)"
| stopped: "server_step env starts s Stopped (chat_server_stop s)"

inductive server_reachable :: "server_env \<Rightarrow> bool \<Rightarrow> tables \<Rightarrow> int \<Rightarrow> server \<Rightarrow> bool"
  for env :: server_env and starts :: bool and t :: tables and pool_size :: int where
  initial: "server_reachable env starts t pool_size (chat_server env t pool_size)"
| step: "server_reachable env starts t pool_size s \<Longrightarrow> server_step env starts s Handled s' \<Longrightarrow>
     server_reachable env starts t pool_size s'"

definition handled_step :: "server_env \<Rightarrow> bool \<Rightarrow> server \<Rightarrow> server \<Rightarrow> bool" where
  "handled_step env starts s s' \<longleftrightarrow> server_step env starts s Handled s'"

inductive_cases server_stepE: "server_step env starts s res s'"

section \<open>What a handler does to the connections\<close>

text \<open>
  The primitive effects of a handler on the hub: an answer on its own connection, a login of it, a
  notification in the name of its user.
\<close>

definition answer_command :: "command_code \<Rightarrow> bool" where
  "answer_command cmd \<longleftrightarrow> cmd \<in> {LOGIN_RESP, MESSAGE_RESP, FRIEND_LIST_RESP, ADD_FRIEND_RESP,
     REGISTER_RESP, SECURITY_QUESTION_RESP, RESET_PASSWORD_RESP, VERSION_CHECK_RESP}"

definition is_answer :: "bytes \<Rightarrow> bool" where
  "is_answer d \<longleftrightarrow> (\<exists>cmd body. answer_command cmd \<and>
     d = encode \<lparr>pkt_version = VERSION, pkt_command = cmd, pkt_data = body\<rparr>)"

inductive hub_step :: "nat \<Rightarrow> hub \<Rightarrow> hub \<Rightarrow> bool" for r :: nat where
  answers: "is_answer d \<Longrightarrow> hub_step r h (conn_send r d h)"
| logs_in: "\<not> is_user_online u h \<Longrightarrow>
     hub_step r h (set_user_connection u (get_id r h) (set_user_id r u h))"
| notifies: "get_user_id r h \<noteq> 0 \<Longrightarrow>
     hub_step r h (snd (send_to_user u (notify_packet (get_user_id r h) content timestamp) h))"

definition hub_run :: "nat \<Rightarrow> handler \<Rightarrow> bool" where
  "hub_run r m \<longleftrightarrow> (\<forall>s. (hub_step r)\<^sup>*\<^sup>* (srv_hub s) (srv_hub (snd (m s))))"

named_theorems hub_intros \<open>handlers that only take primitive steps on the hub\<close>

lemma hub_run_handled [hub_intros]: "hub_run r handled"
  by (simp add: hub_run_def handled_def)

lemma hub_run_answer: "answer_command cmd \<Longrightarrow> hub_run r (send_response r cmd d)"
  unfolding hub_run_def send_response_def on_hub_def is_answer_def
  by (auto intro!: r_into_rtranclp hub_step.answers exI simp: is_answer_def)

lemma hub_run_answers [hub_intros]:
  "hub_run r (login_answer r e u n)" "hub_run r (chat_answer r e m)" "hub_run r (friend_list_answer r e fs)"
  "hub_run r (add_friend_answer r e)" "hub_run r (register_answer r e u)" "hub_run r (question_answer r e q)"
  "hub_run r (reset_answer r e)" "hub_run r (handle_version_check r req)"
  unfolding login_answer_def chat_answer_def friend_list_answer_def add_friend_answer_def
    register_answer_def question_answer_def reset_answer_def handle_version_check_def
  by (rule hub_run_answer, simp add: answer_command_def)+

lemma hub_run_on_db [hub_intros]: "(\<And>x. hub_run r (k x)) \<Longrightarrow> hub_run r (on_db m k)"
  by (auto simp: hub_run_def on_db_def split: prod.split outcome.split) (metis (no_types, lifting) server.select_convs(1) server.surjective server.update_convs(2))

lemma hub_run_on_cache [hub_intros]: "hub_run r k \<Longrightarrow> hub_run r (on_cache m k)"
  by (auto simp: hub_run_def on_cache_def split: prod.split cache_outcome.split) (metis (no_types, lifting) server.select_convs(1) server.surjective server.update_convs(3))

lemma hub_run_on_decoded [hub_intros]: "(\<And>x. hub_run r (k x)) \<Longrightarrow> hub_run r (on_decoded d k)"
  by (auto simp: hub_run_def on_decoded_def split: option.split decoded.split)

lemma hub_run_if [hub_intros]: "hub_run r a \<Longrightarrow> hub_run r b \<Longrightarrow> hub_run r (if c then a else b)"
  by simp

lemma hub_run_split [hub_intros]: "(\<And>x y. hub_run r (f x y)) \<Longrightarrow> hub_run r (case z of (x, y) \<Rightarrow> f x y)"
  by (cases z) simp

lemma hub_runD: "hub_run r m \<Longrightarrow> (hub_step r)\<^sup>*\<^sup>* (srv_hub s) (srv_hub (snd (m s)))"
  by (simp add: hub_run_def)

lemma get_id_set_user_id: "get_id r (set_user_id r u h) = get_id r h"
  by (simp add: get_id_def set_user_id_def update_conn_def split: option.split)

lemma hub_run_login [hub_intros]: "hub_run r (handle_login env r req)"
proof -
  let ?tail = "\<lambda>user s. on_cache (cache_set_online (env_redis env) (sint (u_user_id user)) True)
      (on_cache (cache_set_connection_id (env_redis env) (sint (u_user_id user)) (get_id r (srv_hub s)))
        (login_answer r SUCCESS (u_user_id user) (u_username user))) s"
  have tail: "(hub_step r)\<^sup>*\<^sup>* (srv_hub s) (srv_hub (snd (?tail user s)))" for user s
    by (rule hub_runD) (intro hub_intros)
  have "hub_run r (\<lambda>s. if \<not> ok then login_answer r USER_NOT_FOUND 0 [] s
      else if is_user_online (u_user_id user) (srv_hub s) then login_answer r USER_ALREADY_ONLINE 0 [] s
      else (let s = on_hub (set_user_id r (u_user_id user)) s;
                s = on_hub (\<lambda>h. set_user_connection (u_user_id user) (get_id r h) h) s
            in ?tail user s))" for ok user
    unfolding hub_run_def
  proof
    fix s
    let ?s = "on_hub (\<lambda>h. set_user_connection (u_user_id user) (get_id r h) h)
      (on_hub (set_user_id r (u_user_id user)) s)"
    have "hub_step r (srv_hub s) (srv_hub ?s)" if "\<not> is_user_online (u_user_id user) (srv_hub s)"
      using hub_step.logs_in [OF that, of r] by (simp add: on_hub_def get_id_set_user_id)
    then have "(hub_step r)\<^sup>*\<^sup>* (srv_hub s) (srv_hub (snd (?tail user ?s)))"
      if "\<not> is_user_online (u_user_id user) (srv_hub s)"
      using that converse_rtranclp_into_rtranclp [OF _ tail] by blast
    moreover have "(hub_step r)\<^sup>*\<^sup>* (srv_hub s) (srv_hub (snd (login_answer r e 0 [] s)))" for e
      by (rule hub_runD) (intro hub_intros)
    ultimately show "(hub_step r)\<^sup>*\<^sup>* (srv_hub s) (srv_hub (snd (if \<not> ok then login_answer r USER_NOT_FOUND 0 [] s
      else if is_user_online (u_user_id user) (srv_hub s) then login_answer r USER_ALREADY_ONLINE 0 [] s
      else (let s = on_hub (set_user_id r (u_user_id user)) s;
                s = on_hub (\<lambda>h. set_user_connection (u_user_id user) (get_id r h) h) s
            in ?tail user s))))"
      by (simp add: Let_def)
  qed
  then show ?thesis unfolding handle_login_def by (intro hub_intros)
qed

lemma on_db_hub_id: "srv_hub (s\<lparr>srv_pool := p\<rparr>) = srv_hub s"
  by simp

lemma hub_run_chat [hub_intros]: "hub_run r (handle_chat_message env r req)"
  unfolding hub_run_def
proof
  fix s :: server
  let ?u = "get_user_id r (srv_hub s)"
  have answer: "(hub_step r)\<^sup>*\<^sup>* (srv_hub s) (srv_hub (snd (chat_answer r e m s)))" for e m and s :: server
    by (rule hub_runD) (intro hub_intros)
  have unread: "(hub_step r)\<^sup>*\<^sup>* (srv_hub s) (srv_hub (snd (on_cache (cache_increment_unread (env_redis env)
      (sint (mreq_to_id req))) (chat_answer r SUCCESS m) s)))" for m and s :: server
    by (rule hub_runD) (intro hub_intros)
  have notify: "(hub_step r)\<^sup>*\<^sup>* (srv_hub s) (srv_hub (snd (chat_answer r SUCCESS m
      (on_hub (\<lambda>h. snd (send_to_user (mreq_to_id req) (notify_packet ?u (mreq_content req) ts) h)) s'))))"
    if "?u \<noteq> 0" "srv_hub s' = srv_hub s" for m ts and s' :: server
  proof -
    have "hub_step r (srv_hub s') (srv_hub (on_hub (\<lambda>h. snd (send_to_user (mreq_to_id req)
        (notify_packet ?u (mreq_content req) ts) h)) s'))"
      using hub_step.notifies [of r "srv_hub s'" "mreq_to_id req" "mreq_content req" ts] that
      by (simp add: on_hub_def)
    from converse_rtranclp_into_rtranclp [OF this answer] show ?thesis using that(2) by simp
  qed
  show "(hub_step r)\<^sup>*\<^sup>* (srv_hub s) (srv_hub (snd (handle_chat_message env r req s)))"
  proof (cases "?u = 0")
    case True
    then show ?thesis by (simp add: handle_chat_message_def answer)
  next
    case False
    obtain res p where d: "db_send_message (env_mysql env) ?u (mreq_to_id req) (mreq_content req) 0 (srv_pool s)
        = (res, p)" by (cases "db_send_message (env_mysql env) ?u (mreq_to_id req) (mreq_content req) 0 (srv_pool s)")
    show ?thesis
    proof (cases res)
      case (Done x)
      obtain ok m where x: "x = (ok, m)" by (cases x)
      let ?s = "s\<lparr>srv_pool := p\<rparr>"
      show ?thesis
        using False d Done x answer [of ?s] unread [of ?s m] notify [of "?s\<lparr>srv_clock := Suc (srv_clock s)\<rparr>" m]
        by (simp add: handle_chat_message_def on_db_def Let_def)
    qed (use False d in \<open>simp_all add: handle_chat_message_def on_db_def Let_def\<close>)
  qed
qed

lemma hub_run_pointwise: "(\<And>s. \<exists>m'. hub_run r m' \<and> m s = m' s) \<Longrightarrow> hub_run r m"
  by (metis hub_run_def)

lemma hub_run_friend_list [hub_intros]: "hub_run r (handle_friend_list env r)"
proof (rule hub_run_pointwise)
  fix s :: server
  let ?u = "get_user_id r (srv_hub s)"
  let ?m = "if ?u = 0 then friend_list_answer r PROTOCOL_ERROR []
     else on_db (db_get_friends (env_mysql env) ?u []) (\<lambda>(ok, fs).
       if \<not> ok then friend_list_answer r DATABASE_ERROR []
       else friend_list_answer r SUCCESS (map (\<lambda>f. (f_friend_id f, f_friend_name f)) fs))"
  have "hub_run r ?m" by (intro hub_intros)
  then show "\<exists>m'. hub_run r m' \<and> handle_friend_list env r s = m' s"
    by (intro exI [of _ ?m] conjI) (simp_all add: handle_friend_list_def Let_def)
qed

lemma hub_run_add_friend [hub_intros]: "hub_run r (handle_add_friend env r req)"
proof (rule hub_run_pointwise)
  fix s :: server
  let ?m = "if get_user_id r (srv_hub s) = 0 then add_friend_answer r PROTOCOL_ERROR
     else if afreq_user_id req = afreq_friend_id req then add_friend_answer r CANNOT_ADD_SELF
     else on_db (db_get_user_by_id (env_mysql env) (afreq_friend_id req) (stack_user env)) (\<lambda>(found, _).
       if \<not> found then add_friend_answer r USER_NOT_FOUND
       else on_db (db_add_friend (env_mysql env) (afreq_user_id req) (afreq_friend_id req)) (\<lambda>added.
         if \<not> added then add_friend_answer r FRIEND_REQUEST_EXISTS
         else on_db (db_add_friend (env_mysql env) (afreq_friend_id req) (afreq_user_id req))
           (\<lambda>_. add_friend_answer r SUCCESS)))"
  have "hub_run r ?m" by (intro hub_intros)
  then show "\<exists>m'. hub_run r m' \<and> handle_add_friend env r req s = m' s"
    by (intro exI [of _ ?m] conjI) (simp_all add: handle_add_friend_def Let_def)
qed

lemma hub_run_accounts [hub_intros]:
  "hub_run r (handle_register env r rr)" "hub_run r (handle_security_question env r sq)"
  "hub_run r (handle_reset_password env r rp)"
  unfolding handle_register_def handle_security_question_def handle_reset_password_def
  by (intro hub_intros)+

lemma hub_run_message: "hub_run r (handle_message env r p)"
proof (cases "pkt_command p = ADD_FRIEND_REQ")
  case True
  show ?thesis
  proof (rule hub_run_pointwise)
    fix s :: server
    let ?m = "case read_int32 (pkt_data p) 0 of None \<Rightarrow> (\<lambda>s. (Undefined, s))
      | Some i \<Rightarrow> handle_add_friend env r \<lparr>afreq_user_id = get_user_id r (srv_hub s), afreq_friend_id = i\<rparr>"
    have "hub_run r (\<lambda>s. (Undefined, s))" by (simp add: hub_run_def)
    then have "hub_run r (if length (pkt_data p) \<ge> 4 then ?m else handled)"
      by (auto intro!: hub_intros split: option.split)
    then show "\<exists>m'. hub_run r m' \<and> handle_message env r p s = m' s"
      by (intro exI [of _ "if length (pkt_data p) \<ge> 4 then ?m else handled"] conjI)
        (simp_all add: handle_message_def True split: option.split)
  qed
next
  case False
  then show ?thesis
    by (cases "pkt_command p") (simp_all add: handle_message_def hub_intros)
qed

end
