(* ===== verification/Hub_Invariants.thy ===== *)
theory Hub_Invariants
  imports Chat_Server
begin

text \<open>
  What stays true of the connections of the server. Every step of the event loop changes a
  connection by a few primitive updates; the locales \<open>conn_relation\<close> (the message handlers) and
  \<open>loop_relation\<close> (all steps) state what a relation between the old and the new state of a
  connection must allow, and prove once that every step and every run of the server respects it.
  They are used with relations that say which buffers a handler leaves alone, that histories only
  grow, and that an invariant of one connection is kept. The tables of the manager have an
  invariant of their own, \<open>hub_inv\<close>.
\<close>

section \<open>Relations between the states of a connection\<close>

definition server_output :: "bytes \<Rightarrow> bool" where
  "server_output d \<longleftrightarrow> is_answer d \<or> (\<exists>u content ts. u \<noteq> 0 \<and> d = notify_packet u content ts)"

definition with_send :: "bytes \<Rightarrow> connection \<Rightarrow> connection" where
  "with_send d c = c\<lparr>conn_posted := conn_posted c @ [d], conn_sends := conn_sends c @ [d]\<rparr>"

definition with_login :: "i32 \<Rightarrow> connection \<Rightarrow> connection" where
  "with_login u c = c\<lparr>conn_user_id := u, conn_logins := conn_logins c @ [u]\<rparr>"

definition heap_rel :: "(connection \<Rightarrow> connection \<Rightarrow> bool) \<Rightarrow> hub \<Rightarrow> hub \<Rightarrow> bool" where
  "heap_rel R h h' \<longleftrightarrow> (\<forall>q. rel_option R (heap h q) (heap h' q))"

lemma heap_update_conn:
  "heap (update_conn r f h) q = (if q = r then map_option f (heap h r) else heap h q)"
  by (simp add: update_conn_def)

lemma tables_update_conn [simp]:
  "conn_table (update_conn r f h) = conn_table h" "user_to_conn (update_conn r f h) = user_to_conn h"
  by (simp_all add: update_conn_def)

lemma heap_tables [simp]:
  "heap (cm_stop q h) = heap h" "heap (stop_all h) = heap h" "heap (cm_start q h) = heap h"
  "heap (set_user_connection u i h) = heap h"
  by (simp_all add: cm_stop_def stop_all_def cm_start_def set_user_connection_def Let_def)

lemma conn_ops:
  "conn_send r d = update_conn r (with_send d)" "set_user_id r u = update_conn r (with_login u)"
  by (simp_all add: fun_eq_iff conn_send_def set_user_id_def with_send_def [abs_def] with_login_def [abs_def])

lemma send_to_user_cases:
  obtains "send_to_user u d h = (False, h)"
  | i q where "user_to_conn h u = Some i" "conn_table h i = Some q"
      "send_to_user u d h = (True, conn_send q d h)"
  by (cases "user_to_conn h u"; cases "conn_table h (the (user_to_conn h u))")
    (simp_all add: send_to_user_def)

lemma heap_rel_same: "(\<And>c. R c c) \<Longrightarrow> heap h' = heap h \<Longrightarrow> heap_rel R h h'"
  by (auto simp: heap_rel_def intro: option.rel_refl)

lemma heap_rel_update:
  "(\<And>c. R c c) \<Longrightarrow> (\<And>c. heap h r = Some c \<Longrightarrow> R c (f c)) \<Longrightarrow> heap_rel R h (update_conn r f h)"
  by (auto simp: heap_rel_def heap_update_conn intro: option.rel_refl split: option.split)
    (cases "heap h r"; auto)

lemma heap_rel_trans:
  assumes "heap_rel R h h1" and "heap_rel R h1 h2" and "\<And>a b c. R a b \<Longrightarrow> R b c \<Longrightarrow> R a c"
  shows "heap_rel R h h2"
  unfolding heap_rel_def
proof
  fix q
  have "rel_option R (heap h q) (heap h1 q)" "rel_option R (heap h1 q) (heap h2 q)"
    using assms(1,2) by (simp_all add: heap_rel_def)
  then show "rel_option R (heap h q) (heap h2 q)"
    using assms(3) by (cases "heap h q"; cases "heap h1 q"; cases "heap h2 q") simp_all
qed

lemma heap_rel_some:
  "heap_rel R h h' \<Longrightarrow> heap h q = Some c \<Longrightarrow> \<exists>c'. heap h' q = Some c' \<and> R c c'"
  by (metis heap_rel_def option_rel_Some1)

locale conn_relation =
  fixes R :: "connection \<Rightarrow> connection \<Rightarrow> bool"
  assumes refl: "R c c" and trans: "R a b \<Longrightarrow> R b c \<Longrightarrow> R a c"
    and sends: "server_output d \<Longrightarrow> R c (with_send d c)"
    and logging_in: "R c (with_login u c)"
begin

lemma same: "heap h' = heap h \<Longrightarrow> heap_rel R h h'"
  by (rule heap_rel_same) (rule refl)

lemma rel_trans: "heap_rel R h h1 \<Longrightarrow> heap_rel R h1 h2 \<Longrightarrow> heap_rel R h h2"
  by (erule heap_rel_trans, assumption) (erule trans)

lemma update: "(\<And>c. heap h r = Some c \<Longrightarrow> R c (f c)) \<Longrightarrow> heap_rel R h (update_conn r f h)"
  by (rule heap_rel_update) (auto intro: refl)

lemma hub_step: "hub_step r h h' \<Longrightarrow> heap_rel R h h'"
proof (induction rule: hub_step.induct)
  case (answers d h)
  then show ?case unfolding conn_ops by (intro update sends) (simp add: server_output_def)
next
  case (logs_in u h)
  have "heap_rel R h (set_user_id r u h)" unfolding conn_ops by (intro update logging_in)
  then show ?case by (rule rel_trans) (rule same, simp)
next
  case (notifies h u content ts)
  have out: "server_output (notify_packet (get_user_id r h) content ts)"
    using notifies by (auto simp: server_output_def)
  show ?case
    by (cases rule: send_to_user_cases [of u "notify_packet (get_user_id r h) content ts" h])
      (simp_all add: same conn_ops update sends out)
qed

lemma hub_steps: "(hub_step r)\<^sup>*\<^sup>* h h' \<Longrightarrow> heap_rel R h h'"
  by (induction rule: rtranclp_induct) (auto intro: same rel_trans hub_step)

lemma message: "heap_rel R (srv_hub s) (srv_hub (snd (handle_message env r p s)))"
  by (rule hub_steps) (rule hub_runD [OF hub_run_message])

end

locale loop_relation = conn_relation +
  assumes reads: "R c (c\<lparr>conn_reading := x\<rparr>)" "R c (c\<lparr>header_buffer := b\<rparr>)" "R c (c\<lparr>body_buffer := b\<rparr>)"
    and closure: "R c (post_closure c)"
    and written: "conn_writing c \<Longrightarrow> R c (write_done c)"
    and failed: "conn_writing c \<Longrightarrow> R c (c\<lparr>conn_writing := False\<rparr>)"
begin

lemma reading_ops:
  "heap_rel R h (do_read_header r h)" "heap_rel R h (do_read_body r h)" "heap_rel R h (conn_start r h)"
  "heap_rel R h (on_body_error r h)"
  unfolding do_read_header_def do_read_body_def conn_start_def on_body_error_def
  by (intro update reads rel_trans [OF update same [OF heap_tables(1)]])+

lemma on_body_read: "heap_rel R h (on_body_read b r h)"
proof -
  have "R c (c\<lparr>conn_reading := No_read, body_buffer := b\<rparr>)" for c
    using trans [OF reads(1) [of c No_read] reads(3)] by simp
  then show ?thesis unfolding on_body_read_def by (rule update)
qed

lemma on_header: "heap_rel R h (on_header got r h)"
  unfolding on_header_def Let_def
  by (auto split: option.split intro!: rel_trans [OF _ reading_ops(2)] rel_trans [OF _ same [OF heap_tables(1)]]
      rel_trans [OF _ update] update reads)

lemma on_body:
  assumes "on_body env got r s = (res, s')" shows "heap_rel R (srv_hub s) (srv_hub s')"
proof (cases got)
  case None
  then show ?thesis using assms reading_ops(4) by (auto simp: on_body_def on_hub_def)
next
  case (Some b)
  let ?s = "on_hub (on_body_read b r) s"
  have 1: "heap_rel R (srv_hub s) (srv_hub ?s)" by (simp add: on_hub_def on_body_read)
  show ?thesis
  proof (cases "heap (srv_hub ?s) r")
    case None
    then show ?thesis using assms Some 1 by (simp add: on_body_def Let_def)
  next
    case c: (Some c)
    obtain res1 s1 where m: "handle_message env r (received_packet c) ?s = (res1, s1)"
      by (cases "handle_message env r (received_packet c) ?s")
    have 2: "heap_rel R (srv_hub s) (srv_hub s1)"
      using rel_trans [OF 1 message [of ?s env r "received_packet c"]] m by simp
    then show ?thesis
      using assms Some c m rel_trans [OF 2 reading_ops(1)]
      by (cases res1) (auto simp: on_body_def Let_def on_hub_def)
  qed
qed

lemma on_write:
  assumes "heap h r = Some c" and "conn_writing c" shows "heap_rel R h (on_write ok r h)"
  unfolding on_write_def
  using assms by (auto intro!: rel_trans [OF _ same [OF heap_tables(1)]] update written failed
      simp del: write_done.simps)

text \<open>A step of the loop: old connections change as \<open>R\<close> says, and a new one is as constructed.\<close>

lemma server_step:
  assumes "server_step env starts s res s'"
  shows "rel_option R (heap (srv_hub s) q) (heap (srv_hub s') q) \<or>
    heap (srv_hub s) q = None \<and> (\<exists>i. heap (srv_hub s') q = Some (new_connection i))"
proof -
  have *: ?thesis if "heap_rel R (srv_hub s) (srv_hub s')" using that by (simp add: heap_rel_def)
  note hub = on_hub_def do_accept_def run_posted_def chat_server_stop_def
  from assms show ?thesis
  proof (cases rule: server_step.cases)
    case (accepted r i)
    then show ?thesis
      by (cases "q = r") (auto simp: do_accept_def on_hub_def Let_def intro: option.rel_refl refl)
  next
    case (body_done r c got)
    then show ?thesis using * on_body by blast
  next
    case (write_ended r c ok)
    then show ?thesis using * on_write by (simp add: on_hub_def)
  qed (rule *, simp add: hub same reading_ops on_header update closure del: post_closure.simps)+
qed

lemma step_some:
  assumes "server_step env starts s res s'" and "heap (srv_hub s) q = Some c"
  shows "\<exists>c'. heap (srv_hub s') q = Some c' \<and> R c c'"
  using server_step [OF assms(1), of q] assms(2) by (auto simp: option_rel_Some1)

end

section \<open>Relations that hold\<close>

text \<open>A handler leaves the read buffers of all connections alone.\<close>

definition same_reads :: "connection \<Rightarrow> connection \<Rightarrow> bool" where
  "same_reads c c' \<longleftrightarrow> header_buffer c' = header_buffer c \<and> body_buffer c' = body_buffer c \<and>
     conn_reading c' = conn_reading c"

interpretation read_buffers: conn_relation same_reads
  by unfold_locales (simp_all add: same_reads_def with_send_def with_login_def)

text \<open>Histories only grow: what was sent, written or logged in stays so; the id never changes.\<close>

definition history :: "connection \<Rightarrow> connection \<Rightarrow> bool" where
  "history c c' \<longleftrightarrow> conn_id c' = conn_id c \<and> (\<exists>x. conn_sends c' = conn_sends c @ x) \<and>
     (\<exists>x. conn_wire c' = conn_wire c @ x) \<and> (\<exists>x. conn_logins c' = conn_logins c @ x)"

lemma history_trans: "history a b \<Longrightarrow> history b c \<Longrightarrow> history a c"
  unfolding history_def by (metis append.assoc)

interpretation histories: loop_relation history
proof unfold_locales
  show "history c (post_closure c)" for c
    by (auto simp: history_def do_write_def Let_def split: list.split)
  show "conn_writing c \<Longrightarrow> history c (write_done c)" for c
    by (auto simp: history_def do_write_def Let_def)
qed (auto simp: history_def with_send_def with_login_def intro: history_trans)

text \<open>
  Of one connection: everything passed to \<open>send\<close> is on the wire, in the write queue or in a posted
  closure, in that order, each piece in one of them; a write that runs has its buffer in the queue;
  the user id is the one of the last login; and only packets are sent.
\<close>

definition conn_inv :: "connection \<Rightarrow> bool" where
  "conn_inv c \<longleftrightarrow>
     (\<exists>written. conn_sends c = written @ write_buffer c @ conn_posted c \<and> conn_wire c = concat written) \<and>
     (conn_writing c \<longrightarrow> write_buffer c \<noteq> []) \<and>
     conn_user_id c = (if conn_logins c = [] then 0 else last (conn_logins c)) \<and>
     (\<forall>d\<in>set (conn_sends c). server_output d)"

lemma conn_inv_written:
  assumes "conn_inv c" and "conn_writing c" shows "conn_inv (write_done c)"
proof -
  obtain x xs where x: "write_buffer c = x # xs"
    using assms by (cases "write_buffer c") (auto simp: conn_inv_def)
  obtain written where "conn_sends c = written @ write_buffer c @ conn_posted c" "conn_wire c = concat written"
    using assms(1) by (auto simp: conn_inv_def)
  then have "conn_sends c = (written @ [x]) @ xs @ conn_posted c \<and> conn_wire c @ x = concat (written @ [x])"
    using x by simp
  then show ?thesis using assms(1) x unfolding conn_inv_def by (auto simp: do_write_def Let_def)
qed

interpretation fifo: loop_relation "\<lambda>c c'. conn_inv c \<longrightarrow> conn_inv c'"
proof unfold_locales
  show "conn_inv c \<longrightarrow> conn_inv (post_closure c)" for c
    by (auto simp: conn_inv_def do_write_def Let_def split: list.split)
  show "conn_writing c \<Longrightarrow> conn_inv c \<longrightarrow> conn_inv (write_done c)" for c
    by (simp add: conn_inv_written del: write_done.simps)
  show "server_output d \<Longrightarrow> conn_inv c \<longrightarrow> conn_inv (with_send d c)" for d c
    by (auto simp: conn_inv_def with_send_def)
  show "(conn_inv a \<longrightarrow> conn_inv b) \<Longrightarrow> (conn_inv b \<longrightarrow> conn_inv c) \<Longrightarrow> conn_inv a \<longrightarrow> conn_inv c" for a b c
    by blast
qed (simp_all add: conn_inv_def with_login_def)

lemma conn_inv_new: "conn_inv (new_connection i)"
  by (simp add: conn_inv_def new_connection_def)

lemma reachable_conn_inv:
  "server_reachable env starts t n s \<Longrightarrow> heap (srv_hub s) r = Some c \<Longrightarrow> conn_inv c"
proof (induction arbitrary: c rule: server_reachable.induct)
  case (step s s')
  then show ?case
    using fifo.server_step [OF step.hyps(2), of r]
    by (cases "heap (srv_hub s) r") (auto simp: conn_inv_new)
qed (simp add: chat_server_def new_hub_def)

section \<open>The tables of the manager\<close>

text \<open>
  The connection table leads to a connection with that id, and a user id leads to the id of a
  connection that logged in as this user.
\<close>

definition hub_inv :: "hub \<Rightarrow> bool" where
  "hub_inv h \<longleftrightarrow>
     (\<forall>i r. conn_table h i = Some r \<longrightarrow> (\<exists>c. heap h r = Some c \<and> conn_id c = i)) \<and>
     (\<forall>u i. user_to_conn h u = Some i \<longrightarrow>
        (\<exists>r c. heap h r = Some c \<and> conn_id c = i \<and> u \<in> set (conn_logins c)))"

lemma hub_inv_table: "hub_inv h \<Longrightarrow> conn_table h i = Some r \<Longrightarrow> \<exists>c. heap h r = Some c \<and> conn_id c = i"
  unfolding hub_inv_def by blast

lemma hub_inv_user:
  "hub_inv h \<Longrightarrow> user_to_conn h u = Some i \<Longrightarrow>
     \<exists>r c. heap h r = Some c \<and> conn_id c = i \<and> u \<in> set (conn_logins c)"
  unfolding hub_inv_def by blast

text \<open>The ids of all connections there ever were are different.\<close>

definition ids_distinct :: "hub \<Rightarrow> bool" where
  "ids_distinct h \<longleftrightarrow>
     (\<forall>r c q d. heap h r = Some c \<and> heap h q = Some d \<and> conn_id c = conn_id d \<longrightarrow> r = q)"

text \<open>The tables may lose entries.\<close>

definition tables_shrink :: "hub \<Rightarrow> hub \<Rightarrow> bool" where
  "tables_shrink h h' \<longleftrightarrow> conn_table h' \<subseteq>\<^sub>m conn_table h \<and> user_to_conn h' \<subseteq>\<^sub>m user_to_conn h"

lemma tables_shrink_ops:
  "tables_shrink h (update_conn r f h)" "tables_shrink h (cm_stop r h)" "tables_shrink h (stop_all h)"
  "tables_shrink h (on_header got r h)" "tables_shrink h (on_body_error r h)" "tables_shrink h (on_write ok r h)"
  by (auto simp: tables_shrink_def map_le_def cm_stop_def stop_all_def on_header_def on_body_error_def
      on_write_def do_read_body_def Let_def split: option.split if_splits)

lemma tables_shrinkD:
  "tables_shrink h h' \<Longrightarrow> conn_table h' i = Some r \<Longrightarrow> conn_table h i = Some r"
  "tables_shrink h h' \<Longrightarrow> user_to_conn h' u = Some i \<Longrightarrow> user_to_conn h u = Some i"
  unfolding tables_shrink_def map_le_def by (metis domI)+

lemma hub_inv_keep:
  assumes inv: "hub_inv h" and rel: "heap_rel history h h'" and tables: "tables_shrink h h'"
  shows "hub_inv h'"
proof -
  have new: "\<exists>c'. heap h' q = Some c' \<and> conn_id c' = conn_id c \<and> set (conn_logins c) \<subseteq> set (conn_logins c')"
    if "heap h q = Some c" for q c
    using heap_rel_some [OF rel that] by (auto simp: history_def)
  have "\<exists>c. heap h' r = Some c \<and> conn_id c = i" if "conn_table h' i = Some r" for i r
    using hub_inv_table [OF inv tables_shrinkD(1) [OF tables that]] new by force
  moreover have "\<exists>r c. heap h' r = Some c \<and> conn_id c = i \<and> u \<in> set (conn_logins c)"
    if "user_to_conn h' u = Some i" for u i
  proof -
    obtain r c where r: "heap h r = Some c" "conn_id c = i" "u \<in> set (conn_logins c)"
      using hub_inv_user [OF inv tables_shrinkD(2) [OF tables \<open>user_to_conn h' u = Some i\<close>]] by blast
    then show ?thesis using new [OF r(1)] by auto
  qed
  ultimately show ?thesis unfolding hub_inv_def by blast
qed

lemma hub_inv_login:
  assumes inv: "hub_inv h" and r: "heap h r = Some c"
  shows "hub_inv (set_user_connection u (get_id r h) (set_user_id r u h))"
proof -
  let ?h = "set_user_id r u h"
  have id: "hub_inv ?h"
    unfolding conn_ops by (rule hub_inv_keep [OF inv histories.update tables_shrink_ops(1)]) (rule histories.logging_in)
  have "heap ?h r = Some (with_login u c)" by (simp add: conn_ops heap_update_conn r)
  then have "\<exists>q d. heap ?h q = Some d \<and> conn_id d = get_id r h \<and> u \<in> set (conn_logins d)"
    using r by (intro exI [of _ r]) (simp add: with_login_def get_id_def)
  then show ?thesis using id unfolding hub_inv_def set_user_connection_def by auto
qed

lemma hub_step_inv:
  assumes "hub_step r h h'" and "hub_inv h" and "heap h r \<noteq> None"
  shows "hub_inv h' \<and> heap h' r \<noteq> None"
proof
  show "heap h' r \<noteq> None"
    using heap_rel_some [OF histories.hub_step [OF assms(1)]] assms(3) by fastforce
  have rel: "heap_rel history h h'" by (rule histories.hub_step) (rule assms(1))
  have keep: "hub_inv h'" if "tables_shrink h h'"
    using hub_inv_keep [OF assms(2) rel that] .
  from assms(1) show "hub_inv h'"
  proof (cases rule: hub_step.cases)
    case (logs_in u)
    then show ?thesis using hub_inv_login [OF assms(2)] assms(3) by auto
  next
    case (notifies u content ts)
    then show ?thesis
      using keep by (cases rule: send_to_user_cases [of u "notify_packet (get_user_id r h) content ts" h])
        (simp_all add: conn_ops tables_shrink_ops assms(2))
  next
    case (answers d)
    then show ?thesis by (intro keep) (simp add: conn_ops tables_shrink_ops)
  qed
qed

lemma hub_run_inv:
  assumes "(hub_step r)\<^sup>*\<^sup>* h h'" and "hub_inv h" and "heap h r \<noteq> None"
  shows "hub_inv h' \<and> heap h' r \<noteq> None"
  using assms by (induction rule: rtranclp_induct) (auto dest: hub_step_inv)

lemma hub_inv_accepted:
  assumes inv: "hub_inv h" and r: "heap h r = None"
  shows "hub_inv (cm_start r (h\<lparr>heap := (heap h)(r \<mapsto> new_connection i)\<rparr>))" (is "hub_inv ?h")
proof -
  have heap: "heap ?h q = (if q = r then Some (new_connection i) else heap h q)" for q
    by simp
  have id: "conn_id (new_connection i) = i" by (simp add: new_connection_def)
  have "\<exists>c. heap ?h q = Some c \<and> conn_id c = j" if "conn_table ?h j = Some q" for j q
  proof (cases "j = i")
    case True
    then have "q = r" using that by (simp add: cm_start_def get_id_def id)
    then show ?thesis using True id by simp
  next
    case False
    then have "conn_table h j = Some q" using that by (simp add: cm_start_def get_id_def id)
    from hub_inv_table [OF inv this] r show ?thesis unfolding heap by auto
  qed
  moreover have "\<exists>q c. heap ?h q = Some c \<and> conn_id c = j \<and> u \<in> set (conn_logins c)"
    if "user_to_conn ?h u = Some j" for u j
  proof -
    have "user_to_conn h u = Some j" using that by (simp add: cm_start_def)
    from hub_inv_user [OF inv this] r show ?thesis unfolding heap by (metis option.distinct(1))
  qed
  ultimately show ?thesis unfolding hub_inv_def by blast
qed

lemma hub_inv_body:
  assumes "hub_inv (srv_hub s)" and "on_body env got r s = (res, s')"
  shows "hub_inv (srv_hub s')"
proof (cases got)
  case None
  then show ?thesis
    using assms hub_inv_keep [OF assms(1) histories.reading_ops(4) tables_shrink_ops(5)]
    by (auto simp: on_body_def on_hub_def)
next
  case (Some b)
  let ?s = "on_hub (on_body_read b r) s"
  have inv: "hub_inv (srv_hub ?s)"
    using hub_inv_keep [OF assms(1) histories.on_body_read] tables_shrink_ops(1)
    by (simp add: on_hub_def on_body_read_def)
  show ?thesis
  proof (cases "heap (srv_hub ?s) r")
    case None
    then show ?thesis using assms(2) Some inv by (simp add: on_body_def Let_def)
  next
    case c: (Some c)
    obtain res1 s1 where m: "handle_message env r (received_packet c) ?s = (res1, s1)"
      by (cases "handle_message env r (received_packet c) ?s")
    have 1: "hub_inv (srv_hub s1)"
      using hub_run_inv [OF hub_runD [OF hub_run_message, of r ?s env "received_packet c"] inv] c m by simp
    then have "hub_inv (do_read_header r (srv_hub s1))"
      using hub_inv_keep [OF 1 histories.reading_ops(1)] tables_shrink_ops(1) by (simp add: do_read_header_def)
    with 1 show ?thesis
      using assms(2) Some c m by (cases res1) (auto simp: on_body_def Let_def on_hub_def)
  qed
qed

lemma server_step_inv:
  assumes "server_step env starts s res s'" and "hub_inv (srv_hub s)"
  shows "hub_inv (srv_hub s')"
proof -
  note hub = on_hub_def run_posted_def chat_server_stop_def conn_start_def do_read_header_def
  have keep: ?thesis if "heap_rel history (srv_hub s) (srv_hub s')" "tables_shrink (srv_hub s) (srv_hub s')"
    using hub_inv_keep [OF assms(2) that] .
  from assms(1) show ?thesis
  proof (cases rule: server_step.cases)
    case (accepted r i)
    then show ?thesis using hub_inv_accepted [OF assms(2)] by (simp add: do_accept_def on_hub_def Let_def)
  next
    case accept_failed
    then show ?thesis using assms(2) by (simp add: do_accept_def)
  next
    case (body_done r c got)
    then show ?thesis using hub_inv_body [OF assms(2)] by blast
  next
    case (write_ended r c ok)
    then show ?thesis by (intro keep) (simp_all add: on_hub_def histories.on_write tables_shrink_ops)
  next
    case (started r c)
    then show ?thesis
      by (intro keep) (simp_all add: on_hub_def histories.reading_ops, simp add: hub tables_shrink_ops)
  qed (rule keep; simp add: hub histories.on_header histories.update histories.closure histories.same
      tables_shrink_ops del: post_closure.simps)+
qed

lemma server_reachable_inv: "server_reachable env starts t n s \<Longrightarrow> hub_inv (srv_hub s)"
proof (induction rule: server_reachable.induct)
  case initial
  show ?case by (simp add: chat_server_def new_hub_def hub_inv_def)
qed (rule server_step_inv)

section \<open>Users and connections the manager has lost track of\<close>

text \<open>
  The locale \<open>hub_property\<close>: what the handlers and the loop do to the hub, one primitive change at a
  time, keeps \<open>P\<close>. Such a property of the hub is kept by every run of the server.
\<close>

locale hub_property =
  fixes P :: "hub \<Rightarrow> bool"
  assumes updates: "P h \<Longrightarrow> (\<And>c. conn_user_id (f c) = conn_user_id c) \<Longrightarrow> P (update_conn r f h)"
    and stops: "P h \<Longrightarrow> P (cm_stop r h)"
    and logs: "P h \<Longrightarrow> \<not> is_user_online u h \<Longrightarrow> P (set_user_connection u (get_id r h) (set_user_id r u h))"
    and accepts: "P h \<Longrightarrow> heap h r = None \<Longrightarrow>
      P (cm_start r (h\<lparr>heap := (heap h)(r \<mapsto> new_connection i)\<rparr>))"
begin

lemma sent: "P h \<Longrightarrow> P (conn_send r d h)"
  unfolding conn_ops by (rule updates) (simp_all add: with_send_def)

lemma hub_step: "hub_step r h h' \<Longrightarrow> P h \<Longrightarrow> P h'"
proof (induction rule: hub_step.induct)
  case (notifies h u content ts)
  then show ?case
    by (cases rule: send_to_user_cases [of u "notify_packet (get_user_id r h) content ts" h]) (simp_all add: sent)
qed (simp_all add: sent logs)

lemma message: "P (srv_hub s) \<Longrightarrow> P (srv_hub (snd (handle_message env r p s)))"
proof -
  have "(hub_step r)\<^sup>*\<^sup>* h h' \<Longrightarrow> P h \<Longrightarrow> P h'" for h h'
    by (induction rule: rtranclp_induct) (auto intro: hub_step)
  then show "P (srv_hub s) \<Longrightarrow> ?thesis" using hub_runD [OF hub_run_message] by blast
qed

lemma reads: "P h \<Longrightarrow> P (do_read_header r h)" "P h \<Longrightarrow> P (on_body_read b r h)" "P h \<Longrightarrow> P (on_body_error r h)"
  "P h \<Longrightarrow> P (run_posted r h)" "P h \<Longrightarrow> P (on_write ok r h)" "P h \<Longrightarrow> P (on_header got r h)"
  unfolding do_read_header_def on_body_read_def on_body_error_def run_posted_def on_write_def on_header_def
    do_read_body_def Let_def
  by (auto intro!: updates stops simp: do_write_def Let_def split: option.split list.split)

lemma on_body: "on_body env got r s = (res, s') \<Longrightarrow> P (srv_hub s) \<Longrightarrow> P (srv_hub s')"
  using message [of "on_hub (on_body_read (the got) r) s" env r]
  by (auto simp: on_body_def on_hub_def Let_def intro: reads
      split: option.splits prod.splits run_result.splits) (metis reads(1) reads(2) snd_conv)+

lemma handled: "handled_step env starts s s' \<Longrightarrow> P (srv_hub s) \<Longrightarrow> P (srv_hub s')"
  unfolding handled_step_def
proof (erule server_step.cases)
  fix s1 r i
  assume "P (srv_hub s)" "s = s1" "s' = do_accept (Some (r, i)) s1" "heap (srv_hub s1) r = None"
  then show "P (srv_hub s')" using accepts [of "srv_hub s" r i] by (simp add: do_accept_def on_hub_def Let_def)
qed (auto simp: do_accept_def on_hub_def conn_start_def intro: reads on_body)

lemma run: "(handled_step env starts)\<^sup>*\<^sup>* s s' \<Longrightarrow> P (srv_hub s) \<Longrightarrow> P (srv_hub s')"
  by (induction rule: rtranclp_induct) (auto intro: handled)

end

text \<open>
  A user who is in the table while no connection is his any more, and a connection that is not in
  the table any more: both stay so.
\<close>

definition left_online :: "i32 \<Rightarrow> string \<Rightarrow> hub \<Rightarrow> bool" where
  "left_online u i h \<longleftrightarrow> u \<noteq> 0 \<and> user_to_conn h u = Some i \<and> (\<forall>q d. heap h q = Some d \<longrightarrow> conn_user_id d \<noteq> u)"

definition dropped :: "nat \<Rightarrow> hub \<Rightarrow> bool" where
  "dropped r h \<longleftrightarrow> heap h r \<noteq> None \<and> r \<notin> ran (conn_table h)"

interpretation left_users: hub_property "left_online u i" for u i
proof unfold_locales
  show "left_online u i (update_conn r f h)"
    if "left_online u i h" "\<And>c. conn_user_id (f c) = conn_user_id c" for h f r
    using that by (fastforce simp: left_online_def heap_update_conn)
  show "left_online u i (cm_stop r h)" if "left_online u i h" for h r
    using that by (auto simp: left_online_def cm_stop_def get_user_id_def Let_def split: option.splits)
  show "left_online u i (set_user_connection v (get_id r h) (set_user_id r v h))"
    if "left_online u i h" "\<not> is_user_online v h" for h v r
    using that by (auto simp: left_online_def conn_ops heap_update_conn with_login_def is_user_online_def
        set_user_connection_def)
  show "left_online u i (cm_start r (h\<lparr>heap := (heap h)(r \<mapsto> new_connection j)\<rparr>))" if "left_online u i h" for h r j
    using that by (auto simp: left_online_def cm_start_def new_connection_def)
qed

interpretation dropped_conns: hub_property "dropped q" for q
proof unfold_locales
  show "dropped q (cm_stop r h)" if "dropped q h" for h r
    using that by (auto simp: dropped_def ran_def cm_stop_def Let_def split: if_splits)
  show "dropped q (cm_start r (h\<lparr>heap := (heap h)(r \<mapsto> new_connection j)\<rparr>))"
    if "dropped q h" "heap h r = None" for h r j
    using that by (auto simp: dropped_def ran_def cm_start_def)
qed (auto simp: dropped_def heap_update_conn conn_ops set_user_connection_def)

end
