(* ===== verification/Server_Properties.thy ===== *)
theory Server_Properties
  imports Hub_Invariants
begin

text \<open>
  What the server as a whole promises: the order and the shape of what it writes, who receives
  notifications, what it does with the stream a client sends, and what goes wrong at the edges of a
  session.
\<close>

section \<open>A concrete server\<close>

definition demo_env :: server_env where
  "demo_env = \<lparr>env_mysql = healthy_env, env_redis = healthy_redis, env_now = (\<lambda>_. 0)\<rparr>"

definition demo_start :: server where
  "demo_start = do_accept (Some (0, ''c0'')) (chat_server demo_env no_tables 1)"

lemma demo_start_reachable: "server_reachable demo_env starts no_tables 1 demo_start"
  unfolding demo_start_def
  by (rule server_reachable.step, rule server_reachable.initial, rule server_step.accepted)
    (simp_all add: chat_server_def new_hub_def)

lemma demo_start_hub:
  "heap (srv_hub demo_start) = [0 \<mapsto> new_connection ''c0'']"
  "conn_table (srv_hub demo_start) = [''c0'' \<mapsto> 0]" "user_to_conn (srv_hub demo_start) = Map.empty"
  by (simp_all add: demo_start_def do_accept_def on_hub_def chat_server_def new_hub_def cm_start_def
      get_id_def new_connection_def)

text \<open>The same connection after a version check was answered and its answer written.\<close>

definition version_answer :: bytes where
  "version_answer = encode \<lparr>pkt_version = VERSION, pkt_command = VERSION_CHECK_RESP,
     pkt_data = encode_version_check_response
       \<lparr>vcresp_error_code = SUCCESS, vcresp_server_version = SERVER_APP_VERSION,
         vcresp_update_url = update_url, vcresp_update_desc = update_desc\<rparr>\<rparr>"

definition version_header :: bytes where
  "version_header = [1, 0, 0x10, 0, 0, 0, 4]"

definition demo_header :: server where
  "demo_header = on_hub (on_header (Some version_header) 0) (on_hub (conn_start 0) demo_start)"

definition demo_answered :: server where
  "demo_answered = snd (on_body demo_env (Some [0, 0, 0, 1]) 0 demo_header)"

definition demo_written :: server where
  "demo_written = on_hub (on_write True 0) (on_hub (run_posted 0) demo_answered)"

lemma version_header_length: "body_length version_header = 4"
  by code_simp

lemma four: "replicate 4 x = [x, x, x, x]"
  by (simp add: numeral_eq_Suc)

lemma demo_header_conn:
  "heap (srv_hub demo_header) 0 = Some ((new_connection ''c0'')\<lparr>header_buffer := version_header,
     body_buffer := [0, 0, 0, 0], conn_reading := Reading_body\<rparr>)"
  using demo_start_hub(1)
  by (simp add: demo_header_def on_hub_def on_header_def conn_start_def do_read_header_def
      do_read_body_def update_conn_def version_header_length Let_def new_connection_def four)

lemma demo_answered_conn:
  "on_body demo_env (Some [0, 0, 0, 1]) 0 demo_header = (Handled, demo_answered)"
  "heap (srv_hub demo_answered) 0 = Some ((new_connection ''c0'')\<lparr>header_buffer := version_header,
     body_buffer := [0, 0, 0, 1], conn_reading := Reading_header, conn_posted := [version_answer],
     conn_sends := [version_answer]\<rparr>)"
proof -
  let ?p = "\<lparr>pkt_version = 1, pkt_command = VERSION_CHECK_REQ, pkt_data = [0, 0, 0, 1] :: bytes\<rparr>"
  have p: "received_packet ((new_connection ''c0'')\<lparr>header_buffer := version_header,
      body_buffer := [0, 0, 0, 1], conn_reading := No_read\<rparr>) = ?p"
    by code_simp
  have d: "decode_version_check_request [0, 0, 0, 1] = Some (Decoded \<lparr>vcreq_client_version = 1\<rparr>)"
    by code_simp
  have m: "handle_message demo_env 0 ?p s = (Handled, on_hub (conn_send 0 version_answer) s)" for s
    by (simp add: handle_message_def on_decoded_def d handle_version_check_def send_response_def
        version_answer_def)
  have b: "heap (srv_hub (on_hub (on_body_read [0, 0, 0, 1] 0) demo_header)) 0
      = Some ((new_connection ''c0'')\<lparr>header_buffer := version_header,
          body_buffer := [0, 0, 0, 1], conn_reading := No_read\<rparr>)"
    using demo_header_conn by (simp add: on_hub_def on_body_read_def update_conn_def new_connection_def)
  have run: "on_body demo_env (Some [0, 0, 0, 1]) 0 demo_header = (Handled, on_hub (do_read_header 0)
      (on_hub (conn_send 0 version_answer) (on_hub (on_body_read [0, 0, 0, 1] 0) demo_header)))"
    by (simp add: on_body_def Let_def b p m)
  then show "on_body demo_env (Some [0, 0, 0, 1]) 0 demo_header = (Handled, demo_answered)"
    by (simp add: demo_answered_def)
  show "heap (srv_hub demo_answered) 0 = Some ((new_connection ''c0'')\<lparr>header_buffer := version_header,
     body_buffer := [0, 0, 0, 1], conn_reading := Reading_header, conn_posted := [version_answer],
     conn_sends := [version_answer]\<rparr>)"
    using b by (simp add: demo_answered_def run on_hub_def do_read_header_def conn_send_def
        update_conn_def new_connection_def)
qed

lemma demo_answered_reachable: "server_reachable demo_env True no_tables 1 demo_answered"
proof -
  let ?s1 = "on_hub (conn_start 0) demo_start"
  have 1: "server_reachable demo_env True no_tables 1 ?s1"
    by (rule server_reachable.step [OF demo_start_reachable],
        rule server_step.started [where c = "new_connection ''c0''"])
      (simp_all add: demo_start_hub, simp add: new_connection_def)
  have c1: "heap (srv_hub ?s1) 0 = Some ((new_connection ''c0'')\<lparr>conn_reading := Reading_header\<rparr>)"
    by (simp add: demo_start_hub on_hub_def conn_start_def do_read_header_def update_conn_def)
  have 2: "server_reachable demo_env True no_tables 1 demo_header"
    unfolding demo_header_def
    by (rule server_reachable.step [OF 1], rule server_step.header_done [OF c1])
      (simp_all add: version_header_def HEADER_SIZE_def)
  show ?thesis
    by (rule server_reachable.step [OF 2], rule server_step.body_done [OF demo_header_conn, where got = "Some [0, 0, 0, 1]"])
      (simp_all add: demo_answered_conn)
qed

text \<open>The answer is being written, and then is written.\<close>

definition demo_writing :: server where
  "demo_writing = on_hub (run_posted 0) demo_answered"

lemma demo_writing_conn:
  "server_reachable demo_env True no_tables 1 demo_writing"
  "heap (srv_hub demo_writing) 0 = Some ((new_connection ''c0'')\<lparr>header_buffer := version_header,
     body_buffer := [0, 0, 0, 1], conn_reading := Reading_header, write_buffer := [version_answer],
     conn_writing := True, conn_sends := [version_answer]\<rparr>)"
proof -
  show "server_reachable demo_env True no_tables 1 demo_writing"
    unfolding demo_writing_def
    by (rule server_reachable.step [OF demo_answered_reachable], rule server_step.closure_run [OF demo_answered_conn(2)])
  show "heap (srv_hub demo_writing) 0 = Some ((new_connection ''c0'')\<lparr>header_buffer := version_header,
     body_buffer := [0, 0, 0, 1], conn_reading := Reading_header, write_buffer := [version_answer],
     conn_writing := True, conn_sends := [version_answer]\<rparr>)"
    using demo_answered_conn(2)
    by (simp add: demo_writing_def on_hub_def run_posted_def update_conn_def new_connection_def do_write_def)
qed

lemma demo_written_reachable:
  "server_reachable demo_env True no_tables 1 demo_written"
  "heap (srv_hub demo_written) 0 = Some ((new_connection ''c0'')\<lparr>header_buffer := version_header,
     body_buffer := [0, 0, 0, 1], conn_reading := Reading_header, conn_wire := version_answer,
     conn_sends := [version_answer]\<rparr>)"
proof -
  have w: "demo_written = on_hub (on_write True 0) demo_writing" by (simp add: demo_written_def demo_writing_def)
  show "server_reachable demo_env True no_tables 1 demo_written"
    unfolding w
    by (rule server_reachable.step [OF demo_writing_conn(1)], rule server_step.write_ended [OF demo_writing_conn(2)]) simp
  show "heap (srv_hub demo_written) 0 = Some ((new_connection ''c0'')\<lparr>header_buffer := version_header,
     body_buffer := [0, 0, 0, 1], conn_reading := Reading_header, conn_wire := version_answer,
     conn_sends := [version_answer]\<rparr>)"
    using demo_writing_conn(2) by (simp add: w on_hub_def on_write_def update_conn_def new_connection_def Let_def)
qed

section \<open>What the server writes, and to whom\<close>

text \<open>
  C6. In every reachable state, whatever order completions, errors and new connections come in:
  what \<open>send\<close> was given on a connection is, in order and without a gap, the bytes already written,
  the write queue and the posted closures; a running write has its buffer in the queue; and every
  piece is one whole packet, an answer or a notification from a logged-in user.
\<close>

theorem wire_is_fifo:
  assumes "server_reachable env starts t n s" and "heap (srv_hub s) r = Some c"
  shows "concat (conn_sends c) = conn_wire c @ concat (write_buffer c @ conn_posted c) \<and>
    (conn_writing c \<longrightarrow> write_buffer c \<noteq> []) \<and> list_all server_output (conn_sends c)"
  using reachable_conn_inv [OF assms]
  by (auto simp: conn_inv_def list_all_iff)

theorem wire_is_fifo_witness:
  "\<exists>c. heap (srv_hub demo_written) 0 = Some c \<and> conn_wire c = version_answer \<and>
     list_all server_output (conn_sends c)"
  using wire_is_fifo [OF demo_written_reachable] by (simp add: demo_written_reachable)

text \<open>
  Nothing keeps the ids apart: when a new connection is given the id of the connection of a user
  who is online, it takes his place in the table, and whatever is sent to him from then on goes to
  the new connection, on which nobody logged in, and not to his own.
\<close>

lemma id_collision_takes_over:
  assumes "user_to_conn (srv_hub s) u = Some i" and "heap (srv_hub s) r = None"
  shows "\<exists>s' c. server_step env starts s Handled s' \<and> heap (srv_hub s') r = Some c \<and> conn_logins c = [] \<and>
    is_user_online u (srv_hub s') \<and> send_to_user u data (srv_hub s') = (True, conn_send r data (srv_hub s'))"
proof -
  let ?s = "do_accept (Some (r, i)) s"
  have "server_step env starts s Handled ?s" by (rule server_step.accepted) (rule assms(2))
  moreover have "heap (srv_hub ?s) r = Some (new_connection i)" "conn_logins (new_connection i) = []"
    by (simp_all add: do_accept_def on_hub_def new_connection_def)
  moreover have "user_to_conn (srv_hub ?s) u = Some i" "conn_table (srv_hub ?s) i = Some r"
    using assms(1) by (simp_all add: do_accept_def on_hub_def cm_start_def get_id_def new_connection_def)
  ultimately show ?thesis
    by (intro exI [of _ ?s] exI [of _ "new_connection i"]) (simp add: is_user_online_def send_to_user_def)
qed

text \<open>
  C7. Whom a message for a user reaches: in every reachable state, when \<open>send_to_user\<close> finds a
  connection, it sends on that one and touches no other; the connection has the id of a connection
  on which this user logged in; and as long as no two connections were given the same id, it is a
  connection that this user logged in on. Nothing keeps the ids apart, and the restriction is needed:
  in every such state, the next connection accepted, if it is given that id, takes the place of his
  connection, and what is sent to him from then on goes to the new one, on which nobody logged in.
\<close>

theorem notifications_reach_their_user:
  assumes "server_reachable env starts t n s" and "send_to_user u data (srv_hub s) = (True, h)"
  shows "\<exists>q c. heap (srv_hub s) q = Some c \<and> h = conn_send q data (srv_hub s) \<and>
    (\<exists>r d. heap (srv_hub s) r = Some d \<and> conn_id d = conn_id c \<and> u \<in> set (conn_logins d)) \<and>
    (ids_distinct (srv_hub s) \<longrightarrow> u \<in> set (conn_logins c)) \<and>
    (\<forall>x. heap (srv_hub s) x = None \<longrightarrow> (\<exists>s' d. server_step env starts s Handled s' \<and>
       heap (srv_hub s') x = Some d \<and> conn_logins d = [] \<and> is_user_online u (srv_hub s') \<and>
       send_to_user u data (srv_hub s') = (True, conn_send x data (srv_hub s'))))"
proof -
  note inv = server_reachable_inv [OF assms(1)]
  obtain i q where i: "user_to_conn (srv_hub s) u = Some i" "conn_table (srv_hub s) i = Some q"
    and h: "h = conn_send q data (srv_hub s)"
    using assms(2) by (cases rule: send_to_user_cases [of u data "srv_hub s"]) auto
  obtain r d where r: "heap (srv_hub s) r = Some d" "conn_id d = i" "u \<in> set (conn_logins d)"
    using hub_inv_user [OF inv i(1)] by blast
  obtain c where c: "heap (srv_hub s) q = Some c" "conn_id c = i"
    using hub_inv_table [OF inv i(2)] by blast
  have "u \<in> set (conn_logins c)" if "ids_distinct (srv_hub s)"
  proof -
    have "q = r" using that c r unfolding ids_distinct_def by metis
    then show ?thesis using c r by simp
  qed
  moreover have "\<forall>x. heap (srv_hub s) x = None \<longrightarrow> (\<exists>s' d. server_step env starts s Handled s' \<and>
       heap (srv_hub s') x = Some d \<and> conn_logins d = [] \<and> is_user_online u (srv_hub s') \<and>
       send_to_user u data (srv_hub s') = (True, conn_send x data (srv_hub s')))"
    using id_collision_takes_over [OF i(1)] by blast
  ultimately show ?thesis using r c h by (intro exI [of _ q] exI [of _ c]) auto
qed

section \<open>The server as it is\<close>

definition untouched :: "connection \<Rightarrow> bool" where
  "untouched c \<longleftrightarrow> conn_reading c = No_read \<and> conn_posted c = [] \<and> write_buffer c = [] \<and>
     \<not> conn_writing c \<and> conn_sends c = [] \<and> conn_logins c = [] \<and> conn_wire c = []"

lemma deaf_step:
  assumes "server_step env False s res s'" and "\<forall>r c. heap (srv_hub s) r = Some c \<longrightarrow> untouched c"
  shows "(\<forall>r c. heap (srv_hub s') r = Some c \<longrightarrow> untouched c) \<and> res \<in> {Handled, Stopped} \<and> srv_pool s' = srv_pool s \<and>
    (user_to_conn (srv_hub s) = Map.empty \<longrightarrow> user_to_conn (srv_hub s') = Map.empty)"
  using assms(1)
proof (cases rule: server_step.cases)
  case (accepted r i)
  then show ?thesis using assms(2)
    by (auto simp: do_accept_def on_hub_def cm_start_def new_connection_def untouched_def Let_def)
next
  case accept_failed
  then show ?thesis using assms(2) by (simp add: do_accept_def)
next
  case (header_done r c got)
  then show ?thesis using assms(2) by (auto simp: untouched_def)
next
  case (body_done r c got)
  then show ?thesis using assms(2) by (auto simp: untouched_def)
next
  case (closure_run r c)
  have "heap (run_posted r (srv_hub s)) q = heap (srv_hub s) q" for q
    using assms(2) closure_run(3) by (auto simp: run_posted_def heap_update_conn untouched_def)
  then show ?thesis using assms(2) closure_run by (simp add: on_hub_def run_posted_def)
next
  case (write_ended r c ok)
  then show ?thesis using assms(2) by (auto simp: untouched_def)
next
  case stopped
  then show ?thesis using assms(2) by (simp add: chat_server_stop_def on_hub_def stop_all_def)
qed simp

text \<open>
  C28. Nothing ever calls \<open>Connection::start\<close>, so the server is deaf: in every reachable state of the
  program as it is, no connection reads, nobody is online, nothing was sent to anybody and the
  database was not asked anything since the pool was built.
\<close>

theorem server_is_deaf:
  assumes "server_reachable env False t n s"
  shows "(\<forall>r c. heap (srv_hub s) r = Some c \<longrightarrow> conn_reading c = No_read \<and> conn_sends c = []) \<and>
    user_to_conn (srv_hub s) = Map.empty \<and> srv_pool s = snd (database_pool (env_mysql env) t n)"
proof -
  have "(\<forall>r c. heap (srv_hub s) r = Some c \<longrightarrow> untouched c) \<and>
      user_to_conn (srv_hub s) = Map.empty \<and> srv_pool s = snd (database_pool (env_mysql env) t n)"
    using assms
  proof (induction rule: server_reachable.induct)
    case initial
    then show ?case by (simp add: chat_server_def new_hub_def)
  next
    case (step s s')
    then show ?case using deaf_step [of env s Handled s'] by simp
  qed
  then show ?thesis by (auto simp: untouched_def)
qed

theorem server_is_deaf_witness:
  "\<exists>c. server_reachable demo_env False no_tables 1 demo_start \<and> heap (srv_hub demo_start) 0 = Some c \<and>
     conn_reading c = No_read \<and> conn_sends c = []"
  using server_is_deaf [OF demo_start_reachable] demo_start_reachable by (simp add: demo_start_hub)

section \<open>The stream a client sends\<close>

text \<open>
  \<open>deliver\<close>: the bytes of the stream arrive; a read completes when all the bytes it waits for are
  there, and its handler runs before the next one starts.
\<close>

function deliver :: "server_env \<Rightarrow> nat \<Rightarrow> bytes \<Rightarrow> handler" where
  "deliver env r b s =
     (case heap (srv_hub s) r of
        None \<Rightarrow> (Handled, s)
      | Some c \<Rightarrow>
          if conn_reading c = Reading_header \<and> HEADER_SIZE \<le> length b
          then deliver env r (drop HEADER_SIZE b) (on_hub (on_header (Some (take HEADER_SIZE b)) r) s)
          else (let n = length (body_buffer c)
                in if conn_reading c = Reading_body \<and> 0 < n \<and> n \<le> length b
                   then (case on_body env (Some (take n b)) r s of
                           (Handled, s) \<Rightarrow> deliver env r (drop n b) s
                         | other \<Rightarrow> other)
                   else (Handled, s)))"
  by pat_completeness auto
termination
  by (relation "measure (\<lambda>(env, r, b, s). length b)") (auto simp: HEADER_SIZE_def simp flip: length_greater_0_conv
    simp del: length_greater_0_conv)

declare deliver.simps [simp del]

text \<open>\<open>deliver\<close> only takes steps of the server: what it reaches is reachable.\<close>

lemma deliver_reachable:
  assumes "server_reachable env starts t n s" and "deliver env r b s = (Handled, s')"
  shows "server_reachable env starts t n s'"
  using assms
proof (induction env r b s rule: deliver.induct)
  case (1 env r b s)
  show ?case
  proof (cases "heap (srv_hub s) r")
    case None
    then show ?thesis using 1 by (subst (asm) (2) deliver.simps) simp
  next
    case (Some c)
    show ?thesis
    proof (cases "conn_reading c = Reading_header \<and> HEADER_SIZE \<le> length b")
      case True
      let ?s = "on_hub (on_header (Some (take HEADER_SIZE b)) r) s"
      have "server_step env starts s Handled ?s"
        using True by (intro server_step.header_done [OF Some]) simp_all
      with 1(3) have "server_reachable env starts t n ?s" by (rule server_reachable.step)
      moreover have "deliver env r (drop HEADER_SIZE b) ?s = (Handled, s')"
        using 1(4) Some True by (subst (asm) deliver.simps) simp
      ultimately show ?thesis using 1(1) [OF Some True] by blast
    next
      case False
      let ?n = "length (body_buffer c)"
      show ?thesis
      proof (cases "conn_reading c = Reading_body \<and> 0 < ?n \<and> ?n \<le> length b")
        case True
        obtain res s1 where m: "on_body env (Some (take ?n b)) r s = (res, s1)"
          by (cases "on_body env (Some (take ?n b)) r s")
        have step: "server_step env starts s res s1"
          using True by (intro server_step.body_done [OF Some _ _ m]) simp_all
        have d: "(case (res, s1) of (Handled, s) \<Rightarrow> deliver env r (drop ?n b) s | other \<Rightarrow> other) = (Handled, s')"
          using 1(4) Some False True m by (subst (asm) deliver.simps) (simp add: Let_def)
        then have "res = Handled" by (cases res) simp_all
        with d step 1(3) show ?thesis
          using 1(2) [OF Some False refl True m [symmetric]] server_reachable.step by simp
      next
        case no: False
        then show ?thesis using 1(3,4) Some False by (subst (asm) deliver.simps) (auto simp: Let_def)
      qed
    qed
  qed
qed

text \<open>The handlers of a list of packets, one after the other, and the read that follows each.\<close>

fun serve_packets :: "server_env \<Rightarrow> nat \<Rightarrow> packet list \<Rightarrow> handler" where
  "serve_packets env r [] s = (Handled, s)"
| "serve_packets env r (p # ps) s =
     (case handle_message env r p (on_hub (on_body_read (pkt_data p) r)
          (on_hub (on_header (Some (take HEADER_SIZE (encode p))) r) s)) of
        (Handled, s) \<Rightarrow> serve_packets env r ps (on_hub (do_read_header r) s)
      | other \<Rightarrow> other)"

definition served_packet :: "packet \<Rightarrow> bool" where
  "served_packet p \<longleftrightarrow> 0 < length (pkt_data p) \<and> length (pkt_data p) < 1024 * 1024 \<and>
     canonical_command (pkt_command p)"

lemma header_of_encode:
  assumes "served_packet p"
  shows "body_length (take HEADER_SIZE (encode p)) = word_of_nat (length (pkt_data p))"
    and "received_packet (c\<lparr>header_buffer := take HEADER_SIZE (encode p), body_buffer := pkt_data p\<rparr>) = p"
    and "drop HEADER_SIZE (encode p) = pkt_data p" and "HEADER_SIZE \<le> length (encode p)"
    and "length (encode p) = HEADER_SIZE + length (pkt_data p)"
proof -
  let ?e = "encode p"
  have e: "read_uint32 ?e 3 = Some (word_of_nat (length (pkt_data p)))" "read_uint16 ?e 1 = Some (command_u16 (pkt_command p))"
    "load ?e 0 = Some (pkt_version p)" "drop 7 ?e = pkt_data p" "7 \<le> length ?e"
    using read_header [OF encode_flat [of p]] by (simp_all add: length_encode)
  show "body_length (take HEADER_SIZE ?e) = word_of_nat (length (pkt_data p))"
    using e(1,5) by (simp add: body_length_def HEADER_SIZE_def read_uint32_def load_def split: if_splits)
  show "received_packet (c\<lparr>header_buffer := take HEADER_SIZE ?e, body_buffer := pkt_data p\<rparr>) = p"
    using e(2,3,5) assms
    by (simp add: received_packet_def HEADER_SIZE_def read_uint16_def load_def Let_def served_packet_def
        canonical_command_def numeral_2_eq_2 split: if_splits)
  show "drop HEADER_SIZE ?e = pkt_data p" "HEADER_SIZE \<le> length ?e"
    "length ?e = HEADER_SIZE + length (pkt_data p)"
    using e by (simp_all add: HEADER_SIZE_def length_encode)
qed

lemma handle_message_keeps_conn:
  assumes "heap (srv_hub s) r = Some c"
  shows "\<exists>c'. heap (srv_hub (snd (handle_message env r p s))) r = Some c' \<and>
    header_buffer c' = header_buffer c \<and> body_buffer c' = body_buffer c \<and> conn_reading c' = conn_reading c"
  using heap_rel_some [OF read_buffers.message assms] by (auto simp: same_reads_def)

text \<open>One packet at the head of the stream.\<close>

lemma deliver_packet:
  assumes "heap (srv_hub s) r = Some c" and "conn_reading c = Reading_header" and "served_packet p"
  shows "deliver env r (encode p @ rest) s =
    (case handle_message env r p (on_hub (on_body_read (pkt_data p) r)
        (on_hub (on_header (Some (take HEADER_SIZE (encode p))) r) s)) of
       (Handled, s) \<Rightarrow> deliver env r rest (on_hub (do_read_header r) s)
     | other \<Rightarrow> other)"
proof -
  note e = header_of_encode [OF assms(3)]
  let ?hdr = "take HEADER_SIZE (encode p)"
  let ?s1 = "on_hub (on_header (Some ?hdr) r) s"
  let ?c1 = "c\<lparr>header_buffer := ?hdr, body_buffer := resize (length (pkt_data p)) (body_buffer c), conn_reading := Reading_body\<rparr>"
  let ?s2 = "on_hub (on_body_read (pkt_data p) r) ?s1"
  let ?c2 = "c\<lparr>header_buffer := ?hdr, body_buffer := pkt_data p, conn_reading := No_read\<rparr>"
  have len: "0 < length (pkt_data p)" "length (pkt_data p) < 1048576"
    using assms(3) by (simp_all add: served_packet_def)
  then have word: "unat (word_of_nat (length (pkt_data p)) :: u32) = length (pkt_data p)"
    by (simp add: unat_of_nat_u32)
  have "(0 :: u32) < word_of_nat (length (pkt_data p))" "(word_of_nat (length (pkt_data p)) :: u32) < 1024 * 1024"
    using len word by (simp_all add: word_less_nat_alt)
  then have c1: "heap (srv_hub ?s1) r = Some ?c1"
    using assms(1) by (simp add: on_hub_def on_header_def e(1) Let_def do_read_body_def update_conn_def word)
  then have c2: "heap (srv_hub ?s2) r = Some ?c2"
    by (simp add: on_hub_def on_body_read_def update_conn_def)
  have p: "received_packet ?c2 = p"
    using e(2) [of c] by (simp add: received_packet_def)
  have "deliver env r (encode p @ rest) s = deliver env r (pkt_data p @ rest) ?s1"
    using assms(1,2) e(3,4,5) by (subst deliver.simps) simp
  also have "\<dots> = (case on_body env (Some (pkt_data p)) r ?s1 of
      (Handled, s) \<Rightarrow> deliver env r rest s | other \<Rightarrow> other)"
    using len(1) c1 by (subst deliver.simps) (simp split: prod.splits run_result.splits)
  also have "\<dots> = (case handle_message env r p ?s2 of
       (Handled, s) \<Rightarrow> deliver env r rest (on_hub (do_read_header r) s) | other \<Rightarrow> other)"
    using c2 p by (simp add: on_body_def Let_def split: prod.splits run_result.splits)
  finally show ?thesis .
qed

text \<open>
  C4. A started connection serves exactly the packets its client encoded: when a stream of encoded
  packets with bodies of 1 byte to 1 MiB arrives, the server decodes each packet to what was
  encoded and runs its handler, in order, each to its end before the next is read.
\<close>

theorem server_serves_the_stream:
  assumes "heap (srv_hub s) r = Some c" and "conn_reading c = Reading_header"
    and "\<forall>p\<in>set ps. served_packet p"
  shows "deliver env r (concat (map encode ps)) s = serve_packets env r ps s"
  using assms
proof (induction ps arbitrary: s c)
  case Nil
  then show ?case by (subst deliver.simps) (simp add: HEADER_SIZE_def)
next
  case (Cons p ps)
  let ?s2 = "on_hub (on_body_read (pkt_data p) r) (on_hub (on_header (Some (take HEADER_SIZE (encode p))) r) s)"
  obtain res s3 where m: "handle_message env r p ?s2 = (res, s3)" by (cases "handle_message env r p ?s2")
  have step: "deliver env r (concat (map encode (p # ps))) s =
    (case (res, s3) of (Handled, s) \<Rightarrow> deliver env r (concat (map encode ps)) (on_hub (do_read_header r) s)
     | other \<Rightarrow> other)"
    using deliver_packet [OF Cons.prems(1,2), of p env "concat (map encode ps)"] Cons.prems(3) m by simp
  have "\<exists>c2. heap (srv_hub ?s2) r = Some c2"
    using Cons.prems(1)
    by (auto simp: on_hub_def on_body_read_def heap_update_conn on_header_def cm_stop_def do_read_body_def Let_def)
  then obtain c3 where "heap (srv_hub s3) r = Some c3"
    using handle_message_keeps_conn [of ?s2 r _ env p] m by fastforce
  then have "heap (srv_hub (on_hub (do_read_header r) s3)) r = Some (c3\<lparr>conn_reading := Reading_header\<rparr>)"
    by (simp add: on_hub_def do_read_header_def update_conn_def)
  from Cons.IH [OF this] show ?case
    using step Cons.prems(3) m by (simp split: run_result.split)
qed

theorem server_serves_the_stream_witness:
  "deliver demo_env 0 (concat (map encode [\<lparr>pkt_version = 1, pkt_command = VERSION_CHECK_REQ, pkt_data = [0, 0, 0, 1]\<rparr>]))
       (on_hub (conn_start 0) demo_start)
     = serve_packets demo_env 0 [\<lparr>pkt_version = 1, pkt_command = VERSION_CHECK_REQ, pkt_data = [0, 0, 0, 1]\<rparr>]
         (on_hub (conn_start 0) demo_start)"
  by (rule server_serves_the_stream [where c = "(new_connection ''c0'')\<lparr>conn_reading := Reading_header\<rparr>"])
    (simp_all add: demo_start_hub on_hub_def conn_start_def do_read_header_def update_conn_def served_packet_def
      canonical_command_def command_of_u16_def)

section \<open>The edges of a session\<close>

lemma cl_friend_list_bytes: "cl_encode_friend_list_request = [1, 0, 6, 0, 0, 0, 0]"
  by code_simp

text \<open>
  C32. The client's own request for the friend list ends the session: its body is empty, and the
  server takes a body length of 0 for a protocol error. Whatever follows on the stream, no handler
  runs, nothing is sent, the connection is out of the table and is never read again.
\<close>

theorem friend_list_request_disconnects:
  assumes "heap (srv_hub s) r = Some c" and "conn_reading c = Reading_header"
  shows "\<exists>s' c'. deliver env r (cl_encode_friend_list_request @ rest) s = (Handled, s') \<and>
    heap (srv_hub s') r = Some c' \<and> conn_reading c' = No_read \<and> conn_sends c' = conn_sends c \<and>
    conn_table (srv_hub s') (conn_id c) = None \<and> srv_pool s' = srv_pool s"
proof -
  let ?s = "on_hub (on_header (Some cl_encode_friend_list_request) r) s"
  let ?c = "c\<lparr>conn_reading := No_read, header_buffer := cl_encode_friend_list_request\<rparr>"
  have len: "body_length cl_encode_friend_list_request = 0"
    unfolding cl_friend_list_bytes by code_simp
  have c: "heap (srv_hub ?s) r = Some ?c"
    using assms(1) by (simp add: on_hub_def on_header_def len update_conn_def cm_stop_def Let_def)
  have t: "conn_table (srv_hub ?s) (conn_id c) = None"
    using assms(1) by (simp add: on_hub_def on_header_def len cm_stop_def get_id_def heap_update_conn Let_def)
  have "length cl_encode_friend_list_request = HEADER_SIZE"
    by (simp add: cl_friend_list_bytes HEADER_SIZE_def)
  then have "deliver env r (cl_encode_friend_list_request @ rest) s = deliver env r rest ?s"
    using assms by (subst deliver.simps) simp
  also have "\<dots> = (Handled, ?s)"
    using c by (subst deliver.simps) simp
  finally show ?thesis using c t by (intro exI [of _ ?s] exI [of _ ?c]) (simp add: on_hub_def)
qed

theorem friend_list_request_disconnects_witness:
  "\<exists>s' c'. deliver demo_env 0 (cl_encode_friend_list_request @ [1, 0, 1]) (on_hub (conn_start 0) demo_start)
       = (Handled, s') \<and> heap (srv_hub s') 0 = Some c' \<and> conn_reading c' = No_read \<and>
     conn_table (srv_hub s') ''c0'' = None"
  using friend_list_request_disconnects [of "on_hub (conn_start 0) demo_start" 0
      "(new_connection ''c0'')\<lparr>conn_reading := Reading_header\<rparr>" demo_env "[1, 0, 1]"]
  by (simp add: demo_start_hub on_hub_def conn_start_def do_read_header_def update_conn_def)
    (auto simp: new_connection_def)

text \<open>A login and the end of a session, as they change the hub.\<close>

definition hub_login :: "nat \<Rightarrow> i32 \<Rightarrow> hub \<Rightarrow> hub" where
  "hub_login r u h = set_user_connection u (get_id r h) (set_user_id r u h)"


end
