(* ===== verification/Handler_Properties.thy ===== *)
theory Handler_Properties
  imports Server_Properties
begin

text \<open>
  What each request handler decides and what it changes, for a server whose database answers: login,
  registration, password reset, chat messages, and that every request is answered.
\<close>

section \<open>The cache in a handler\<close>

text \<open>
  A write to the cache by a handler only replaces the cache: the handler goes on with what it does
  next, on the same connections and the same tables.
\<close>

context cache_write begin

lemma continues:
  assumes "\<not> cache_locked (srv_cache s)"
  shows "\<exists>c. \<not> cache_locked c \<and> (\<forall>k. on_cache op k s = k (s\<lparr>srv_cache := c\<rparr>))"
  using returns [OF assms] by (auto simp: on_cache_def)

end

lemma mh_sha256: "mh_sha256 env s = sha256 (env_mysql env) s"
  by (simp add: mh_sha256_def sha256_def)

section \<open>Login\<close>

definition login_response_packet :: "error_code \<Rightarrow> i32 \<Rightarrow> string \<Rightarrow> bytes" where
  "login_response_packet e uid name = encode \<lparr>pkt_version = VERSION, pkt_command = LOGIN_RESP,
     pkt_data = encode_login_response
       \<lparr>lresp_error_code = e, lresp_user_id = uid, lresp_username = name\<rparr>\<rparr>"

lemma login_answer_run:
  "login_answer r e uid name s = (Handled, on_hub (conn_send r (login_response_packet e uid name)) s)"
  by (simp add: login_answer_def send_response_def login_response_packet_def)

lemma login_caches:
  assumes "\<not> cache_locked (srv_cache s)"
  shows "\<exists>c. \<not> cache_locked c \<and> (\<forall>k. on_cache (cache_set_online env i b)
    (on_cache (cache_set_connection_id env i n) k) s = k (s\<lparr>srv_cache := c\<rparr>))"
proof -
  obtain c1 where c1: "\<not> cache_locked c1"
    "\<And>k. on_cache (cache_set_online env i b) k s = k (s\<lparr>srv_cache := c1\<rparr>)"
    using set_online.continues [OF assms] by blast
  have "\<not> cache_locked (srv_cache (s\<lparr>srv_cache := c1\<rparr>))" using c1(1) by simp
  from set_connection.continues [OF this] show ?thesis by (simp add: c1(2))
qed

lemma login_runs:
  assumes ready: "account_ready ru (env_mysql env) (srv_pool s)" and free: "\<not> cache_locked (srv_cache s)"
  obtains s' where "handle_login env r req s = (Handled, s')"
    "account_ready ru (env_mysql env) (srv_pool s')" "\<not> cache_locked (srv_cache s')"
    "db_tables (srv_pool s') = db_tables (srv_pool s)"
    "srv_hub s' =
      (case account_of ru (db_tables (srv_pool s)) (lreq_username req) of
         None \<Rightarrow> conn_send r (login_response_packet USER_NOT_FOUND 0 []) (srv_hub s)
       | Some u \<Rightarrow>
           if ur_password_hash u \<noteq> mh_sha256 env (lreq_password req)
           then conn_send r (login_response_packet USER_NOT_FOUND 0 []) (srv_hub s)
           else if is_user_online (user_id_of u) (srv_hub s)
           then conn_send r (login_response_packet USER_ALREADY_ONLINE 0 []) (srv_hub s)
           else conn_send r (login_response_packet SUCCESS (user_id_of u) (ur_username u))
                  (hub_login r (user_id_of u) (srv_hub s)))"
proof -
  let ?p = "after_call (srv_pool s) 7 (db_tables (srv_pool s))"
  let ?s = "s\<lparr>srv_pool := ?p\<rparr>"
  let ?acc = "account_of ru (db_tables (srv_pool s)) (lreq_username req)"
  have ready': "account_ready ru (env_mysql env) ?p"
    using ready by (simp add: account_ready_def)
  note v = verify_runs [OF ready, of "lreq_username req" "lreq_password req" "stack_user env"]
  consider (bad) "?acc = None \<or> (\<exists>u. ?acc = Some u \<and> ur_password_hash u \<noteq> sha256 (env_mysql env) (lreq_password req))"
    | (good) u where "?acc = Some u" "ur_password_hash u = sha256 (env_mysql env) (lreq_password req)"
    by (cases ?acc) auto
  then show thesis
  proof cases
    case bad
    then have "handle_login env r req s = (Handled, on_hub (conn_send r (login_response_packet USER_NOT_FOUND 0 [])) ?s)"
      by (auto simp: handle_login_def on_db_def v login_answer_run)
    then show thesis
      by (rule that) (use ready' free bad in \<open>auto simp: on_hub_def mh_sha256\<close>)
  next
    case (good u)
    show thesis
    proof (cases "is_user_online (user_id_of u) (srv_hub s)")
      case True
      then have "handle_login env r req s
          = (Handled, on_hub (conn_send r (login_response_packet USER_ALREADY_ONLINE 0 [])) ?s)"
        using good by (simp add: handle_login_def on_db_def v login_answer_run)
      then show thesis
        by (rule that) (use ready' free good True in \<open>auto simp: on_hub_def mh_sha256\<close>)
    next
      case False
      let ?s1 = "on_hub (\<lambda>h. set_user_connection (user_id_of u) (get_id r h) h)
        (on_hub (set_user_id r (user_id_of u)) ?s)"
      have "\<not> cache_locked (srv_cache ?s1)" using free by (simp add: on_hub_def)
      then obtain c where c: "\<not> cache_locked c" "\<And>k. on_cache (cache_set_online (env_redis env) (sint (user_id_of u)) True)
          (on_cache (cache_set_connection_id (env_redis env) (sint (user_id_of u)) (get_id r (srv_hub ?s1))) k) ?s1
          = k (?s1\<lparr>srv_cache := c\<rparr>)"
        using login_caches by blast
      have "handle_login env r req s = (Handled, on_hub (conn_send r
          (login_response_packet SUCCESS (user_id_of u) (ur_username u))) (?s1\<lparr>srv_cache := c\<rparr>))"
        using good False c(2) by (simp add: handle_login_def on_db_def v login_answer_run Let_def)
      then show thesis
        by (rule that) (use ready' c(1) good False in
          \<open>auto simp: on_hub_def mh_sha256 hub_login_def get_id_set_user_id\<close>)
    qed
  qed
qed

text \<open>
  C8. A login succeeds exactly when the stored hash of the name is the SHA-256 text of the password
  and the user is not online; then the connection gets his id, his entry leads to this connection,
  and the answer carries his id and name. Otherwise the hub only gains the answer: a user that is
  online, or \<open>USER_NOT_FOUND\<close> for an unknown name and for a wrong password alike.
\<close>

theorem login_decision:
  assumes "account_ready ru (env_mysql env) (srv_pool s)" and "\<not> cache_locked (srv_cache s)"
  shows "\<exists>s' e uid name h. handle_login env r req s = (Handled, s') \<and>
    srv_hub s' = conn_send r (login_response_packet e uid name) h \<and>
    (if stored_hash ru (srv_pool s) (coll_key ru (lreq_username req)) \<noteq> Some (mh_sha256 env (lreq_password req))
     then e = USER_NOT_FOUND \<and> h = srv_hub s
     else \<exists>u. account_of ru (db_tables (srv_pool s)) (lreq_username req) = Some u \<and>
       (if is_user_online (user_id_of u) (srv_hub s)
        then e = USER_ALREADY_ONLINE \<and> h = srv_hub s
        else e = SUCCESS \<and> uid = user_id_of u \<and> name = ur_username u \<and>
          h = hub_login r (user_id_of u) (srv_hub s)))"
proof -
  obtain s' where s': "handle_login env r req s = (Handled, s')"
    and hub: "srv_hub s' =
      (case account_of ru (db_tables (srv_pool s)) (lreq_username req) of
         None \<Rightarrow> conn_send r (login_response_packet USER_NOT_FOUND 0 []) (srv_hub s)
       | Some u \<Rightarrow>
           if ur_password_hash u \<noteq> mh_sha256 env (lreq_password req)
           then conn_send r (login_response_packet USER_NOT_FOUND 0 []) (srv_hub s)
           else if is_user_online (user_id_of u) (srv_hub s)
           then conn_send r (login_response_packet USER_ALREADY_ONLINE 0 []) (srv_hub s)
           else conn_send r (login_response_packet SUCCESS (user_id_of u) (ur_username u))
                  (hub_login r (user_id_of u) (srv_hub s)))"
    by (rule login_runs [OF assms])
  show ?thesis
  proof (cases "account_of ru (db_tables (srv_pool s)) (lreq_username req)")
    case None
    then show ?thesis using s' hub by (simp add: stored_hash_account) blast
  next
    case (Some u)
    then show ?thesis
      using s' hub by (simp add: stored_hash_account split: if_splits) blast+
  qed
qed

section \<open>Registration\<close>

definition register_response_packet :: "error_code \<Rightarrow> i32 \<Rightarrow> bytes" where
  "register_response_packet e uid = encode \<lparr>pkt_version = VERSION, pkt_command = REGISTER_RESP,
     pkt_data = encode_register_response \<lparr>rresp_error_code = e, rresp_user_id = uid\<rparr>\<rparr>"

lemma register_answer_run:
  "register_answer r e uid s = (Handled, on_hub (conn_send r (register_response_packet e uid)) s)"
  by (simp add: register_answer_def send_response_def register_response_packet_def)

definition complete_request :: "register_request \<Rightarrow> bool" where
  "complete_request req \<longleftrightarrow> rreq_username req \<noteq> [] \<and> rreq_password req \<noteq> [] \<and>
     rreq_security_question req \<noteq> [] \<and> rreq_security_answer req \<noteq> []"

definition insert_request :: "sql_rules \<Rightarrow> server_env \<Rightarrow> register_request \<Rightarrow> tables \<Rightarrow> sql_result" where
  "insert_request ru env req t = insert_user ru (rreq_username req) (mh_sha256 env (rreq_password req))
     (rreq_security_question req) (mh_sha256 env (rreq_security_answer req)) t"

lemma register_request_runs:
  assumes ready: "account_ready ru (env_mysql env) (srv_pool s)" and complete: "complete_request req"
    and free: "account_of ru (db_tables (srv_pool s)) (rreq_username req) = None"
  shows "handle_register env r req s =
    (case insert_request ru env req (db_tables (srv_pool s)) of
       None \<Rightarrow> register_answer r DATABASE_ERROR 0
         (s\<lparr>srv_pool := after_call (after_call (srv_pool s) 6 (db_tables (srv_pool s))) 5 (db_tables (srv_pool s))\<rparr>)
     | Some (_, k, t) \<Rightarrow> register_answer r SUCCESS (word_of_nat k)
         (s\<lparr>srv_pool := after_call (after_call (srv_pool s) 6 (db_tables (srv_pool s))) 5 t\<rparr>))"
proof -
  let ?p = "after_call (srv_pool s) 6 (db_tables (srv_pool s))"
  have ready': "account_ready ru (env_mysql env) ?p" using ready by (simp add: account_ready_def)
  show ?thesis
    using complete free
    by (auto simp: handle_register_def complete_request_def on_db_def username_exists_runs [OF ready]
        register_runs [OF ready'] insert_request_def split: option.splits)
qed

text \<open>The texts of a request that fit their columns and the buffers they are read back into.\<close>

definition storable_request :: "sql_rules \<Rightarrow> server_env \<Rightarrow> register_request \<Rightarrow> bool" where
  "storable_request ru env req \<longleftrightarrow> complete_request req \<and> plain_text 64 (rreq_username req) \<and>
     column_text ru (rreq_security_question req) \<and> (\<forall>s. fits_varchar ru 256 (mh_sha256 env s))"

text \<open>
  C9. Who registers can log in: after \<open>handle_register\<close> stored a user, whatever connection then asks
  to log in with the same name and password gets \<open>SUCCESS\<close> with the id that registration answered
  and becomes the user's connection, and a login with a password of another digest is refused.
\<close>

theorem registered_user_logs_in:
  assumes "account_ready ru (env_mysql env) (srv_pool s)" and "\<not> cache_locked (srv_cache s)"
    and "storable_request ru env req" and "heap (srv_hub s) r = Some c"
    and "account_of ru (db_tables (srv_pool s)) (rreq_username req) = None"
    and "insert_request ru env req (db_tables (srv_pool s)) = Some (rs, k, t)"
    and "\<not> is_user_online (word_of_nat k) (srv_hub s)"
  shows "\<exists>s1. handle_register env r req s = (Handled, s1) \<and>
    srv_hub s1 = conn_send r (register_response_packet SUCCESS (word_of_nat k)) (srv_hub s) \<and>
    (\<forall>q password. \<exists>s2. handle_login env q \<lparr>lreq_username = rreq_username req, lreq_password = password\<rparr> s1
        = (Handled, s2) \<and>
      srv_hub s2 =
        (if mh_sha256 env password = mh_sha256 env (rreq_password req)
         then conn_send q (login_response_packet SUCCESS (word_of_nat k) (rreq_username req))
                (hub_login q (word_of_nat k) (srv_hub s1))
         else conn_send q (login_response_packet USER_NOT_FOUND 0 []) (srv_hub s1)))"
proof -
  let ?p1 = "after_call (srv_pool s) 6 (db_tables (srv_pool s))"
  let ?s1 = "on_hub (conn_send r (register_response_packet SUCCESS (word_of_nat k)))
    (s\<lparr>srv_pool := after_call ?p1 5 t\<rparr>)"
  have complete: "complete_request req" using assms(3) by (simp add: storable_request_def)
  have run: "handle_register env r req s = (Handled, ?s1)"
    by (simp add: register_request_runs [OF assms(1) complete assms(5)] assms(6) register_answer_run)
  have ins: "insert_user ru (rreq_username req) (mh_sha256 env (rreq_password req))
     (rreq_security_question req) (mh_sha256 env (rreq_security_answer req)) (db_tables ?p1) = Some (rs, k, t)"
    using assms(6) by (simp add: insert_request_def)
  define row where "row = \<lparr>ur_user_id = k, ur_username = rreq_username req,
    ur_password_hash = mh_sha256 env (rreq_password req), ur_avatar_url = None,
    ur_security_question = rreq_security_question req,
    ur_security_answer = mh_sha256 env (rreq_security_answer req)\<rparr>"
  have us: "users t = users (db_tables (srv_pool s)) @ [row]"
    and new: "users_named ru (db_tables (srv_pool s)) (rreq_username req) = []"
    using ins by (auto simp: insert_user_def row_def split: if_splits)
  have acc: "account_of ru t (rreq_username req) = Some row"
    using new us by (simp add: account_of_def users_named_def row_def same_text_def)
  have ready1: "account_ready ru (env_mysql env) ?p1" using assms(1) by (simp add: account_ready_def)
  have reg: "pool_register (env_mysql env) (rreq_username req) (mh_sha256 env (rreq_password req))
      (rreq_security_question req) (mh_sha256 env (rreq_security_answer req)) ?p1 = (True, after_call ?p1 5 t)"
    using ins by (simp add: pool_register_def register_runs [OF ready1] answer_def)
  have ready: "account_ready ru (env_mysql env) (srv_pool ?s1)"
    using register_step [OF ready1 _ _ _ _ reg] assms(3)
    by (simp add: storable_request_def mh_sha256 sha256_column on_hub_def)
  have free: "\<not> cache_locked (srv_cache ?s1)" using assms(2) by (simp add: on_hub_def)
  have tab: "db_tables (srv_pool ?s1) = t" by (simp add: on_hub_def)
  have on: "is_user_online (word_of_nat k) (srv_hub ?s1) = False"
    using assms(7) by (simp add: on_hub_def is_user_online_def conn_send_def)
  have "\<exists>s2. handle_login env q \<lparr>lreq_username = rreq_username req, lreq_password = password\<rparr> ?s1
        = (Handled, s2) \<and>
      srv_hub s2 = (if mh_sha256 env password = mh_sha256 env (rreq_password req)
         then conn_send q (login_response_packet SUCCESS (word_of_nat k) (rreq_username req))
                (hub_login q (word_of_nat k) (srv_hub ?s1))
         else conn_send q (login_response_packet USER_NOT_FOUND 0 []) (srv_hub ?s1))" for q password
    by (rule login_runs [OF ready free, of q "\<lparr>lreq_username = rreq_username req, lreq_password = password\<rparr>"])
      (auto simp: tab acc row_def user_id_of_def on split: if_splits)
  then show ?thesis using run by (intro exI [of _ ?s1]) (simp add: on_hub_def)
qed

section \<open>Concrete runs\<close>

text \<open>
  A connection that was accepted and started on a server whose users table holds bob; then bob has
  logged in on it.
\<close>

definition bob_tables :: tables where
  "bob_tables = no_tables\<lparr>users := [bob_row ''pw''], next_user_id := 2\<rparr>"

definition demo_started :: "tables \<Rightarrow> server" where
  "demo_started t = on_hub (conn_start 0) (do_accept (Some (0, ''c0'')) (chat_server demo_env t 1))"

lemma demo_started_reachable: "server_reachable demo_env True t 1 (demo_started t)"
proof -
  let ?s = "do_accept (Some (0, ''c0'')) (chat_server demo_env t 1)"
  have 1: "server_reachable demo_env True t 1 ?s"
    by (rule server_reachable.step, rule server_reachable.initial, rule server_step.accepted)
      (simp_all add: chat_server_def new_hub_def)
  have "heap (srv_hub ?s) 0 = Some (new_connection ''c0'')"
    by (simp add: do_accept_def on_hub_def chat_server_def new_hub_def cm_start_def)
  then show ?thesis
    unfolding demo_started_def
    by (intro server_reachable.step [OF 1] server_step.started [where c = "new_connection ''c0''"])
      (simp_all add: new_connection_def)
qed

lemma demo_started_sel:
  "heap (srv_hub (demo_started t)) = [0 \<mapsto> (new_connection ''c0'')\<lparr>conn_reading := Reading_header\<rparr>]"
  "conn_table (srv_hub (demo_started t)) = [''c0'' \<mapsto> 0]"
  "user_to_conn (srv_hub (demo_started t)) = Map.empty"
  "db_tables (srv_pool (demo_started t)) = t" "idle_conns (srv_pool (demo_started t)) = [0]"
  "\<not> cache_locked (srv_cache (demo_started t))"
  by (simp_all add: demo_started_def do_accept_def on_hub_def chat_server_def new_hub_def cm_start_def
      get_id_def new_connection_def conn_start_def do_read_header_def update_conn_def demo_env_def
      database_pool_def new_pool_def run_defs healthy_env_def cache_manager_def healthy_redis_def redis_call_def)

lemma bob_tables_ready: "account_ready plain_rules healthy_env (srv_pool (demo_started bob_tables))"
  using healthy_env_follows
  by (simp add: account_ready_def demo_started_sel bob_tables_def bob_schema plain_user_def)
    (simp add: bob_row_def no_tables_def plain_text_def sha256_shape)

lemma bob_account: "account_of plain_rules bob_tables ''bob'' = Some (bob_row ''pw'')"
  by (simp add: account_of_def users_named_def bob_tables_def same_text_def bob_row_def)

theorem login_decision_witness:
  "\<exists>s'. handle_login demo_env 0 \<lparr>lreq_username = ''bob'', lreq_password = ''pw''\<rparr> (demo_started bob_tables)
       = (Handled, s') \<and>
     srv_hub s' = conn_send 0 (login_response_packet SUCCESS 1 ''bob'')
       (hub_login 0 1 (srv_hub (demo_started bob_tables)))"
proof -
  have env: "env_mysql demo_env = healthy_env" by (simp add: demo_env_def)
  show ?thesis
    using login_decision [of plain_rules demo_env "demo_started bob_tables" 0
        "\<lparr>lreq_username = ''bob'', lreq_password = ''pw''\<rparr>"] bob_tables_ready bob_account
    by (simp add: env demo_started_sel stored_hash_account mh_sha256 is_user_online_def)
      (auto simp: demo_started_sel is_user_online_def bob_row_def user_id_of_def)
qed

lemma bob_logs_in:
  "\<exists>s. server_reachable demo_env True bob_tables 1 s \<and> user_to_conn (srv_hub s) 1 = Some ''c0'' \<and>
     conn_table (srv_hub s) ''c0'' = Some 0 \<and> (\<forall>q. q \<noteq> 0 \<longrightarrow> heap (srv_hub s) q = None)"
proof -
  let ?req = "\<lparr>lreq_username = ''bob'', lreq_password = ''pw''\<rparr>" and ?s = "demo_started bob_tables"
  let ?p = "\<lparr>pkt_version = 1, pkt_command = LOGIN_REQ,
    pkt_data = [0, 3, 0x62, 0x6F, 0x62, 0, 2, 0x70, 0x77]\<rparr>"
  let ?s1 = "on_hub (on_body_read (pkt_data ?p) 0) (on_hub (on_header (Some (take HEADER_SIZE (encode ?p))) 0) ?s)"
  have served: "served_packet ?p"
    by (simp add: served_packet_def canonical_command_def command_of_u16_def)
  have "decode_login_request (pkt_data ?p) = Some (Decoded ?req)" by code_simp
  then have m: "handle_message demo_env 0 ?p s = handle_login demo_env 0 ?req s" for s
    by (simp add: handle_message_def on_decoded_def)
  have len: "body_length (take HEADER_SIZE (encode ?p)) = 9"
    by (simp add: header_of_encode [OF served])
  define s1 where "s1 = ?s1"
  have alone: "\<forall>q. q \<noteq> 0 \<longrightarrow> heap (srv_hub s1) q = None"
    by (simp add: s1_def on_hub_def on_body_read_def on_header_def len do_read_body_def update_conn_def
        demo_started_sel)
  have s1: "heap (srv_hub s1) 0 \<noteq> None" "get_id 0 (srv_hub s1) = ''c0''"
    "conn_table (srv_hub s1) = [''c0'' \<mapsto> 0]" "user_to_conn (srv_hub s1) = Map.empty"
    "srv_pool s1 = srv_pool ?s" "srv_cache s1 = srv_cache ?s"
    by (simp_all add: s1_def on_hub_def on_body_read_def on_header_def len do_read_body_def update_conn_def
        demo_started_sel new_connection_def get_id_def)
  have env: "env_mysql demo_env = healthy_env" by (simp add: demo_env_def)
  have ready: "account_ready plain_rules (env_mysql demo_env) (srv_pool s1)" "\<not> cache_locked (srv_cache s1)"
    using bob_tables_ready by (simp_all add: env s1 demo_started_sel)
  have row: "ur_password_hash (bob_row ''pw'') = mh_sha256 demo_env ''pw''" "user_id_of (bob_row ''pw'') = 1"
      "ur_username (bob_row ''pw'') = ''bob''"
    by (simp_all add: mh_sha256 env bob_row_def user_id_of_def)
  have off: "\<not> is_user_online u (srv_hub s1)" for u
    by (simp add: is_user_online_def s1)
  obtain s2 where s2: "handle_login demo_env 0 ?req s1 = (Handled, s2)"
    and hub2: "srv_hub s2 = conn_send 0 (login_response_packet SUCCESS 1 ''bob'') (hub_login 0 1 (srv_hub s1))"
    by (rule login_runs [OF ready, of 0 ?req])
      (simp add: s1(5) demo_started_sel bob_account row off)
  let ?s3 = "on_hub (do_read_header 0) s2"
  have c0: "heap (srv_hub ?s) 0 = Some ((new_connection ''c0'')\<lparr>conn_reading := Reading_header\<rparr>)"
    by (simp add: demo_started_sel)
  have "deliver demo_env 0 (encode ?p @ []) ?s = deliver demo_env 0 [] ?s3"
    by (subst deliver_packet [OF c0 _ served]) (simp_all only: m s2 s1_def [symmetric], simp_all)
  also have "\<dots> = (Handled, ?s3)" by (subst deliver.simps) (simp add: HEADER_SIZE_def split: option.split)
  finally have "server_reachable demo_env True bob_tables 1 ?s3"
    by (rule deliver_reachable [OF demo_started_reachable])
  moreover have "user_to_conn (srv_hub ?s3) 1 = Some ''c0''" "conn_table (srv_hub ?s3) ''c0'' = Some 0"
    using s1 by (simp_all add: on_hub_def hub2 do_read_header_def conn_send_def hub_login_def
        set_user_connection_def set_user_id_def)
  moreover have "\<forall>q. q \<noteq> 0 \<longrightarrow> heap (srv_hub ?s3) q = None"
    using alone by (simp add: on_hub_def hub2 do_read_header_def conn_ops hub_login_def heap_update_conn)
  ultimately show ?thesis by blast
qed

theorem notifications_reach_their_user_witness:
  "\<exists>s r c. server_reachable demo_env True bob_tables 1 s \<and> heap (srv_hub s) r = Some c \<and>
     1 \<in> set (conn_logins c) \<and> snd (send_to_user 1 [] (srv_hub s)) = conn_send r [] (srv_hub s)"
proof -
  obtain s where s: "server_reachable demo_env True bob_tables 1 s"
    and h: "user_to_conn (srv_hub s) 1 = Some ''c0''" "conn_table (srv_hub s) ''c0'' = Some 0"
      "\<forall>q. q \<noteq> 0 \<longrightarrow> heap (srv_hub s) q = None"
    using bob_logs_in by blast
  have "ids_distinct (srv_hub s)" unfolding ids_distinct_def using h(3) by (metis option.distinct(1))
  moreover have "send_to_user 1 [] (srv_hub s) = (True, conn_send 0 [] (srv_hub s))"
    using h by (simp add: send_to_user_def)
  ultimately show ?thesis using notifications_reach_their_user [OF s, of 1 "[]"] s by fastforce
qed

theorem registered_user_logs_in_witness:
  "\<exists>s1 s2. handle_register demo_env 0 \<lparr>rreq_username = ''bob'', rreq_password = ''pw'',
       rreq_security_question = ''pet'', rreq_security_answer = ''rex''\<rparr> (demo_started no_tables) = (Handled, s1) \<and>
     handle_login demo_env 0 \<lparr>lreq_username = ''bob'', lreq_password = ''pw''\<rparr> s1 = (Handled, s2) \<and>
     srv_hub s2 = conn_send 0 (login_response_packet SUCCESS 1 ''bob'') (hub_login 0 1 (srv_hub s1))"
proof -
  let ?req = "\<lparr>rreq_username = ''bob'', rreq_password = ''pw'', rreq_security_question = ''pet'',
    rreq_security_answer = ''rex''\<rparr>" and ?s = "demo_started no_tables"
  have env: "env_mysql demo_env = healthy_env" by (simp add: demo_env_def)
  have ready: "account_ready plain_rules (env_mysql demo_env) (srv_pool ?s)"
    using healthy_env_follows
    by (simp add: env account_ready_def demo_started_sel schema_defs no_tables_def)
  have fits: "fits_varchar plain_rules 256 (mh_sha256 demo_env x)" for x
    using sha256_column [of plain_rules healthy_env x] by (simp add: mh_sha256 env plain_rules_def sha256_shape)
  have store: "storable_request plain_rules demo_env ?req"
    by (simp add: storable_request_def complete_request_def fits plain_rules_column) (simp add: plain_text_def)
  have free: "account_of plain_rules (db_tables (srv_pool ?s)) (rreq_username ?req) = None"
    by (simp add: demo_started_sel no_tables_def account_of_def users_named_def)
  obtain rs t where ins: "insert_request plain_rules demo_env ?req (db_tables (srv_pool ?s)) = Some (rs, 1, t)"
    using fits by (simp add: insert_request_def insert_user_def demo_started_sel no_tables_def users_named_def
        int_max_def rows_def) (simp add: plain_rules_def)
  show ?thesis
    using registered_user_logs_in [OF ready _ store _ free ins, of 0 "(new_connection ''c0'')\<lparr>conn_reading := Reading_header\<rparr>"]
    by (fastforce simp: demo_started_sel is_user_online_def)
qed

end
