(* ===== verification/Server_Config.thy ===== *)
theory Server_Config
  imports Chat_Server Cxx_Numbers
begin

text \<open>
  The start of the server, server/src/main.cpp: the reader of the configuration file, the numbers
  in it, the settings \<open>main\<close> takes from it, and what \<open>main\<close> does with them. A file system is a
  function from names to contents, with None for a file that cannot be opened. Log lines are left
  out, except for the port, which they show as the \<open>short\<close> it is stored in.
\<close>

section \<open>Trimming\<close>

definition trim_chars :: string where
  "trim_chars = [CHR '' '', CHR 0x09, CHR 0x0D, CHR 0x0A]"

text \<open>The searches of \<open>std::string\<close>; None is \<open>npos\<close>.\<close>

fun find_first_not_of :: "string \<Rightarrow> string \<Rightarrow> nat option" where
  "find_first_not_of cs [] = None"
| "find_first_not_of cs (c # s) =
     (if c \<in> set cs then map_option Suc (find_first_not_of cs s) else Some 0)"

fun find_last_not_of :: "string \<Rightarrow> string \<Rightarrow> nat option" where
  "find_last_not_of cs [] = None"
| "find_last_not_of cs (c # s) =
     (case find_last_not_of cs s of
        Some n \<Rightarrow> Some (Suc n)
      | None \<Rightarrow> if c \<in> set cs then None else Some 0)"

fun find_char :: "char \<Rightarrow> string \<Rightarrow> nat option" where
  "find_char d [] = None"
| "find_char d (c # s) = (if c = d then Some 0 else map_option Suc (find_char d s))"

definition substr :: "nat \<Rightarrow> nat \<Rightarrow> string \<Rightarrow> string" where
  "substr pos n s = take n (drop pos s)"

definition trim :: "string \<Rightarrow> string" where
  "trim str =
     (case find_first_not_of trim_chars str of
        None \<Rightarrow> []
      | Some first \<Rightarrow>
          (case find_last_not_of trim_chars str of
             None \<Rightarrow> []
           | Some stop \<Rightarrow> substr first (stop - first + 1) str))"

section \<open>Numbers\<close>

definition safe_stoi :: "string \<Rightarrow> int \<Rightarrow> int" where
  "safe_stoi str default_val =
     (if str = [] then default_val
      else case stoi str of
             Stoi val pos \<Rightarrow> if pos \<noteq> length str then default_val else val
           | Invalid_argument \<Rightarrow> default_val
           | Out_of_range \<Rightarrow> default_val)"

section \<open>The reader\<close>

text \<open>\<open>std::getline\<close>: the pieces between newlines; a last piece without one counts if not empty.\<close>

function getlines :: "string \<Rightarrow> string list" where
  "getlines s =
     (if s = [] then []
      else (let line = takeWhile (\<lambda>c. c \<noteq> CHR 0x0A) s
            in line # getlines (drop (Suc (length line)) s)))"
  by pat_completeness auto
termination
  by (relation "measure length") (simp_all add: Let_def)

declare getlines.simps [simp del]

fun scan_lines :: "string \<Rightarrow> string \<Rightarrow> string \<Rightarrow> string list \<Rightarrow> string" where
  "scan_lines section key current_section [] = []"
| "scan_lines section key current_section (line # rest) =
     (let line = trim line
      in if line = [] \<or> hd line = CHR '';'' \<or> hd line = CHR ''#''
         then scan_lines section key current_section rest
         else if hd line = CHR ''['' \<and> last line = CHR '']''
         then scan_lines section key (substr 1 (length line - 2) line) rest
         else case find_char (CHR ''='') line of
                None \<Rightarrow> scan_lines section key current_section rest
              | Some pos \<Rightarrow>
                  (let k = trim (substr 0 pos line);
                       v = trim (drop (pos + 1) line)
                   in if current_section = section \<and> k = key then v
                      else scan_lines section key current_section rest))"

type_synonym file_system = "string \<Rightarrow> string option"

definition get_config_value :: "file_system \<Rightarrow> string \<Rightarrow> string \<Rightarrow> string \<Rightarrow> string" where
  "get_config_value fs config_file section key =
     (case fs config_file of
        None \<Rightarrow> []
      | Some text \<Rightarrow> scan_lines section key [] (getlines text))"

section \<open>main\<close>

type_synonym i16 = "16 word"

record settings =
  set_host :: string
  set_port :: i16
  set_mysql_host :: string
  set_mysql_port :: int
  set_mysql_db :: string
  set_mysql_user :: string
  set_mysql_pass :: string
  set_redis_host :: string
  set_redis_port :: int

text \<open>\<open>argv\<close> starts with the name of the program.\<close>

definition config_file :: "string list \<Rightarrow> string" where
  "config_file argv = (if length argv > 1 then argv ! 1 else ''config/server.conf'')"

definition read_settings :: "file_system \<Rightarrow> string list \<Rightarrow> settings" where
  "read_settings fs argv =
     (let value = get_config_value fs (config_file argv)
      in \<lparr>set_host = value ''server'' ''host'',
          set_port = word_of_int (safe_stoi (value ''server'' ''port'') 8888),
          set_mysql_host = value ''mysql'' ''host'',
          set_mysql_port = safe_stoi (value ''mysql'' ''port'') 3306,
          set_mysql_db = value ''mysql'' ''database'',
          set_mysql_user = value ''mysql'' ''username'',
          set_mysql_pass = value ''mysql'' ''password'',
          set_redis_host = value ''redis'' ''host'',
          set_redis_port = safe_stoi (value ''redis'' ''port'') 6379\<rparr>)"

definition listen_address :: "settings \<Rightarrow> string" where
  "listen_address cfg = (if set_host cfg = [] then ''0.0.0.0'' else set_host cfg)"

text \<open>The port the log shows is a \<open>short\<close>; the endpoint takes it as an \<open>unsigned short\<close>.\<close>

definition shown_port :: "settings \<Rightarrow> int" where
  "shown_port cfg = sint (set_port cfg)"

definition listen_port :: "settings \<Rightarrow> nat" where
  "listen_port cfg = unat (set_port cfg)"

text \<open>
  What \<open>main\<close> builds: the environments of the database and of the cache depend on where it connects
  to; \<open>can_listen\<close> says whether the address parses and the endpoint can be bound, and when not the
  constructor of the acceptor throws and \<open>main\<close> returns 1. Otherwise the event loop runs.
\<close>

record platform =
  mysql_at :: "string \<Rightarrow> int \<Rightarrow> string \<Rightarrow> string \<Rightarrow> string \<Rightarrow> mysql_env"
  redis_at :: "string \<Rightarrow> int \<Rightarrow> redis_env"
  can_listen :: "string \<Rightarrow> nat \<Rightarrow> bool"
  wall_clock :: "nat \<Rightarrow> i64"

datatype program = Exits int | Runs server_env server

definition main_program :: "platform \<Rightarrow> file_system \<Rightarrow> string list \<Rightarrow> tables \<Rightarrow> program" where
  "main_program pf fs argv t =
     (let cfg = read_settings fs argv;
          env = \<lparr>env_mysql = mysql_at pf (set_mysql_host cfg) (set_mysql_port cfg) (set_mysql_db cfg)
                   (set_mysql_user cfg) (set_mysql_pass cfg),
                 env_redis = redis_at pf (set_redis_host cfg) (set_redis_port cfg),
                 env_now = wall_clock pf\<rparr>
      in if can_listen pf (listen_address cfg) (listen_port cfg)
         then Runs env (chat_server env t 10) else Exits 1)"

text \<open>The handler of SIGINT and SIGTERM: the state it leaves and the exit code.\<close>

definition signal_handler :: "server option \<Rightarrow> server option \<times> int" where
  "signal_handler g_server = (map_option chat_server_stop g_server, 0)"

section \<open>What the reader computes\<close>

lemma find_first_not_of_pad:
  "set a \<subseteq> set cs \<Longrightarrow> s \<noteq> [] \<Longrightarrow> hd s \<notin> set cs \<Longrightarrow> find_first_not_of cs (a @ s) = Some (length a)"
  by (induction a) (auto simp: neq_Nil_conv)

lemma find_first_not_of_none: "set s \<subseteq> set cs \<Longrightarrow> find_first_not_of cs s = None"
  by (induction s) auto

lemma find_last_not_of_none: "set s \<subseteq> set cs \<Longrightarrow> find_last_not_of cs s = None"
  by (induction s) auto

lemma find_last_not_of_pad:
  "set b \<subseteq> set cs \<Longrightarrow> s \<noteq> [] \<Longrightarrow> last s \<notin> set cs \<Longrightarrow> find_last_not_of cs (s @ b) = Some (length s - 1)"
proof (induction s)
  case (Cons c s)
  then show ?case by (cases s) (auto simp: find_last_not_of_none)
qed simp

definition padding :: "string \<Rightarrow> bool" where
  "padding s \<longleftrightarrow> set s \<subseteq> {CHR '' '', CHR 0x09, CHR 0x0D}"

definition trimmed :: "string \<Rightarrow> bool" where
  "trimmed s \<longleftrightarrow> s \<noteq> [] \<longrightarrow> hd s \<notin> set trim_chars \<and> last s \<notin> set trim_chars"

lemma padding_trim_chars: "padding s \<Longrightarrow> set s \<subseteq> set trim_chars"
  by (auto simp: padding_def trim_chars_def)

lemma trim_padding: "padding s \<Longrightarrow> trim s = []"
  using find_first_not_of_none [OF padding_trim_chars] by (simp add: trim_def)

lemma trim_pad:
  assumes "padding a" "padding b" "trimmed s" shows "trim (a @ s @ b) = s"
proof (cases "s = []")
  case True
  then show ?thesis using trim_padding [of "a @ b"] assms(1,2) by (simp add: padding_def)
next
  case False
  have "find_first_not_of trim_chars (a @ s @ b) = Some (length a)"
    using find_first_not_of_pad [OF padding_trim_chars [OF assms(1)], of "s @ b"] assms(3) False
    by (simp add: trimmed_def)
  moreover have "find_last_not_of trim_chars ((a @ s) @ b) = Some (length a + length s - 1)"
    using find_last_not_of_pad [OF padding_trim_chars [OF assms(2)], of "a @ s"] assms(3) False
    by (simp add: trimmed_def)
  ultimately show ?thesis
    using False by (cases s) (simp_all add: trim_def substr_def)
qed

lemma padding_nil [simp]: "padding []"
  by (simp add: padding_def)

lemma find_char_append: "d \<notin> set a \<Longrightarrow> find_char d (a @ d # b) = Some (length a)"
  by (induction a) auto

lemma getlines_cons:
  "CHR 0x0A \<notin> set l \<Longrightarrow> getlines (l @ CHR 0x0A # s) = l # getlines s"
proof -
  assume l: "CHR 0x0A \<notin> set l"
  have "takeWhile (\<lambda>c. c \<noteq> CHR 0x0A) (l @ CHR 0x0A # s) = l"
    using l by (subst takeWhile_append2) auto
  then show ?thesis by (subst getlines.simps) simp
qed

lemma getlines_lines:
  "\<forall>l\<in>set ls. CHR 0x0A \<notin> set l \<Longrightarrow> getlines (concat (map (\<lambda>l. l @ [CHR 0x0A]) ls)) = ls"
  by (induction ls) (simp_all add: getlines_cons getlines.simps [of "[]"])

section \<open>Configuration files\<close>

text \<open>
  A file as a user writes it: lines that say nothing, section headings, and settings, with blanks
  around names and values.
\<close>

datatype config_item =
    Comment string string
  | Section string string string
  | Setting string string string string string string

fun render :: "config_item \<Rightarrow> string" where
  "render (Comment pad c) = pad @ c"
| "render (Section pad name pad') = pad @ (CHR ''['' # name @ '']'') @ pad'"
| "render (Setting p1 key p2 p3 val p4) = p1 @ key @ p2 @ CHR ''='' # p3 @ val @ p4"

definition config_text :: "config_item list \<Rightarrow> string" where
  "config_text items = concat (map (\<lambda>i. render i @ [CHR 0x0A]) items)"

fun good_item :: "config_item \<Rightarrow> bool" where
  "good_item (Comment pad c) \<longleftrightarrow> padding pad \<and> CHR 0x0A \<notin> set c \<and>
     (c \<noteq> [] \<longrightarrow> hd c \<in> {CHR '';'', CHR ''#''})"
| "good_item (Section pad name pad') \<longleftrightarrow> padding pad \<and> padding pad' \<and> CHR 0x0A \<notin> set name"
| "good_item (Setting p1 key p2 p3 val p4) \<longleftrightarrow> padding p1 \<and> padding p2 \<and> padding p3 \<and> padding p4 \<and>
     key \<noteq> [] \<and> trimmed key \<and> hd key \<notin> {CHR '';'', CHR ''#'', CHR ''[''} \<and>
     CHR ''='' \<notin> set key \<and> CHR 0x0A \<notin> set key \<and> trimmed val \<and> CHR 0x0A \<notin> set val"

text \<open>The settings of a file in order, each with its section.\<close>

fun settings_of :: "string \<Rightarrow> config_item list \<Rightarrow> ((string \<times> string) \<times> string) list" where
  "settings_of cur [] = []"
| "settings_of cur (Comment _ _ # is) = settings_of cur is"
| "settings_of cur (Section _ name _ # is) = settings_of name is"
| "settings_of cur (Setting _ key _ _ val _ # is) = ((cur, key), val) # settings_of cur is"

lemma padding_newline: "padding s \<Longrightarrow> CHR 0x0A \<notin> set s"
  by (auto simp: padding_def)

lemma render_newline: "good_item i \<Longrightarrow> CHR 0x0A \<notin> set (render i)"
  by (cases i) (auto dest: padding_newline)

text \<open>The step of the reader for each kind of line.\<close>

lemma trim_comment:
  assumes "padding pad" and "hd c \<in> {CHR '';'', CHR ''#''}" and "c \<noteq> []"
  shows "trim (pad @ c) \<noteq> []" "hd (trim (pad @ c)) = hd c"
proof -
  have mark: "hd c \<notin> set trim_chars" using assms(2) by (auto simp: trim_chars_def)
  have f: "find_first_not_of trim_chars (pad @ c) = Some (length pad)"
    by (rule find_first_not_of_pad [OF padding_trim_chars [OF assms(1)] assms(3) mark])
  have "find_last_not_of cs (a @ s) \<noteq> None" if "s \<noteq> []" "hd s \<notin> set cs" for cs a s
    using that by (induction a) (cases s; auto split: option.splits)+
  then obtain n where "find_last_not_of trim_chars (pad @ c) = Some n" using assms(3) mark by blast
  then have "trim (pad @ c) = take (n - length pad + 1) c" by (simp add: trim_def f substr_def)
  then show "trim (pad @ c) \<noteq> []" "hd (trim (pad @ c)) = hd c"
    using assms(3) by (simp_all add: hd_take)
qed

lemma scan_comment:
  assumes "good_item (Comment pad c)"
  shows "scan_lines s k cur (render (Comment pad c) # ls) = scan_lines s k cur ls"
proof (cases "c = []")
  case True
  then show ?thesis using assms by (simp add: trim_padding)
next
  case False
  then have "hd c \<in> {CHR '';'', CHR ''#''}" "padding pad" using assms by auto
  from trim_comment [OF this(2,1) False] this(1) show ?thesis by (auto simp: Let_def)
qed

lemma scan_section:
  assumes "good_item (Section pad name pad')"
  shows "scan_lines s k cur (render (Section pad name pad') # ls) = scan_lines s k name ls"
proof -
  have "trimmed (CHR ''['' # name @ '']'')" by (simp add: trimmed_def trim_chars_def)
  then have "trim (render (Section pad name pad')) = CHR ''['' # name @ '']''"
    using assms trim_pad [of pad pad' "CHR ''['' # name @ '']''"] by simp
  then show ?thesis by (simp add: substr_def Let_def del: render.simps)
qed

lemma scan_setting:
  assumes "good_item (Setting p1 key p2 p3 val p4)"
  shows "scan_lines s k cur (render (Setting p1 key p2 p3 val p4) # ls)
    = (if cur = s \<and> key = k then val else scan_lines s k cur ls)"
proof -
  let ?rhs = "if val = [] then [] else p3 @ val" and ?pad = "if val = [] then p3 @ p4 else p4"
  let ?core = "(key @ p2) @ CHR ''='' # ?rhs"
  have g: "padding p1" "padding p2" "padding p3" "padding p4" "key \<noteq> []" "trimmed key"
    "hd key \<notin> {CHR '';'', CHR ''#'', CHR ''[''}" "CHR ''='' \<notin> set key" "trimmed val"
    using assms by auto
  have "trimmed ?core" using g(5,6,9) by (auto simp: trimmed_def trim_chars_def)
  moreover have "padding ?pad" using g(3,4) by (simp add: padding_def)
  moreover have "render (Setting p1 key p2 p3 val p4) = p1 @ ?core @ ?pad" by simp
  ultimately have line: "trim (render (Setting p1 key p2 p3 val p4)) = ?core"
    using trim_pad [OF g(1)] by metis
  have eq: "CHR ''='' \<notin> set (key @ p2)" using g(2,8) by (auto simp: padding_def)
  note pos = find_char_append [OF eq, of ?rhs]
  have k: "trim (substr 0 (length (key @ p2)) ?core) = key"
    using trim_pad [OF padding_nil g(2,6)] by (simp add: substr_def)
  have v: "trim (drop (length (key @ p2) + 1) ?core) = val"
    using trim_pad [OF g(3) padding_nil g(9)] trim_padding [OF padding_nil] by simp
  have h: "?core \<noteq> []" "hd ?core = hd key" using g(5) by simp_all
  show ?thesis
    using g(7) h pos k v unfolding scan_lines.simps line Let_def by auto
qed

lemma scan_items:
  assumes "\<forall>i\<in>set items. good_item i"
  shows "scan_lines s k cur (map render items) = (case map_of (settings_of cur items) (s, k) of None \<Rightarrow> [] | Some v \<Rightarrow> v)"
  using assms
proof (induction items arbitrary: cur)
  case (Cons i items)
  then show ?case
    by (cases i) (simp_all add: scan_comment scan_section scan_setting del: render.simps scan_lines.simps(2))
qed simp

text \<open>
  C24. The configuration reader reads back what a file says: on a file of comment and blank lines,
  section headings and \<open>key = value\<close> lines, with any blanks around names and values,
  \<open>get_config_value\<close> returns the value of the first line with that key in that section, and the
  empty text when there is none or the file cannot be opened.
\<close>

theorem config_reads_back:
  assumes "\<forall>i\<in>set items. good_item i"
  shows "get_config_value (fs(f \<mapsto> config_text items)) f s k
      = (case map_of (settings_of [] items) (s, k) of None \<Rightarrow> [] | Some v \<Rightarrow> v) \<and>
    get_config_value (fs(f := None)) f s k = []"
proof -
  have "getlines (config_text items) = map render items"
    using getlines_lines [of "map render items"] render_newline assms
    by (auto simp: config_text_def o_def)
  then show ?thesis using scan_items [OF assms] by (simp add: get_config_value_def)
qed

text \<open>The head of the file the repository ships.\<close>

definition shipped_items :: "config_item list" where
  "shipped_items = [Section [] ''server'' [], Setting [] ''host'' '' '' '' '' ''0.0.0.0'' [],
     Setting [] ''port'' '' '' '' '' ''8888'' [], Comment [] [],
     Section [] ''mysql'' [], Setting [] ''host'' '' '' '' '' ''localhost'' [],
     Setting [] ''port'' '' '' '' '' ''3306'' []]"

lemma shipped_items_good: "\<forall>i\<in>set shipped_items. good_item i"
  by (simp add: shipped_items_def padding_def trimmed_def trim_chars_def)

theorem config_reads_back_witness:
  "get_config_value [''a.conf'' \<mapsto> config_text shipped_items] ''a.conf'' ''mysql'' ''port'' = ''3306''"
  using config_reads_back [OF shipped_items_good, of Map.empty "''a.conf''" "''mysql''" "''port''"]
  by (simp add: shipped_items_def)

text \<open>The texts \<open>stoi\<close> takes for a number: white space, a sign, digits, and nothing after them.\<close>

definition number_text :: "string \<Rightarrow> int \<Rightarrow> bool" where
  "number_text s v \<longleftrightarrow> (\<exists>ws sg ds. s = ws @ sg @ ds \<and> (\<forall>c\<in>set ws. is_space c) \<and>
     sg \<in> {[], ''+'', ''-''} \<and> ds \<noteq> [] \<and> (\<forall>c\<in>set ds. is_digit c) \<and>
     v = (if sg = ''-'' then - int (digits_val ds) else int (digits_val ds)))"

lemma stoi_number:
  assumes "number_text s v"
  shows "stoi s = (if int_in_range v then Stoi v (length s) else Out_of_range)" "s \<noteq> []"
proof -
  obtain ws sg ds where s: "s = ws @ sg @ ds" "\<forall>c\<in>set ws. is_space c" "sg \<in> {[], ''+'', ''-''}"
    "ds \<noteq> []" "\<forall>c\<in>set ds. is_digit c"
    "v = (if sg = ''-'' then - int (digits_val ds) else int (digits_val ds))"
    using assms unfolding number_text_def by blast
  obtain d ds' where d: "ds = d # ds'" "is_digit d" using s(4,5) by (cases ds) auto
  note other = is_digit_not_other [OF d(2)]
  have "\<not> is_space (hd (sg @ ds))" "sg @ ds \<noteq> []" using s(3) d other by (auto simp: is_space_def)
  then have space: "takeWhile is_space s = ws" "dropWhile is_space s = sg @ ds"
    using s(1,2) by (cases "sg @ ds"; simp)+
  have tw: "takeWhile is_digit ds = ds" by (rule takeWhile_all_digits [OF s(5)])
  show "stoi s = (if int_in_range v then Stoi v (length s) else Out_of_range)"
    using s(3,4,6) tw other d(1) unfolding stoi_def space Let_def
    by (auto simp del: takeWhile_eq_all_conv simp: s(1))
  show "s \<noteq> []" using s by simp
qed

lemma takeWhile_length: "length (takeWhile P r) = length r \<Longrightarrow> takeWhile P r = r \<and> (\<forall>c\<in>set r. P c)"
  using takeWhile_eq_take [of P r] by (metis order_refl set_takeWhileD take_all)

lemma stoi_whole_text:
  assumes "stoi s = Stoi v (length s)" shows "number_text s v"
proof -
  define ws rest where "ws = takeWhile is_space s" and "rest = dropWhile is_space s"
  have s: "s = ws @ rest" by (simp add: ws_def rest_def)
  have ws: "\<forall>c\<in>set ws. is_space c" by (auto simp: ws_def dest: set_takeWhileD)
  have number: "number_text s w" if "rest = sg @ ds" "sg \<in> {[], ''+'', ''-''}" "ds \<noteq> []"
      "length (takeWhile is_digit ds) = length ds"
      "w = (if sg = ''-'' then - int (digits_val ds) else int (digits_val ds))" for sg ds w
    unfolding number_text_def using s ws that(1-3,5) takeWhile_length [OF that(4)] by blast
  note run = assms [unfolded stoi_def, folded ws_def rest_def, unfolded Let_def]
  have len: "length s = length ws + length rest" by (simp add: s)
  show ?thesis
  proof (cases "rest \<noteq> [] \<and> (hd rest = CHR ''-'' \<or> hd rest = CHR ''+'')")
    case True
    then obtain c r where r: "rest = c # r" "c = CHR ''-'' \<or> c = CHR ''+''" by (cases rest) auto
    have "takeWhile is_digit r \<noteq> []" "length (takeWhile is_digit r) = length r"
      and v: "v = (if c = CHR ''-'' then - int (digits_val (takeWhile is_digit r))
        else int (digits_val (takeWhile is_digit r)))"
      using run len r by (auto split: if_splits)
    then show ?thesis
      using number [of "[c]" r v] r takeWhile_length [of is_digit r] by (auto simp del: takeWhile_eq_all_conv)
  next
    case False
    then have "takeWhile is_digit rest \<noteq> []" "length (takeWhile is_digit rest) = length rest"
      and "v = int (digits_val (takeWhile is_digit rest))"
      using run len by (auto split: if_splits)
    then show ?thesis
      using number [of "[]" rest v] takeWhile_length [of is_digit rest]
      by (auto simp del: takeWhile_eq_all_conv)
  qed
qed

text \<open>
  C25. A setting is a number exactly when its whole text is one: \<open>safe_stoi\<close> gives the value of white
  space, sign and digits that stand for an \<open>int\<close>, gives the default for every other text (trailing
  characters, no digit, a value out of range), and reads back every \<open>int\<close> that \<open>std::to_string\<close>
  writes.
\<close>

theorem settings_are_whole_numbers:
  "(number_text s v \<and> int_in_range v \<longrightarrow> safe_stoi s d = v) \<and>
   ((\<nexists>v. number_text s v \<and> int_in_range v) \<longrightarrow> safe_stoi s d = d) \<and>
   (int_in_range i \<longrightarrow> safe_stoi (to_string i) d = i)"
proof (intro conjI impI)
  show "safe_stoi s d = v" if "number_text s v \<and> int_in_range v"
    using that stoi_number [of s v] by (simp add: safe_stoi_def)
  show "safe_stoi (to_string i) d = i" if "int_in_range i"
    using stoi_to_string [OF that] decimal_props by (simp add: safe_stoi_def to_string_def)
  show "safe_stoi s d = d" if no: "\<nexists>v. number_text s v \<and> int_in_range v"
  proof (cases "stoi s")
    case (Stoi w pos)
    have "int_in_range w" using Stoi by (auto simp: stoi_def Let_def split: if_splits)
    then have "pos \<noteq> length s" using no Stoi stoi_whole_text by blast
    then show ?thesis using Stoi by (simp add: safe_stoi_def)
  qed (simp_all add: safe_stoi_def)
qed

theorem settings_are_whole_numbers_witness:
  "safe_stoi ''8080'' 8888 = 8080 \<and> safe_stoi (to_string (- 5)) 1 = - 5"
proof -
  have "number_text ''8080'' 8080"
    unfolding number_text_def
    by (rule exI [of _ "[]"], rule exI [of _ "[]"], rule exI [of _ "''8080''"])
      (simp add: is_digit_def digits_val_def digit_val_def)
  then show ?thesis
    using settings_are_whole_numbers [of "''8080''" 8080 8888 0] settings_are_whole_numbers [of "[]" 0 1 "- 5"]
    by (simp add: int_in_range_def)
qed

text \<open>
  The port is cut to 16 bits: the server listens on the configured number modulo 65536, and the
  log shows it as a signed number, so that a port from 32768 to 65535 is listened on as configured
  but shown as a negative number.
\<close>

theorem port_is_cut:
  "int (listen_port (read_settings fs argv))
     = safe_stoi (get_config_value fs (config_file argv) ''server'' ''port'') 8888 mod 65536 \<and>
   shown_port (read_settings fs argv)
     = (if listen_port (read_settings fs argv) < 32768 then int (listen_port (read_settings fs argv))
        else int (listen_port (read_settings fs argv)) - 65536)"
proof -
  define p where "p = safe_stoi (get_config_value fs (config_file argv) ''server'' ''port'') 8888"
  have port: "set_port (read_settings fs argv) = word_of_int p"
    by (simp add: read_settings_def p_def Let_def)
  have "int (unat (word_of_int p :: i16)) = p mod 65536"
    by (simp add: uint_word_of_int flip: uint_nat)
  moreover have "sint w = (if unat w < 32768 then int (unat w) else int (unat w) - 65536)" for w :: i16
  proof -
    have fold: "(int n + 32768) mod 65536 - 32768 = (if n < 32768 then int n else int n - 65536)"
      if "n < 65536" for n
    proof (cases "n < 32768")
      case True
      then show ?thesis by (subst mod_pos_pos_trivial) simp_all
    next
      case False
      have "(int n + 32768) mod 65536 = ((int n - 32768) + 65536) mod 65536" by (rule arg_cong [of _ _ "\<lambda>x. x mod 65536"]) simp
      also have "\<dots> = (int n - 32768) mod 65536" by (rule mod_add_self2)
      also have "\<dots> = int n - 32768" using False that by (intro mod_pos_pos_trivial) simp_all
      finally show ?thesis using False by simp
    qed
    have "sint w = (uint w + 32768) mod 65536 - 32768"
      by (simp add: sint_uint signed_take_bit_eq_take_bit_shift take_bit_eq_mod)
    moreover have "uint w = int (unat w)" by simp
    moreover have "unat w < 65536" using unsigned_less [of w, where 'a = nat] by simp
    ultimately show ?thesis using fold by metis
  qed
  ultimately show ?thesis
    unfolding listen_port_def shown_port_def port p_def [symmetric] by blast
qed

end
