(* ===== verification/Client_Threads.thy ===== *)
theory Client_Threads
  imports Chat_Client
begin

text \<open>
  The two threads of \<open>ChatClient\<close>, android/app/src/main/cpp/chat_client.cpp: the thread that calls
  \<open>connect\<close>, \<open>disconnect\<close> and the requests, and the worker that executes \<open>run\<close> and \<open>read_loop\<close>. They
  share \<open>running_\<close>, \<open>connected_\<close> and \<open>socket_fd_\<close>, so each is a small-step machine with one step per
  access, in the order of the code, and \<open>session_step\<close> interleaves them (sequentially consistent;
  \<open>socket_fd_\<close> is a plain int, which the standard calls a data race). A request is one step.

  The kernel is an argument of a worker's step: a \<open>net_event\<close> says what \<open>inet_pton\<close>, \<open>socket\<close>,
  \<open>::connect\<close> or \<open>recv\<close> answers. The kernel knows which descriptors are open: a call on a descriptor
  that is not open fails at once, while a call that has already begun may end in any way. The
  session counts the calls of \<open>close\<close> on a descriptor that is not open and is not -1.

  Shown here: an invariant of all interleavings, that a \<open>disconnect\<close> ends, that the worker executes
  the \<open>read_loop\<close> of Chat_Client, what bytes left in the buffer do to the next connection, and two
  races of \<open>disconnect\<close> with the worker.
\<close>

section \<open>The thread of connect and disconnect\<close>

text \<open>\<open>connect\<close> starts with a \<open>disconnect\<close>; what comes after it is remembered.\<close>

datatype after_stop = Then_return | Then_start string i32

datatype control_at =
    Idle
  | Clearing_running after_stop
  | Testing_socket after_stop
  | Closing_socket after_stop
  | Clearing_socket after_stop
  | Joining after_stop
  | Clearing_connected after_stop
  | Setting_address string i32
  | Setting_running
  | Starting_worker

datatype worker_at =
    At_address | At_socket | At_socket_test | At_connect | At_connecting | At_refused
  | At_refused_closed | At_connected | At_report_connected | At_loop_test | At_recv | At_receiving
  | At_drain | At_loop_left | At_report_lost

record session =
  client :: chat_client
  control :: control_at
  worker_pc :: worker_at
  open_fds :: "i32 list"
  bad_closes :: nat

definition new_session :: "string \<Rightarrow> i32 \<Rightarrow> session" where
  "new_session any_host any_port = \<lparr>client = new_client any_host any_port, control = Idle,
     worker_pc = At_address, open_fds = [], bad_closes = 0\<rparr>"

definition close_fd :: "i32 \<Rightarrow> session \<Rightarrow> session" where
  "close_fd fd s =
     (if fd \<in> set (open_fds s) then s\<lparr>open_fds := removeAll fd (open_fds s)\<rparr>
      else if fd = - 1 then s
      else s\<lparr>bad_closes := Suc (bad_closes s)\<rparr>)"

definition disconnect :: "session \<Rightarrow> session" where
  "disconnect s = s\<lparr>control := Clearing_running Then_return\<rparr>"

definition connect :: "string \<Rightarrow> i32 \<Rightarrow> session \<Rightarrow> session" where
  "connect host port s = s\<lparr>control := Clearing_running (Then_start host port)\<rparr>"

text \<open>\<open>None\<close>: the thread has nothing to do, or waits in \<open>join\<close> for the worker to end.\<close>

fun control_step :: "session \<Rightarrow> session option" where
  "control_step s =
     (let c = client s in
      case control s of
        Idle \<Rightarrow> None
      | Clearing_running k \<Rightarrow> Some (s\<lparr>client := c\<lparr>running := False\<rparr>, control := Testing_socket k\<rparr>)
      | Testing_socket k \<Rightarrow>
          Some (s\<lparr>control := if socket_fd c \<noteq> - 1 then Closing_socket k else Joining k\<rparr>)
      | Closing_socket k \<Rightarrow> Some ((close_fd (socket_fd c) s)\<lparr>control := Clearing_socket k\<rparr>)
      | Clearing_socket k \<Rightarrow> Some (s\<lparr>client := c\<lparr>socket_fd := - 1\<rparr>, control := Joining k\<rparr>)
      | Joining k \<Rightarrow>
          (if worker_thread c = Worker_running then None
           else Some (s\<lparr>client := c\<lparr>worker_thread := No_worker\<rparr>, control := Clearing_connected k\<rparr>))
      | Clearing_connected k \<Rightarrow>
          Some (s\<lparr>client := c\<lparr>connected := False\<rparr>,
            control := case k of Then_return \<Rightarrow> Idle | Then_start h p \<Rightarrow> Setting_address h p\<rparr>)
      | Setting_address h p \<Rightarrow> Some (s\<lparr>client := c\<lparr>cc_host := h, cc_port := p\<rparr>, control := Setting_running\<rparr>)
      | Setting_running \<Rightarrow> Some (s\<lparr>client := c\<lparr>running := True\<rparr>, control := Starting_worker\<rparr>)
      | Starting_worker \<Rightarrow>
          Some (s\<lparr>client := c\<lparr>worker_thread := Worker_running\<rparr>, worker_pc := At_address, control := Idle\<rparr>))"

section \<open>The worker\<close>

datatype net_event = Net_ok | Net_fails | Net_socket i32 | Net_bytes bytes

definition RECV_BUFFER_SIZE :: nat where
  "RECV_BUFFER_SIZE = 4096"

definition worker_goes :: "worker_at \<Rightarrow> session \<Rightarrow> session" where
  "worker_goes w s = s\<lparr>worker_pc := w\<rparr>"

text \<open>The size of the packet at the front of the read buffer, when all of it is there.\<close>

definition packet_ready :: "bytes \<Rightarrow> nat option" where
  "packet_ready b =
     (if CL_HEADER_SIZE \<le> length b \<and> CL_HEADER_SIZE + unat (frame_length b) \<le> length b
      then Some (CL_HEADER_SIZE + unat (frame_length b)) else None)"

text \<open>
  One access of \<open>run\<close> or \<open>read_loop\<close>; a packet is handled in one step. \<open>None\<close>: the step is not
  possible (another event is needed, or \<open>handle_packet\<close> would read outside the packet).
\<close>

definition run_step :: "net_event \<Rightarrow> session \<Rightarrow> session option" where
  "run_step e s =
     (let c = client s in
      case worker_pc s of
        At_address \<Rightarrow> (case e of Net_ok \<Rightarrow> Some (worker_goes At_socket s)
                             | Net_fails \<Rightarrow> Some (worker_goes At_report_lost s) | _ \<Rightarrow> None)
      | At_socket \<Rightarrow>
          (case e of
             Net_socket fd \<Rightarrow> if 0 \<le> sint fd \<and> fd \<notin> set (open_fds s)
               then Some (s\<lparr>client := c\<lparr>socket_fd := fd\<rparr>, open_fds := fd # open_fds s, worker_pc := At_socket_test\<rparr>)
               else None
           | Net_fails \<Rightarrow> Some (s\<lparr>client := c\<lparr>socket_fd := - 1\<rparr>, worker_pc := At_socket_test\<rparr>)
           | _ \<Rightarrow> None)
      | At_socket_test \<Rightarrow> Some (worker_goes (if sint (socket_fd c) < 0 then At_report_lost else At_connect) s)
      | At_connect \<Rightarrow>
          Some (worker_goes (if socket_fd c \<in> set (open_fds s) then At_connecting else At_refused) s)
      | At_connecting \<Rightarrow> (case e of Net_ok \<Rightarrow> Some (worker_goes At_connected s)
                                | Net_fails \<Rightarrow> Some (worker_goes At_refused s) | _ \<Rightarrow> None)
      | At_refused \<Rightarrow> Some (worker_goes At_refused_closed (close_fd (socket_fd c) s))
      | At_refused_closed \<Rightarrow> Some (s\<lparr>client := c\<lparr>socket_fd := - 1\<rparr>, worker_pc := At_report_lost\<rparr>)
      | At_connected \<Rightarrow> Some (s\<lparr>client := c\<lparr>connected := True\<rparr>, worker_pc := At_report_connected\<rparr>)
      | At_report_connected \<Rightarrow>
          Some (s\<lparr>client := invoke (status_callback c) (Status_callback 1) c, worker_pc := At_loop_test\<rparr>)
      | At_loop_test \<Rightarrow> Some (worker_goes (if running c then At_recv else At_loop_left) s)
      | At_recv \<Rightarrow>
          Some (worker_goes (if socket_fd c \<in> set (open_fds s) then At_receiving else At_loop_left) s)
      | At_receiving \<Rightarrow>
          (case e of
             Net_bytes b \<Rightarrow> if 0 < length b \<and> length b \<le> RECV_BUFFER_SIZE
               then Some (s\<lparr>client := c\<lparr>read_buffer := read_buffer c @ b\<rparr>, worker_pc := At_drain\<rparr>) else None
           | Net_fails \<Rightarrow> Some (worker_goes At_loop_left s)
           | _ \<Rightarrow> None)
      | At_drain \<Rightarrow>
          (case packet_ready (read_buffer c) of
             None \<Rightarrow> Some (worker_goes At_loop_test s)
           | Some n \<Rightarrow> map_option (\<lambda>c. s\<lparr>client := c\<rparr>)
               (handle_packet (c\<lparr>read_buffer := drop n (read_buffer c)\<rparr>) (take n (read_buffer c))))
      | At_loop_left \<Rightarrow> Some (s\<lparr>client := c\<lparr>connected := False\<rparr>, worker_pc := At_report_lost\<rparr>)
      | At_report_lost \<Rightarrow>
          Some (s\<lparr>client := (invoke (status_callback c) (Status_callback 0) c)\<lparr>worker_thread := Worker_done\<rparr>\<rparr>))"

definition worker_step :: "net_event \<Rightarrow> session \<Rightarrow> session option" where
  "worker_step e s = (if worker_thread (client s) = Worker_running then run_step e s else None)"

section \<open>Both threads\<close>

inductive client_request :: "chat_client \<Rightarrow> chat_client \<Rightarrow> bool" where
  "client_request c (login u p cb c)"
| "client_request c (send_message i t c)"
| "client_request c (get_friend_list cb c)"
| "client_request c (add_friend i c)"
| "client_request c (register_user u p q a cb c)"
| "client_request c (get_security_question u cb c)"
| "client_request c (reset_password u p a cb c)"
| "client_request c (check_version v cb c)"
| "client_request c (set_message_callback cb c)"
| "client_request c (set_status_callback cb c)"

inductive session_step :: "session \<Rightarrow> session \<Rightarrow> bool" where
  disconnects: "control s = Idle \<Longrightarrow> session_step s (disconnect s)"
| connects: "control s = Idle \<Longrightarrow> session_step s (connect host port s)"
| requests: "control s = Idle \<Longrightarrow> client_request (client s) c \<Longrightarrow> session_step s (s\<lparr>client := c\<rparr>)"
| controls: "control_step s = Some s' \<Longrightarrow> session_step s s'"
| works: "worker_step e s = Some s' \<Longrightarrow> session_step s s'"

inductive_cases session_stepE: "session_step s s'"

inductive session_reachable :: "session \<Rightarrow> bool" where
  session_init: "session_reachable (new_session h p)"
| session_next: "session_reachable s \<Longrightarrow> session_step s s' \<Longrightarrow> session_reachable s'"

text \<open>A run given by its schedule: \<open>None\<close> is a step of the first thread, \<open>Some e\<close> one of the worker.\<close>

primrec session_run :: "net_event option list \<Rightarrow> session \<Rightarrow> session option" where
  "session_run [] s = Some s"
| "session_run (m # ms) s =
     (case (case m of None \<Rightarrow> control_step s | Some e \<Rightarrow> worker_step e s) of
        None \<Rightarrow> None | Some s' \<Rightarrow> session_run ms s')"

lemma session_reachable_steps: "session_step\<^sup>*\<^sup>* s s' \<Longrightarrow> session_reachable s \<Longrightarrow> session_reachable s'"
  by (induction rule: rtranclp_induct) (auto intro: session_next)

lemma session_run_steps: "session_run ms s = Some s' \<Longrightarrow> session_step\<^sup>*\<^sup>* s s'"
proof (induction ms arbitrary: s)
  case (Cons m ms)
  then obtain s1 where s1: "(case m of None \<Rightarrow> control_step s | Some e \<Rightarrow> worker_step e s) = Some s1"
    "session_run ms s1 = Some s'" by (auto split: option.splits)
  then have "session_step s s1" by (cases m) (auto intro: controls works)
  then show ?case using Cons.IH [OF s1(2)] by (rule converse_rtranclp_into_rtranclp)
qed simp

section \<open>What the two threads keep\<close>

text \<open>The worker is past its \<open>connect\<close>; it owns a socket; the other thread has not come to close it.\<close>

fun reading :: "worker_at \<Rightarrow> bool" where
  "reading At_report_connected = True"
| "reading At_loop_test = True"
| "reading At_recv = True"
| "reading At_receiving = True"
| "reading At_drain = True"
| "reading At_loop_left = True"
| "reading _ = False"

fun owns_socket :: "worker_at \<Rightarrow> bool" where
  "owns_socket At_connect = True"
| "owns_socket At_connecting = True"
| "owns_socket At_refused = True"
| "owns_socket At_connected = True"
| "owns_socket w = reading w"

fun not_stopping :: "control_at \<Rightarrow> bool" where
  "not_stopping Idle = True"
| "not_stopping (Clearing_running k) = True"
| "not_stopping _ = False"

fun before_close :: "control_at \<Rightarrow> bool" where
  "before_close (Testing_socket k) = True"
| "before_close (Closing_socket k) = True"
| "before_close w = not_stopping w"

fun worker_gone :: "control_at \<Rightarrow> bool" where
  "worker_gone (Clearing_connected k) = True"
| "worker_gone (Setting_address h p) = True"
| "worker_gone Setting_running = True"
| "worker_gone Starting_worker = True"
| "worker_gone _ = False"

abbreviation worker_runs :: "session \<Rightarrow> bool" where
  "worker_runs s \<equiv> worker_thread (client s) = Worker_running"

definition threads_inv :: "session \<Rightarrow> bool" where
  "threads_inv s \<longleftrightarrow>
     (connected (client s) \<longrightarrow> worker_runs s \<and> reading (worker_pc s)) \<and>
     (worker_runs s \<and> not_stopping (control s) \<longrightarrow> running (client s)) \<and>
     (worker_runs s \<and> before_close (control s) \<and> owns_socket (worker_pc s) \<longrightarrow>
        socket_fd (client s) \<in> set (open_fds s)) \<and>
     (worker_runs s \<and> before_close (control s) \<and> worker_pc s = At_socket_test \<and> 0 \<le> sint (socket_fd (client s)) \<longrightarrow>
        socket_fd (client s) \<in> set (open_fds s)) \<and>
     (worker_gone (control s) \<longrightarrow> \<not> worker_runs s) \<and>
     (control s = Starting_worker \<longrightarrow> running (client s)) \<and>
     (\<forall>fd\<in>set (open_fds s). 0 \<le> sint fd)"

lemma client_request_session: "client_request c c' \<Longrightarrow> same_session c c'"
  by (induction rule: client_request.induct) (simp_all add: request_defs same_session_def)

lemma threads_inv_same_session:
  "threads_inv s \<Longrightarrow> same_session (client s) c \<Longrightarrow> threads_inv (s\<lparr>client := c\<rparr>)"
  by (simp add: threads_inv_def same_session_def)

lemma threads_inv_control:
  assumes "threads_inv s" and "control_step s = Some s'" shows "threads_inv s'"
proof (cases "control s")
  case (Closing_socket k)
  then have s': "s' = (close_fd (socket_fd (client s)) s)\<lparr>control := Clearing_socket k\<rparr>"
    using assms(2) by (simp add: Let_def)
  show ?thesis using assms(1) Closing_socket unfolding s' threads_inv_def close_fd_def by simp
next
  case (Clearing_connected k)
  then show ?thesis
    using assms by (cases k) (auto simp: threads_inv_def Let_def)
qed (use assms in \<open>simp_all add: threads_inv_def Let_def split: if_splits, auto\<close>)

lemma threads_inv_drain:
  assumes "threads_inv s" and "worker_pc s = At_drain" and "run_step e s = Some s'" shows "threads_inv s'"
proof (cases "packet_ready (read_buffer (client s))")
  case None
  then have s': "s' = s\<lparr>worker_pc := At_loop_test\<rparr>" using assms(2,3) by (simp add: run_step_def worker_goes_def)
  show ?thesis using assms(1,2) unfolding s' threads_inv_def by simp
next
  case (Some n)
  then obtain c where "handle_packet ((client s)\<lparr>read_buffer := drop n (read_buffer (client s))\<rparr>)
      (take n (read_buffer (client s))) = Some c" and s': "s' = s\<lparr>client := c\<rparr>"
    using assms(2,3) by (auto simp: run_step_def Let_def)
  then have "same_session (client s) c"
    using same_session_handle_packet by (fastforce simp: same_session_def)
  with assms(1) show ?thesis unfolding s' by (rule threads_inv_same_session)
qed

lemma threads_inv_worker:
  assumes "threads_inv s" and "worker_step e s = Some s'" shows "threads_inv s'"
proof -
  have w: "worker_runs s" and step: "run_step e s = Some s'"
    using assms(2) by (auto simp: worker_step_def split: if_splits)
  show ?thesis
  proof (cases "worker_pc s")
    case At_drain
    then show ?thesis using threads_inv_drain [OF assms(1) _ step] by blast
  next
    case At_refused
    then have s': "s' = worker_goes At_refused_closed (close_fd (socket_fd (client s)) s)"
      using step by (simp add: run_step_def)
    show ?thesis using assms(1) At_refused w unfolding s' threads_inv_def close_fd_def worker_goes_def by simp
  qed (use assms(1) w step in \<open>auto simp: run_step_def worker_goes_def Let_def split: if_splits net_event.splits\<close>,
      simp_all add: threads_inv_def invoke_def)
qed

lemma threads_inv_step: "session_step s s' \<Longrightarrow> threads_inv s \<Longrightarrow> threads_inv s'"
proof (induction rule: session_step.induct)
  case (requests s c)
  then show ?case by (blast intro: threads_inv_same_session client_request_session)
next
  case (controls s s')
  then show ?case by (blast intro: threads_inv_control)
next
  case (works e s s')
  then show ?case by (blast intro: threads_inv_worker)
qed (simp_all add: disconnect_def connect_def threads_inv_def)

lemma reachable_threads_inv: "session_reachable s \<Longrightarrow> threads_inv s"
proof (induction rule: session_reachable.induct)
  case (session_init h p)
  show ?case by (simp add: threads_inv_def new_session_def new_client_def)
qed (rule threads_inv_step)

section \<open>A disconnect ends\<close>

text \<open>
  From the moment \<open>disconnect\<close> has cleared \<open>running_\<close> until it returns (or \<open>connect\<close> goes on), every
  step of either thread lowers \<open>stop_bound\<close>: the worker takes at most one more pass of its loop, with
  at most one more \<open>recv\<close>.
\<close>

fun stop_rank :: "control_at \<Rightarrow> nat option" where
  "stop_rank (Testing_socket k) = Some 5"
| "stop_rank (Closing_socket k) = Some 4"
| "stop_rank (Clearing_socket k) = Some 3"
| "stop_rank (Joining k) = Some 2"
| "stop_rank (Clearing_connected k) = Some 1"
| "stop_rank _ = None"

fun pass_rank :: "worker_at \<Rightarrow> nat \<Rightarrow> nat" where
  "pass_rank At_report_lost k = 1"
| "pass_rank At_loop_left k = 2"
| "pass_rank At_loop_test k = 3"
| "pass_rank At_drain k = 4 + k"
| "pass_rank At_receiving k = 5 + RECV_BUFFER_SIZE + k"
| "pass_rank At_recv k = 6 + RECV_BUFFER_SIZE + k"
| "pass_rank At_report_connected k = 4"
| "pass_rank At_connected k = 5"
| "pass_rank At_refused_closed k = 2"
| "pass_rank At_refused k = 3"
| "pass_rank At_connecting k = 6"
| "pass_rank At_connect k = 7"
| "pass_rank At_socket_test k = 8"
| "pass_rank At_socket k = 9"
| "pass_rank At_address k = 10"

definition stopping :: "session \<Rightarrow> bool" where
  "stopping s \<longleftrightarrow> stop_rank (control s) \<noteq> None \<and> \<not> running (client s)"

definition worker_bound :: "session \<Rightarrow> nat" where
  "worker_bound s = (if worker_runs s then pass_rank (worker_pc s) (length (read_buffer (client s))) else 0)"

definition stop_bound :: "session \<Rightarrow> nat" where
  "stop_bound s = (case stop_rank (control s) of None \<Rightarrow> 0 | Some r \<Rightarrow> r) + worker_bound s"

lemma packet_ready_pos: "packet_ready b = Some n \<Longrightarrow> 0 < n \<and> n \<le> length b"
  by (auto simp: packet_ready_def CL_HEADER_SIZE_def split: if_splits)

lemma worker_bound_step:
  assumes "worker_step e s = Some s'" and "\<not> running (client s)"
  shows "worker_bound s' < worker_bound s \<and> control s' = control s \<and> \<not> running (client s')"
proof -
  have w: "worker_runs s" and step: "run_step e s = Some s'"
    using assms(1) by (auto simp: worker_step_def split: if_splits)
  show ?thesis
  proof (cases "worker_pc s")
    case At_drain
    show ?thesis
    proof (cases "packet_ready (read_buffer (client s))")
      case None
      then show ?thesis
        using assms(2) w step At_drain by (auto simp: run_step_def worker_goes_def worker_bound_def)
    next
      case (Some n)
      then obtain c where c: "handle_packet ((client s)\<lparr>read_buffer := drop n (read_buffer (client s))\<rparr>)
          (take n (read_buffer (client s))) = Some c" and s': "s' = s\<lparr>client := c\<rparr>"
        using step At_drain by (auto simp: run_step_def Let_def)
      have "read_buffer c = drop n (read_buffer (client s))" using handle_packet_read_buffer [OF c] by simp
      moreover have "same_session (client s) c"
        using same_session_handle_packet [OF c] by (simp add: same_session_def)
      ultimately show ?thesis
        using assms(2) w At_drain packet_ready_pos [OF Some]
        by (simp add: s' worker_bound_def same_session_def)
    qed
  qed (use assms(2) w step in \<open>auto simp: run_step_def worker_goes_def Let_def split: if_splits net_event.splits\<close>,
      auto simp: worker_bound_def invoke_def close_fd_def split: if_splits)
qed

lemma stopping_step:
  assumes "session_step s s'" and "stopping s"
  shows "stop_bound s' < stop_bound s \<and> (stop_rank (control s') \<noteq> None \<longrightarrow> stopping s')"
  using assms
proof (cases rule: session_step.cases)
  case controls
  then show ?thesis
    using assms(2) by (cases "control s")
      (auto simp: stopping_def stop_bound_def worker_bound_def close_fd_def Let_def split: if_splits after_stop.splits)
next
  case (works e)
  then show ?thesis using assms(2) worker_bound_step [OF works] by (auto simp: stopping_def stop_bound_def)
qed (simp_all add: stopping_def)

lemma worker_can_step:
  assumes "worker_runs s" and "worker_pc s \<noteq> At_drain" shows "\<exists>s'. worker_step Net_fails s = Some s'"
  using assms by (cases "worker_pc s") (simp_all add: worker_step_def run_step_def Let_def)

text \<open>
  A \<open>disconnect\<close> that has cleared \<open>running_\<close> takes at most \<open>stop_bound\<close> more steps of both threads
  together, and it is never stuck: some thread can always go on, unless the packet at hand makes
  \<open>handle_packet\<close> read outside it. (A step of \<open>recv\<close> is taken when the kernel answers: closing a
  socket does not wake a \<open>recv\<close> that other thread is blocked in, so \<open>join\<close> may wait that long.)
\<close>

theorem disconnect_ends:
  assumes "stopping s" and "((\<lambda>s s'. stopping s \<and> session_step s s') ^^ n) s s'"
  shows "n \<le> stop_bound s \<and> (stopping s' \<longrightarrow> (\<exists>s''. session_step s' s'') \<or>
    worker_pc s' = At_drain \<and> (\<exists>n. packet_ready (read_buffer (client s')) = Some n \<and>
      handle_packet (client s') (take n (read_buffer (client s'))) = None))"
proof
  show "n \<le> stop_bound s"
    using assms(2)
  proof (induction n arbitrary: s)
    case (Suc n)
    then obtain s1 where s1: "stopping s" "session_step s s1"
      "((\<lambda>s s'. stopping s \<and> session_step s s') ^^ n) s1 s'"
      using relpowp_Suc_D2 [OF Suc.prems] by blast
    from Suc.IH [OF s1(3)] stopping_step [OF s1(2,1)] show ?case by simp
  qed simp
  show "stopping s' \<longrightarrow> (\<exists>s''. session_step s' s'') \<or>
    worker_pc s' = At_drain \<and> (\<exists>n. packet_ready (read_buffer (client s')) = Some n \<and>
      handle_packet (client s') (take n (read_buffer (client s'))) = None)"
  proof (cases "worker_runs s'")
    case False
    then show ?thesis
      using controls [of s'] by (cases "control s'") (auto simp: stopping_def Let_def)
  next
    case True
    show ?thesis
    proof (cases "worker_pc s' = At_drain")
      case at: True
      have stuck: "handle_packet (client s') (take n (read_buffer (client s'))) = None"
        if "handle_packet ((client s')\<lparr>read_buffer := r\<rparr>) (take n (read_buffer (client s'))) = None" for n r
        using that by (simp add: handle_packet_frame)
      show ?thesis
      proof (cases "worker_step Net_fails s'")
        case None
        then show ?thesis
          using True at by (auto simp: worker_step_def run_step_def Let_def dest: stuck split: option.splits)
      qed (blast intro: works)
    qed (use worker_can_step [OF True] in \<open>blast intro: works\<close>)
  qed
qed

section \<open>The worker executes the read loop\<close>

lemma drain_packet_ready:
  "drain c = (case packet_ready (read_buffer c) of
     None \<Rightarrow> Some c
   | Some n \<Rightarrow> (case handle_packet (c\<lparr>read_buffer := drop n (read_buffer c)\<rparr>) (take n (read_buffer c)) of
         None \<Rightarrow> None | Some c' \<Rightarrow> drain c'))"
  by (subst drain.simps) (auto simp: packet_ready_def Let_def split: option.split)

lemma worker_drains:
  "worker_runs s \<Longrightarrow> worker_pc s = At_drain \<Longrightarrow> drain (client s) = Some c \<Longrightarrow>
     \<exists>k. session_run (replicate k (Some Net_ok)) s = Some (s\<lparr>client := c, worker_pc := At_loop_test\<rparr>)"
proof (induction "length (read_buffer (client s))" arbitrary: s rule: less_induct)
  case less
  show ?case
  proof (cases "packet_ready (read_buffer (client s))")
    case None
    then have "c = client s" using less.prems(3) by (simp add: drain_packet_ready [of "client s"])
    then show ?thesis
      using less.prems(1,2) None
      by (intro exI [of _ 1]) (simp add: worker_step_def run_step_def worker_goes_def)
  next
    case (Some n)
    let ?b = "read_buffer (client s)"
    obtain c1 where c1: "handle_packet ((client s)\<lparr>read_buffer := drop n ?b\<rparr>) (take n ?b) = Some c1"
      and d: "drain c1 = Some c"
      using less.prems(3) Some by (auto simp: drain_packet_ready [of "client s"] split: option.splits)
    have step: "worker_step Net_ok s = Some (s\<lparr>client := c1\<rparr>)"
      using less.prems(1,2) Some c1 by (simp add: worker_step_def run_step_def)
    have "read_buffer c1 = drop n ?b" using handle_packet_read_buffer [OF c1] by simp
    then have "length (read_buffer c1) < length ?b" using packet_ready_pos [OF Some] by (simp, linarith)
    moreover have "worker_thread c1 = Worker_running"
      using same_session_handle_packet [OF c1] less.prems(1) by (simp add: same_session_def)
    ultimately obtain k where "session_run (replicate k (Some Net_ok)) (s\<lparr>client := c1\<rparr>)
        = Some (s\<lparr>client := c, worker_pc := At_loop_test\<rparr>)"
      using less.hyps [of "s\<lparr>client := c1\<rparr>"] less.prems(2) d by auto
    then show ?thesis by (intro exI [of _ "Suc k"]) (simp add: step)
  qed
qed

lemma session_run_append:
  "session_run (ms @ ns) s = (case session_run ms s of None \<Rightarrow> None | Some s' \<Rightarrow> session_run ns s')"
  by (induction ms arbitrary: s) (auto split: option.split)

text \<open>
  While nobody stops it, the worker's steps do to the client what \<open>read_loop\<close> says of the chunks its
  \<open>recv\<close>s deliver; when a \<open>recv\<close> fails at the end, it leaves the loop as \<open>read_loop\<close> does.
\<close>

lemma worker_reads_chunks:
  assumes "worker_runs s" and "worker_pc s = At_loop_test" and "running (client s)"
    and "socket_fd (client s) \<in> set (open_fds s)"
    and "\<forall>b\<in>set chunks. 0 < length b \<and> length b \<le> RECV_BUFFER_SIZE"
    and "read_loop (client s) (map Received chunks) = Some (c, ended)"
  shows "\<exists>es. session_run (map Some es) s = Some (s\<lparr>client := c\<rparr>)"
  using assms
proof (induction chunks arbitrary: s)
  case Nil
  then show ?case by (intro exI [of _ "[]"]) simp
next
  case (Cons b bs)
  let ?d = "(client s)\<lparr>read_buffer := read_buffer (client s) @ b\<rparr>"
  obtain d where d: "drain ?d = Some d" and rest: "read_loop d (map Received bs) = Some (c, ended)"
    using Cons.prems(6) by (auto split: bind_splits)
  have first: "session_run [Some Net_ok, Some Net_ok, Some (Net_bytes b)] s
      = Some (s\<lparr>client := ?d, worker_pc := At_drain\<rparr>)"
    using Cons.prems(1-5) by (simp add: worker_step_def run_step_def worker_goes_def Let_def)
  obtain k where k: "session_run (replicate k (Some Net_ok)) (s\<lparr>client := ?d, worker_pc := At_drain\<rparr>)
      = Some (s\<lparr>client := d, worker_pc := At_loop_test\<rparr>)"
    using worker_drains [of "s\<lparr>client := ?d, worker_pc := At_drain\<rparr>" d] Cons.prems(1) d by auto
  have same: "s\<lparr>client := d, worker_pc := At_loop_test\<rparr> = s\<lparr>client := d\<rparr>"
    using Cons.prems(2) by simp
  have "same_session ?d d" by (rule same_session_drain [OF d])
  then obtain es where "session_run (map Some es) (s\<lparr>client := d\<rparr>) = Some (s\<lparr>client := c\<rparr>)"
    using Cons.IH [of "s\<lparr>client := d\<rparr>"] Cons.prems(1-5) rest by (auto simp: same_session_def)
  moreover have "map Some ([Net_ok, Net_ok, Net_bytes b] @ replicate k Net_ok @ es)
      = [Some Net_ok, Some Net_ok, Some (Net_bytes b)] @ replicate k (Some Net_ok) @ map Some es"
    by simp
  ultimately show ?case
    using first k unfolding same by (metis (no_types, lifting) option.simps(5) session_run_append)
qed

theorem worker_executes_read_loop:
  assumes "worker_runs s" and "worker_pc s = At_loop_test" and "running (client s)"
    and "socket_fd (client s) \<in> set (open_fds s)"
    and "\<forall>b\<in>set chunks. 0 < length b \<and> length b \<le> RECV_BUFFER_SIZE"
    and "read_loop (client s) (map Received chunks) = Some (c, False)"
  shows "session_step\<^sup>*\<^sup>* s (s\<lparr>client := c\<rparr>) \<and>
    session_step\<^sup>*\<^sup>* s (s\<lparr>client := (fst (the (read_loop c [Recv_failed])))\<lparr>worker_thread := Worker_done\<rparr>,
      worker_pc := At_report_lost\<rparr>)"
proof -
  obtain es where es: "session_run (map Some es) s = Some (s\<lparr>client := c\<rparr>)"
    using worker_reads_chunks [OF assms] by blast
  have "same_session (client s) c" using read_loop_session [OF assms(6)] by simp
  then have leave: "session_run [Some Net_ok, Some Net_ok, Some Net_fails, Some Net_ok, Some Net_ok] (s\<lparr>client := c\<rparr>)
      = Some (s\<lparr>client := (leave_read_loop c)\<lparr>worker_thread := Worker_done\<rparr>, worker_pc := At_report_lost\<rparr>)"
    using assms(1-4)
    by (simp add: worker_step_def run_step_def worker_goes_def same_session_def leave_read_loop_def Let_def)
  show ?thesis
    using session_run_steps [OF es] rtranclp_trans [OF session_run_steps [OF es] session_run_steps [OF leave]]
    by simp
qed

section \<open>Bytes left over from an earlier connection\<close>

text \<open>Steps that receive nothing: everything but a \<open>recv\<close> that delivers bytes.\<close>

definition quiet_step :: "session \<Rightarrow> session \<Rightarrow> bool" where
  "quiet_step s s' \<longleftrightarrow> session_step s s' \<and> (worker_pc s = At_receiving \<longrightarrow> worker_pc s' \<noteq> At_drain)"

lemma request_read_buffer: "client_request c c' \<Longrightarrow> read_buffer c' = read_buffer c"
  by (induction rule: client_request.induct) (simp_all add: request_defs)

lemma control_read_buffer:
  "control_step s = Some s' \<Longrightarrow> read_buffer (client s') = read_buffer (client s)"
  by (cases "control s") (auto simp: Let_def close_fd_def split: if_splits)

lemma quiet_read_buffer:
  assumes "quiet_step s s'" and "packet_ready (read_buffer (client s)) = None"
  shows "read_buffer (client s') = read_buffer (client s)"
  using assms(1) unfolding quiet_step_def
proof (elim conjE session_step.cases)
  fix e s1 s1' assume "s = s1" "s' = s1'" and w: "worker_step e s1 = Some s1'"
    and quiet: "worker_pc s = At_receiving \<longrightarrow> worker_pc s' \<noteq> At_drain"
  then show ?thesis
    using assms(2) by (cases "worker_pc s1") (auto simp: worker_step_def run_step_def worker_goes_def
      close_fd_def Let_def split: if_splits net_event.splits)
qed (auto simp: disconnect_def connect_def control_read_buffer request_read_buffer)

text \<open>
  C40. Nothing clears \<open>read_buffer_\<close>. When a connection is lost in the middle of a packet of n bytes, with
  its first k bytes received (the header at least), those bytes are in the buffer after any number
  of disconnects and reconnects, and the first n - k bytes of the next stream, whatever they are,
  are taken for the rest of that packet.
\<close>

theorem reconnect_keeps_stale_bytes:
  assumes "length (pkt_data p) < 4294967296" and "n = length (encode p)" and "7 \<le> k" and "k < n"
    and "read_buffer (client s) = take k (encode p)" and "quiet_step\<^sup>*\<^sup>* s s'"
    and "n - k \<le> length stream"
  shows "read_buffer (client s') = take k (encode p) \<and>
    drain ((client s')\<lparr>read_buffer := read_buffer (client s') @ stream\<rparr>)
      = do { c \<leftarrow> handle_packet (client s') (take k (encode p) @ take (n - k) stream);
             drain (c\<lparr>read_buffer := drop (n - k) stream\<rparr>) }"
proof -
  let ?b = "take k (encode p)"
  have size: "client_frame_size ?b = Some n"
    using client_frames.size_stable [of ?b _ "drop k (encode p)"] client_frame_size_encode [OF assms(1)] assms(2-4)
    by (auto simp: client_frame_size_def CL_HEADER_SIZE_def split: if_splits)
  then have partial: "packet_ready ?b = None"
    using assms(2-4) by (auto simp: packet_ready_def client_frame_size_def split: if_splits)
  have kept: "read_buffer (client s') = ?b"
    using assms(6) by (induction rule: rtranclp_induct) (simp_all add: assms(5) quiet_read_buffer partial)
  have "client_frame_size (?b @ stream) = Some n" by (rule client_frames.size_stable [OF size])
  then have "packet_ready (?b @ stream) = Some n"
    using assms(2-4,7) by (auto simp: packet_ready_def client_frame_size_def split: if_splits)
  moreover have "take n (?b @ stream) = ?b @ take (n - k) stream" "drop n (?b @ stream) = drop (n - k) stream"
    using assms(2-4) by simp_all
  ultimately show ?thesis
    using kept
    by (simp add: drain_packet_ready [of "(client s')\<lparr>read_buffer := ?b @ stream\<rparr>"] handle_packet_frame
        bind_eq_None_conv split: option.split)
qed

section \<open>Properties\<close>

text \<open>
  C26. In every state the two threads can reach together: the client reports itself connected only
  while its worker is between its \<open>connect\<close> and the end of its read loop. While no \<open>connect\<close> or
  \<open>disconnect\<close> is under way, a worker always finds \<open>running_\<close> set and a connected client has an open
  socket; and once a \<open>disconnect\<close> has passed its \<open>join\<close> there is no worker and no connection. (Between
  closing the socket and the \<open>join\<close>, a connected client has none: the witness shows such a state.)
\<close>

theorem client_connected_has_socket:
  assumes "session_reachable s"
  shows "(is_connected (client s) \<longrightarrow> worker_runs s \<and> reading (worker_pc s)) \<and>
    (control s = Idle \<and> worker_runs s \<longrightarrow> running (client s)) \<and>
    (control s = Idle \<and> is_connected (client s) \<longrightarrow>
       0 \<le> sint (socket_fd (client s)) \<and> socket_fd (client s) \<in> set (open_fds s)) \<and>
    (worker_gone (control s) \<longrightarrow> \<not> worker_runs s \<and> \<not> is_connected (client s))"
  using reachable_threads_inv [OF assms]
  by (cases "worker_pc s") (auto simp: threads_inv_def is_connected_def)

text \<open>From a new client to a connected one, on descriptor 5.\<close>

definition connecting :: "net_event option list" where
  "connecting = [None, None, None, None, None, None, None, Some Net_ok, Some (Net_socket 5), Some Net_ok,
     Some Net_ok]"

definition demo_session :: session where
  "demo_session = connect ''10.0.2.2'' 8888 (new_session [] 0)"

lemma demo_session_reachable: "session_run ms demo_session = Some s \<Longrightarrow> session_reachable s"
proof -
  assume run: "session_run ms demo_session = Some s"
  have "session_reachable demo_session"
    unfolding demo_session_def by (rule session_next [OF session_init connects]) (simp add: new_session_def)
  then show ?thesis by (rule session_reachable_steps [OF session_run_steps [OF run]])
qed

lemmas session_run_defs = demo_session_def connect_def disconnect_def new_session_def new_client_def
  connecting_def worker_step_def run_step_def worker_goes_def close_fd_def invoke_def is_connected_def

lemma connected_run: "\<exists>s. session_run (connecting @ [Some Net_ok, Some Net_ok, Some Net_ok]) demo_session = Some s \<and>
    control s = Idle \<and> is_connected (client s) \<and> worker_pc s = At_loop_test \<and> worker_runs s"
  by (simp add: session_run_defs)

theorem client_connected_has_socket_witness:
  "(\<exists>s. session_reachable s \<and> control s = Idle \<and> is_connected (client s) \<and> running (client s) \<and>
      0 \<le> sint (socket_fd (client s)) \<and> socket_fd (client s) \<in> set (open_fds s)) \<and>
   (\<exists>s. session_reachable s \<and> is_connected (client s) \<and> \<not> running (client s) \<and> socket_fd (client s) = - 1)"
proof
  obtain s where s: "session_run (connecting @ [Some Net_ok, Some Net_ok, Some Net_ok]) demo_session = Some s"
    "control s = Idle" "is_connected (client s)"
    using connected_run by blast
  then have r: "session_reachable s" by (blast intro: demo_session_reachable)
  from client_connected_has_socket [OF r] r s(2,3)
  show "\<exists>s. session_reachable s \<and> control s = Idle \<and> is_connected (client s) \<and> running (client s) \<and>
      0 \<le> sint (socket_fd (client s)) \<and> socket_fd (client s) \<in> set (open_fds s)"
    by blast
  have "session_step s (disconnect s)" using s(2) by (rule disconnects)
  then have "session_reachable (disconnect s)" using r by (blast intro: session_next)
  moreover have "\<exists>s'. session_run [None, None, None, None] (disconnect s) = Some s' \<and> is_connected (client s') \<and>
      \<not> running (client s') \<and> socket_fd (client s') = - 1"
    using s by (auto simp: session_run_defs)
  ultimately show "\<exists>s. session_reachable s \<and> is_connected (client s) \<and> \<not> running (client s) \<and> socket_fd (client s) = - 1"
    using session_reachable_steps session_run_steps by blast
qed

text \<open>
  What \<open>disconnect\<close> cannot prevent. When it looks at \<open>socket_fd_\<close> before the worker has created its
  socket, it returns with no worker, not connected, and the socket still open, so a request is sent
  on it; and when the connection is refused at the same time, both threads close the same descriptor.
\<close>

theorem disconnect_races:
  "(\<exists>s. session_reachable s \<and> control s = Idle \<and> \<not> worker_runs s \<and> \<not> running (client s) \<and>
      \<not> is_connected (client s) \<and> socket_fd (client s) \<in> set (open_fds s) \<and>
      sent (send_message 1 ''hi'' (client s)) = sent (client s) @ [cl_encode_message_request 1 ''hi'']) \<and>
   (\<exists>s. session_reachable s \<and> bad_closes s = 1)"
proof
  let ?start = "[None, None, None, None, None, None, None, Some Net_ok]"
  let ?late = "[None, None, Some (Net_socket 5), Some Net_ok, Some Net_ok, Some Net_ok, Some Net_ok, Some Net_ok,
    Some Net_ok, Some Net_ok, Some Net_ok, None, None]"
  have "\<exists>s. session_run ?start demo_session = Some s \<and> control s = Idle \<and>
     (\<exists>s'. session_run ?late (disconnect s) = Some s' \<and>
      control s' = Idle \<and> \<not> worker_runs s' \<and> \<not> running (client s') \<and>
      \<not> is_connected (client s') \<and> socket_fd (client s') = 5 \<and> open_fds s' = [5])"
    by (simp add: session_run_defs)
  then obtain s s' where s: "session_run ?start demo_session = Some s" "control s = Idle"
    and s': "session_run ?late (disconnect s) = Some s'"
      "control s' = Idle" "\<not> worker_runs s'" "\<not> running (client s')"
      "\<not> is_connected (client s')" "socket_fd (client s') = 5" "open_fds s' = [5]"
    by blast
  have "session_reachable (disconnect s)"
    by (rule session_next [OF demo_session_reachable [OF s(1)] disconnects [OF s(2)]])
  then have "session_reachable s'" by (rule session_reachable_steps [OF session_run_steps [OF s'(1)]])
  with s' show "\<exists>s. session_reachable s \<and> control s = Idle \<and> \<not> worker_runs s \<and> \<not> running (client s) \<and>
      \<not> is_connected (client s) \<and> socket_fd (client s) \<in> set (open_fds s) \<and>
      sent (send_message 1 ''hi'' (client s)) = sent (client s) @ [cl_encode_message_request 1 ''hi'']"
    by (intro exI [of _ s']) (simp add: send_message_def send_packet_def)
  have "\<exists>s. session_run connecting demo_session = Some s \<and> control s = Idle \<and>
     (\<exists>s'. session_run [None, None, Some Net_fails, Some Net_ok, None] (disconnect s) = Some s' \<and> bad_closes s' = 1)"
    by (simp add: session_run_defs)
  then obtain s s' where s: "session_run connecting demo_session = Some s" "control s = Idle"
    and s': "session_run [None, None, Some Net_fails, Some Net_ok, None] (disconnect s) = Some s'" "bad_closes s' = 1"
    by blast
  have "session_reachable (disconnect s)"
    by (rule session_next [OF demo_session_reachable [OF s(1)] disconnects [OF s(2)]])
  then have "session_reachable s'" by (rule session_reachable_steps [OF session_run_steps [OF s'(1)]])
  with s'(2) show "\<exists>s. session_reachable s \<and> bad_closes s = 1" by blast
qed

lemma quiet_run:
  "session_run ms s = Some s' \<Longrightarrow> (\<forall>b. Some (Net_bytes b) \<notin> set ms) \<Longrightarrow> quiet_step\<^sup>*\<^sup>* s s'"
proof (induction ms arbitrary: s)
  case (Cons m ms)
  then obtain s1 where s1: "(case m of None \<Rightarrow> control_step s | Some e \<Rightarrow> worker_step e s) = Some s1"
    "session_run ms s1 = Some s'" by (auto split: option.splits)
  have "worker_pc s1 \<noteq> At_drain" if "worker_pc s = At_receiving"
    using s1(1) Cons.prems(2) that
    by (cases m; cases "control s")
      (auto simp: worker_step_def run_step_def worker_goes_def close_fd_def Let_def split: if_splits net_event.splits)
  moreover have "session_step s s1" using s1(1) by (cases m) (auto intro: controls works)
  ultimately have "quiet_step s s1" by (simp add: quiet_step_def)
  then show ?case using Cons.IH [OF s1(2)] Cons.prems(2) by (simp add: converse_rtranclp_into_rtranclp)
qed simp

text \<open>A notification of 25 bytes is cut after its header; the next stream starts with another one.\<close>

definition cut_packet :: packet where
  "cut_packet = \<lparr>pkt_version = VERSION, pkt_command = MESSAGE_NOTIFY,
     pkt_data = encode_message_notify \<lparr>mn_from_id = 3, mn_content = ''hi'', mn_timestamp = 9\<rparr>\<rparr>"

lemma cut_packet_length: "length (encode cut_packet) = 25" "length (pkt_data cut_packet) = 18"
  by (simp_all add: cut_packet_def length_encode encode_message_notify_def text_lengths)

theorem reconnect_keeps_stale_bytes_witness:
  "\<exists>s s'. session_reachable s \<and> read_buffer (client s) = take 7 (encode cut_packet) \<and> quiet_step\<^sup>*\<^sup>* s s' \<and>
     is_connected (client s') \<and> socket_fd (client s') = 6 \<and>
     drain ((client s')\<lparr>read_buffer := read_buffer (client s') @ encode cut_packet\<rparr>)
       = do { c \<leftarrow> handle_packet (client s') (take 7 (encode cut_packet) @ take 18 (encode cut_packet));
              drain (c\<lparr>read_buffer := drop 18 (encode cut_packet)\<rparr>) }"
proof -
  let ?bytes = "take 7 (encode cut_packet)"
  let ?first = "connecting @ [Some Net_ok, Some Net_ok, Some Net_ok, Some Net_ok, Some Net_ok, Some (Net_bytes ?bytes)]"
  let ?again = "[None, None, None, None, Some Net_ok, Some Net_ok, Some Net_ok, Some Net_ok, None, None, None, None, None,
    Some Net_ok, Some (Net_socket 6), Some Net_ok, Some Net_ok, Some Net_ok, Some Net_ok]"
  have len: "length ?bytes = 7" by (simp add: cut_packet_length)
  have size: "packet_ready ?bytes = None"
    using client_frames.size_stable [of ?bytes _ "drop 7 (encode cut_packet)"] client_frame_size_encode [of cut_packet]
    by (auto simp: packet_ready_def client_frame_size_def cut_packet_length CL_HEADER_SIZE_def split: if_splits)
  obtain s where s: "session_run ?first demo_session = Some s" "control s = Idle"
      "read_buffer (client s) = ?bytes" "worker_pc s = At_drain"
    and again: "\<exists>s'. session_run ?again (connect ''h'' 1 s) = Some s' \<and> is_connected (client s') \<and> socket_fd (client s') = 6"
    using len size by (simp add: session_run_defs RECV_BUFFER_SIZE_def del: length_take)
  obtain s' where s': "session_run ?again (connect ''h'' 1 s) = Some s'" "is_connected (client s')" "socket_fd (client s') = 6"
    using again by blast
  have "quiet_step s (connect ''h'' 1 s)"
    using s(4) by (simp add: quiet_step_def connects [OF s(2)])
  then have quiet: "quiet_step\<^sup>*\<^sup>* s s'"
    using quiet_run [OF s'(1)] by (simp add: converse_rtranclp_into_rtranclp)
  have n: "(25 :: nat) - 7 = 18" by simp
  have "read_buffer (client s') = ?bytes \<and> drain ((client s')\<lparr>read_buffer := read_buffer (client s') @ encode cut_packet\<rparr>)
       = do { c \<leftarrow> handle_packet (client s') (?bytes @ take 18 (encode cut_packet));
              drain (c\<lparr>read_buffer := drop 18 (encode cut_packet)\<rparr>) }"
    by (rule reconnect_keeps_stale_bytes [where n = 25 and k = 7 and p = cut_packet and s = s, unfolded n])
      (simp_all add: cut_packet_length s(3) quiet)
  with quiet s(3) s'(2,3) demo_session_reachable [OF s(1)] show ?thesis by blast
qed

end
