(* ===== verification/Native_Bridge.thy ===== *)
theory Native_Bridge
  imports Client_Threads
begin

text \<open>
  The bridge between the Android service and the client, android/app/src/main/cpp/native-lib.cpp:
  the functions Java calls, the callbacks that call Java, and the locks both take. Two threads run:
  the thread of the service and the client's worker. What a function does is a list of actions, one
  per lock, unlock, test and effect, in the order of the code; \<open>phone_step\<close> interleaves them.

  The JVM is a parameter: what \<open>GetEnv\<close> and \<open>AttachCurrentThread\<close> answer on the worker. A Java
  string is its text in modified UTF-8, which has no NUL byte; \<open>NewStringUTF\<close> reads up to the first
  one. The flag \<open>reentrant\<close> says whether \<open>g_mutex\<close> may be locked again by its owner: False is
  \<open>std::mutex\<close>, the program as it is (where the standard leaves a second lock undefined and the
  platform blocks), True the program with a \<open>std::recursive_mutex\<close>.
\<close>

section \<open>State\<close>

datatype mutex = G_mutex | Callback_mutex

datatype thread = Service_thread | Worker_thread

datatype jni_env = Env_attached | Env_detached | Env_unavailable

record jvm =
  get_env :: jni_env
  attach_ok :: bool

datatype java_value =
    Jint i32
  | Jlong i64
  | Jstring string
  | Jints "i32 list"
  | Jstrings "string list"

record bridge =
  g_client :: "chat_client option"
  g_jvm :: bool
  g_service :: "nat option"
  java_calls :: "(nat \<times> string \<times> java_value list) list"
  answers :: "bool list"

definition c_str :: "string \<Rightarrow> string" where
  "c_str s = takeWhile (\<lambda>c. c \<noteq> CHR 0x00) s"

section \<open>Actions\<close>

datatype client_op =
    Op_set_status | Op_set_message
  | Op_login string string | Op_send i32 string | Op_friends | Op_add i32
  | Op_register string string string string | Op_question string | Op_reset string string string
  | Op_version i32
  | Op_stop | Op_close | Op_joined | Op_disconnected | Op_start string i32
  | Op_socket i32 | Op_connected | Op_left | Op_log callback | Op_finished

fun run_op :: "client_op \<Rightarrow> chat_client \<Rightarrow> chat_client" where
  "run_op Op_set_status c = set_status_callback True c"
| "run_op Op_set_message c = set_message_callback True c"
| "run_op (Op_login u p) c = login u p True c"
| "run_op (Op_send i t) c = send_message i t c"
| "run_op Op_friends c = get_friend_list True c"
| "run_op (Op_add i) c = add_friend i c"
| "run_op (Op_register u p q a) c = register_user u p q a True c"
| "run_op (Op_question u) c = get_security_question u True c"
| "run_op (Op_reset u p a) c = reset_password u p a True c"
| "run_op (Op_version v) c = check_version v True c"
| "run_op Op_stop c = c\<lparr>running := False\<rparr>"
| "run_op Op_close c = c\<lparr>socket_fd := - 1\<rparr>"
| "run_op Op_joined c = c\<lparr>worker_thread := No_worker\<rparr>"
| "run_op Op_disconnected c = c\<lparr>connected := False\<rparr>"
| "run_op (Op_start h p) c =
     c\<lparr>cc_host := h, cc_port := p, running := True, worker_thread := Worker_running\<rparr>"
| "run_op (Op_socket fd) c = c\<lparr>socket_fd := fd\<rparr>"
| "run_op Op_connected c = c\<lparr>connected := True\<rparr>"
| "run_op Op_left c = c\<lparr>connected := False\<rparr>"
| "run_op (Op_log call) c = c\<lparr>calls := calls c @ [call]\<rparr>"
| "run_op Op_finished c = c\<lparr>worker_thread := Worker_done\<rparr>"

datatype effect =
    New_client | Delete_client | Attach nat | Detach | Client client_op | Read_connected
  | Call_java string "java_value list"

datatype guard = Has_client | Has_service | Has_socket | Has_worker | Has_callback callback

datatype action =
    Lock mutex | Unlock mutex | Do effect | When guard "action list" | Join

fun callback_set :: "callback \<Rightarrow> chat_client \<Rightarrow> bool" where
  "callback_set (Login_callback _ _ _) c = login_callback c"
| "callback_set (Message_callback _ _ _) c = message_callback c"
| "callback_set (Friend_list_callback _ _) c = friend_list_callback c"
| "callback_set (Status_callback _) c = status_callback c"
| "callback_set (Register_callback _ _) c = register_callback c"
| "callback_set (Security_question_callback _ _) c = security_question_callback c"
| "callback_set (Reset_password_callback _) c = reset_password_callback c"
| "callback_set (Version_check_callback _ _ _ _) c = version_check_callback c"

definition of_client :: "(chat_client \<Rightarrow> bool) \<Rightarrow> bridge \<Rightarrow> bool" where
  "of_client P b = (case g_client b of None \<Rightarrow> False | Some c \<Rightarrow> P c)"

fun guard_holds :: "guard \<Rightarrow> bridge \<Rightarrow> bool" where
  "guard_holds Has_client b \<longleftrightarrow> g_client b \<noteq> None"
| "guard_holds Has_service b \<longleftrightarrow> g_jvm b \<and> g_service b \<noteq> None"
| "guard_holds Has_socket b \<longleftrightarrow> of_client (\<lambda>c. socket_fd c \<noteq> - 1) b"
| "guard_holds Has_worker b \<longleftrightarrow> of_client (\<lambda>c. worker_thread c \<noteq> No_worker) b"
| "guard_holds (Has_callback call) b \<longleftrightarrow> of_client (callback_set call) b"

text \<open>The environment a callback gets on the worker: none when attaching fails.\<close>

definition env_usable :: "jvm \<Rightarrow> bool" where
  "env_usable vm = (case get_env vm of
     Env_attached \<Rightarrow> True | Env_detached \<Rightarrow> attach_ok vm | Env_unavailable \<Rightarrow> False)"

fun apply_effect :: "jvm \<Rightarrow> effect \<Rightarrow> bridge \<Rightarrow> bridge" where
  "apply_effect vm New_client b = b\<lparr>g_client := Some (new_client [] 0)\<rparr>"
| "apply_effect vm Delete_client b = b\<lparr>g_client := None\<rparr>"
| "apply_effect vm (Attach service) b = b\<lparr>g_service := Some service\<rparr>"
| "apply_effect vm Detach b = b\<lparr>g_service := None\<rparr>"
| "apply_effect vm (Client op) b = b\<lparr>g_client := map_option (run_op op) (g_client b)\<rparr>"
| "apply_effect vm Read_connected b = b\<lparr>answers := answers b @ [of_client is_connected b]\<rparr>"
| "apply_effect vm (Call_java meth args) b =
     (case g_service b of
        None \<Rightarrow> b
      | Some service \<Rightarrow> if env_usable vm
          then b\<lparr>java_calls := java_calls b @ [(service, meth, args)]\<rparr> else b)"

section \<open>Calling Java\<close>

text \<open>What every \<open>notify_\<close> function does around its call.\<close>

definition call_void_method :: "string \<Rightarrow> java_value list \<Rightarrow> action list" where
  "call_void_method meth args =
     [Lock G_mutex, When Has_service [Do (Call_java meth args)], Unlock G_mutex]"

definition notify_status :: "i32 \<Rightarrow> action list" where
  "notify_status status = call_void_method ''onConnectionStatusChanged'' [Jint status]"

definition notify_login :: "i32 \<Rightarrow> i32 \<Rightarrow> string \<Rightarrow> action list" where
  "notify_login error_code user_id username =
     call_void_method ''onLoginResult'' [Jint error_code, Jint user_id, Jstring (c_str username)]"

definition notify_message :: "i32 \<Rightarrow> string \<Rightarrow> i64 \<Rightarrow> action list" where
  "notify_message from_id content timestamp =
     call_void_method ''onMessageReceived'' [Jint from_id, Jstring (c_str content), Jlong timestamp]"

definition notify_friend_list :: "i32 \<Rightarrow> (i32 \<times> string) list \<Rightarrow> action list" where
  "notify_friend_list error_code friends =
     call_void_method ''onFriendListReceived''
       [Jint error_code, Jints (map fst friends), Jstrings (map (\<lambda>f. c_str (snd f)) friends)]"

definition notify_register :: "i32 \<Rightarrow> i32 \<Rightarrow> action list" where
  "notify_register error_code user_id =
     call_void_method ''onRegisterResult'' [Jint error_code, Jint user_id]"

definition notify_security_question :: "i32 \<Rightarrow> string \<Rightarrow> action list" where
  "notify_security_question error_code question =
     call_void_method ''onSecurityQuestionResult'' [Jint error_code, Jstring (c_str question)]"

definition notify_reset_password :: "i32 \<Rightarrow> action list" where
  "notify_reset_password error_code = call_void_method ''onResetPasswordResult'' [Jint error_code]"

definition notify_version_check :: "i32 \<Rightarrow> i32 \<Rightarrow> string \<Rightarrow> string \<Rightarrow> action list" where
  "notify_version_check error_code server_version url desc =
     call_void_method ''onVersionCheckResult''
       [Jint error_code, Jint server_version, Jstring (c_str url), Jstring (c_str desc)]"

text \<open>The lambda each callback holds.\<close>

fun notify :: "callback \<Rightarrow> action list" where
  "notify (Status_callback s) = notify_status s"
| "notify (Login_callback e u n) = notify_login e u n"
| "notify (Message_callback f t ts) = notify_message f t ts"
| "notify (Friend_list_callback e fs) = notify_friend_list e fs"
| "notify (Register_callback e u) = notify_register e u"
| "notify (Security_question_callback e q) = notify_security_question e q"
| "notify (Reset_password_callback e) = notify_reset_password e"
| "notify (Version_check_callback e v u d) = notify_version_check e v u d"

text \<open>Calling a callback when it is set.\<close>

definition run_callback :: "callback \<Rightarrow> action" where
  "run_callback call = When (Has_callback call) (Do (Client (Op_log call)) # notify call)"

section \<open>The functions Java calls\<close>

definition with_g_mutex :: "action list \<Rightarrow> action list" where
  "with_g_mutex body = Lock G_mutex # body @ [Unlock G_mutex]"

definition with_callback_mutex :: "action list \<Rightarrow> action list" where
  "with_callback_mutex body = Lock Callback_mutex # body @ [Unlock Callback_mutex]"

text \<open>A request that sets its callback takes the client's callback mutex.\<close>

definition request :: "client_op \<Rightarrow> action list" where
  "request op = with_callback_mutex [Do (Client op)]"

definition if_client :: "action list \<Rightarrow> action list" where
  "if_client body = with_g_mutex [When Has_client body]"

text \<open>\<open>ChatClient::disconnect\<close>: it closes the socket and joins a worker that was started.\<close>

definition disconnect_code :: "action list" where
  "disconnect_code =
     [Do (Client Op_stop), When Has_socket [Do (Client Op_close)], When Has_worker [Join, Do (Client Op_joined)], Do (Client Op_disconnected)]"

definition attach_callbacks :: "nat \<Rightarrow> action list" where
  "attach_callbacks service = with_g_mutex [Do (Attach service)]"

definition detach_callbacks :: "action list" where
  "detach_callbacks = with_g_mutex [Do Detach]"

text \<open>A client that \<open>nativeInit\<close> replaces is destroyed, which disconnects it.\<close>

definition native_init :: "nat \<Rightarrow> action list" where
  "native_init thiz = with_g_mutex
     ([When Has_client disconnect_code, Do New_client] @ request Op_set_status @ request Op_set_message
      @ attach_callbacks thiz)"

definition native_connect :: "string \<Rightarrow> i32 \<Rightarrow> action list" where
  "native_connect host port = if_client (disconnect_code @ [Do (Client (Op_start (c_str host) port))])"

definition native_disconnect :: "action list" where
  "native_disconnect = if_client disconnect_code"

definition native_is_connected :: "action list" where
  "native_is_connected = with_g_mutex [Do Read_connected]"

definition native_login :: "string \<Rightarrow> string \<Rightarrow> action list" where
  "native_login username password = if_client (request (Op_login (c_str username) (c_str password)))"

definition native_send_message :: "i32 \<Rightarrow> string \<Rightarrow> action list" where
  "native_send_message to_id content = if_client [Do (Client (Op_send to_id (c_str content)))]"

definition native_get_friend_list :: "action list" where
  "native_get_friend_list = if_client (request Op_friends)"

definition native_add_friend :: "i32 \<Rightarrow> action list" where
  "native_add_friend friend_id = if_client [Do (Client (Op_add friend_id))]"

definition native_register :: "string \<Rightarrow> string \<Rightarrow> string \<Rightarrow> string \<Rightarrow> action list" where
  "native_register username password question answer =
     if_client (request (Op_register (c_str username) (c_str password) (c_str question) (c_str answer)))"

definition native_get_security_question :: "string \<Rightarrow> action list" where
  "native_get_security_question username = if_client (request (Op_question (c_str username)))"

definition native_reset_password :: "string \<Rightarrow> string \<Rightarrow> string \<Rightarrow> action list" where
  "native_reset_password username new_password answer =
     if_client (request (Op_reset (c_str username) (c_str new_password) (c_str answer)))"

definition native_check_version :: "i32 \<Rightarrow> action list" where
  "native_check_version client_version = if_client (request (Op_version client_version))"

definition native_destroy :: "action list" where
  "native_destroy = with_g_mutex
     (detach_callbacks @ [When Has_client (disconnect_code @ [Do Delete_client])])"

datatype native_call =
    Call_init nat | Call_connect string i32 | Call_disconnect | Call_is_connected
  | Call_login string string | Call_send_message i32 string | Call_get_friend_list
  | Call_add_friend i32 | Call_register string string string string
  | Call_get_security_question string | Call_reset_password string string string
  | Call_check_version i32 | Call_destroy

fun native_code :: "native_call \<Rightarrow> action list" where
  "native_code (Call_init s) = native_init s"
| "native_code (Call_connect h p) = native_connect h p"
| "native_code Call_disconnect = native_disconnect"
| "native_code Call_is_connected = native_is_connected"
| "native_code (Call_login u p) = native_login u p"
| "native_code (Call_send_message i t) = native_send_message i t"
| "native_code Call_get_friend_list = native_get_friend_list"
| "native_code (Call_add_friend i) = native_add_friend i"
| "native_code (Call_register u p q a) = native_register u p q a"
| "native_code (Call_get_security_question u) = native_get_security_question u"
| "native_code (Call_reset_password u p a) = native_reset_password u p a"
| "native_code (Call_check_version v) = native_check_version v"
| "native_code Call_destroy = native_destroy"

section \<open>The worker\<close>

text \<open>
  What the worker does at the start of \<open>run\<close>, with a callback a packet calls for, and when the read
  loop ends. A packet's callback runs under the callback mutex, the status callback under none.
\<close>

datatype worker_event = Connects i32 | Fails | Calls callback | Leaves

fun worker_code :: "worker_event \<Rightarrow> action list" where
  "worker_code (Connects fd) =
     [Do (Client (Op_socket fd)), Do (Client Op_connected), run_callback (Status_callback 1)]"
| "worker_code Fails = [run_callback (Status_callback 0), Do (Client Op_finished)]"
| "worker_code (Calls call) = with_callback_mutex [run_callback call]"
| "worker_code Leaves =
     [Do (Client Op_left), run_callback (Status_callback 0), Do (Client Op_finished)]"

text \<open>\<open>run\<close> connects or fails while it is not connected; the read loop runs while it is.\<close>

fun event_possible :: "worker_event \<Rightarrow> chat_client \<Rightarrow> bool" where
  "event_possible (Connects fd) c \<longleftrightarrow> \<not> connected c \<and> 0 \<le> sint fd"
| "event_possible Fails c \<longleftrightarrow> \<not> connected c"
| "event_possible (Calls call) c \<longleftrightarrow> connected c \<and> (\<forall>s. call \<noteq> Status_callback s)"
| "event_possible Leaves c \<longleftrightarrow> connected c"

section \<open>Interleaving\<close>

record phone =
  bridge_of :: bridge
  held :: "mutex \<Rightarrow> thread list"
  code :: "thread \<Rightarrow> action list"

definition put_code :: "thread \<Rightarrow> action list \<Rightarrow> phone \<Rightarrow> phone" where
  "put_code t as p = p\<lparr>code := (code p)(t := as)\<rparr>"

text \<open>Whether a thread can take a mutex: it is free, or \<open>g_mutex\<close> is reentrant and the thread's own.\<close>

definition can_lock :: "bool \<Rightarrow> thread \<Rightarrow> mutex \<Rightarrow> phone \<Rightarrow> bool" where
  "can_lock reentrant t m p \<longleftrightarrow>
     held p m = [] \<or> (reentrant \<and> m = G_mutex \<and> hd (held p m) = t)"

definition worker_ended :: "phone \<Rightarrow> bool" where
  "worker_ended p \<longleftrightarrow> code p Worker_thread = [] \<and>
     \<not> of_client (\<lambda>c. worker_thread c = Worker_running) (bridge_of p)"

fun do_action :: "bool \<Rightarrow> jvm \<Rightarrow> thread \<Rightarrow> phone \<Rightarrow> phone option" where
  "do_action reentrant vm t p =
     (case code p t of
        [] \<Rightarrow> None
      | Lock m # rest \<Rightarrow>
          if can_lock reentrant t m p
          then Some (put_code t rest (p\<lparr>held := (held p)(m := t # held p m)\<rparr>)) else None
      | Unlock m # rest \<Rightarrow> Some (put_code t rest (p\<lparr>held := (held p)(m := tl (held p m))\<rparr>))
      | Do e # rest \<Rightarrow> Some (put_code t rest (p\<lparr>bridge_of := apply_effect vm e (bridge_of p)\<rparr>))
      | When g as # rest \<Rightarrow> Some (put_code t (if guard_holds g (bridge_of p) then as @ rest else rest) p)
      | Join # rest \<Rightarrow> if worker_ended p then Some (put_code t rest p) else None)"

inductive phone_step :: "bool \<Rightarrow> jvm \<Rightarrow> phone \<Rightarrow> phone \<Rightarrow> bool" for reentrant :: bool and vm :: jvm where
  acts: "do_action reentrant vm t p = Some p' \<Longrightarrow> phone_step reentrant vm p p'"
| calls: "code p Service_thread = [] \<Longrightarrow>
     phone_step reentrant vm p (put_code Service_thread (native_code call) p)"
| works: "code p Worker_thread = [] \<Longrightarrow> g_client (bridge_of p) = Some c \<Longrightarrow>
     worker_thread c = Worker_running \<Longrightarrow> event_possible ev c \<Longrightarrow>
     phone_step reentrant vm p (put_code Worker_thread (worker_code ev) p)"

text \<open>After \<open>JNI_OnLoad\<close>.\<close>

definition loaded :: phone where
  "loaded = \<lparr>bridge_of = \<lparr>g_client = None, g_jvm = True, g_service = None, java_calls = [], answers = []\<rparr>,
     held = (\<lambda>_. []), code = (\<lambda>_. [])\<rparr>"

definition phone_reachable :: "bool \<Rightarrow> jvm \<Rightarrow> phone \<Rightarrow> bool" where
  "phone_reachable reentrant vm p \<longleftrightarrow> (phone_step reentrant vm)\<^sup>*\<^sup>* loaded p"

section \<open>Code that waits at a lock\<close>

text \<open>
  \<open>walled E K W u as\<close>: a thread that runs \<open>as\<close> performs no effect of \<open>E\<close> before it waits for \<open>g_mutex\<close>.
  \<open>u\<close> says whether the thread holds \<open>g_mutex\<close>, so that locking it waits, \<open>W\<close> whether another one does,
  and \<open>K\<close> what is known of a guard. It also unlocks only what it holds.
\<close>

function walled :: "(effect \<Rightarrow> bool) \<Rightarrow> (guard \<Rightarrow> bool option) \<Rightarrow> bool \<Rightarrow> bool \<Rightarrow> action list \<Rightarrow> bool" where
  "walled E K W u [] \<longleftrightarrow> \<not> u"
| "walled E K W u (Lock m # r) \<longleftrightarrow>
     (if m = G_mutex then u \<or> W \<or> walled E K W True r else walled E K W u r)"
| "walled E K W u (Unlock m # r) \<longleftrightarrow>
     (if m = G_mutex then u \<and> walled E K W False r else walled E K W u r)"
| "walled E K W u (Do e # r) \<longleftrightarrow> \<not> E e \<and> walled E K W u r"
| "walled E K W u (When g as # r) \<longleftrightarrow>
     (K g \<noteq> Some False \<longrightarrow> walled E K W u (as @ r)) \<and> (K g \<noteq> Some True \<longrightarrow> walled E K W u r)"
| "walled E K W u (Join # r) \<longleftrightarrow> walled E K W u r"
  by pat_completeness auto
termination
  by (relation "measure (\<lambda>(E, K, W, u, as). size_list size as)") auto

lemma notify_cases:
  obtains meth args where "notify call = call_void_method meth args"
  by (cases call) (simp_all add: notify_status_def notify_login_def notify_message_def
      notify_friend_list_def notify_register_def notify_security_question_def
      notify_reset_password_def notify_version_check_def)

lemma walled_notify:
  assumes "\<not> E (Client (Op_log call))" and "\<And>m as. \<not> E (Call_java m as)" and "walled E K W False r"
  shows "walled E K W False (run_callback call # r)"
  using assms by (cases call rule: notify_cases) (simp add: run_callback_def call_void_method_def)

lemmas native_defs = native_init_def native_connect_def native_disconnect_def native_is_connected_def
  native_login_def native_send_message_def native_get_friend_list_def native_add_friend_def
  native_register_def native_get_security_question_def native_reset_password_def
  native_check_version_def native_destroy_def if_client_def with_g_mutex_def with_callback_mutex_def
  request_def disconnect_code_def attach_callbacks_def detach_callbacks_def

definition is_attach :: "effect \<Rightarrow> bool" where
  "is_attach e \<longleftrightarrow> (\<exists>s. e = Attach s)"

definition nothing_known :: "guard \<Rightarrow> bool option" where
  "nothing_known g = None"

lemma walled_native: "walled is_attach nothing_known False False (native_code call)"
  by (cases call) (simp_all add: native_defs is_attach_def)

lemma walled_worker: "walled is_attach nothing_known False False (worker_code ev)"
  by (cases ev) (auto simp: with_callback_mutex_def is_attach_def intro!: walled_notify)

section \<open>The program as it is\<close>

definition never_attached :: "phone \<Rightarrow> bool" where
  "never_attached p \<longleftrightarrow> g_service (bridge_of p) = None \<and> java_calls (bridge_of p) = [] \<and>
     length (held p G_mutex) \<le> 1 \<and>
     (\<forall>t. walled is_attach nothing_known False (held p G_mutex = [t]) (code p t))"

lemma put_code_sel [simp]:
  "bridge_of (put_code t as p) = bridge_of p" "held (put_code t as p) = held p"
  "code (put_code t as p) t' = (if t' = t then as else code p t')"
  by (simp_all add: put_code_def)

lemma never_attached_step:
  assumes "phone_step False vm p p'" and "never_attached p" shows "never_attached p'"
proof -
  have w: "walled is_attach nothing_known False (held p G_mutex = [t]) (code p t)" for t
    using assms(2) by (simp add: never_attached_def)
  show ?thesis
    using assms(1)
  proof (cases rule: phone_step.cases)
    case (acts t)
    obtain a rest where code: "code p t = a # rest" using acts by (cases "code p t") auto
    show ?thesis
    proof (cases a)
      case (Lock m)
      then have "held p m = []" "p' = put_code t rest (p\<lparr>held := (held p)(m := [t])\<rparr>)"
        using acts code by (auto simp: can_lock_def split: if_splits)
      then show ?thesis
        using assms(2) w [of t] code Lock by (auto simp: never_attached_def)
    next
      case (Unlock m)
      then have p': "p' = put_code t rest (p\<lparr>held := (held p)(m := tl (held p m))\<rparr>)"
        using acts code by simp
      show ?thesis
      proof (cases "m = G_mutex")
        case True
        then have h: "held p G_mutex = [t]" using w [of t] code Unlock by simp
        have "walled is_attach nothing_known False False (code p t')" if "t' \<noteq> t" for t'
          using w [of t'] that h by simp
        then show ?thesis
          using assms(2) w [of t] code Unlock True p' h by (auto simp: never_attached_def)
      next
        case False
        then show ?thesis using assms(2) w [of t] code Unlock p' by (auto simp: never_attached_def)
      qed
    next
      case (Do e)
      then have p': "p' = put_code t rest (p\<lparr>bridge_of := apply_effect vm e (bridge_of p)\<rparr>)"
        using acts code by simp
      have "\<not> is_attach e" using w [of t] code Do by simp
      then have "g_service (apply_effect vm e (bridge_of p)) = None \<and> java_calls (apply_effect vm e (bridge_of p)) = []"
        using assms(2) by (cases e) (auto simp: never_attached_def is_attach_def)
      then show ?thesis using assms(2) w [of t] code Do p' by (auto simp: never_attached_def)
    next
      case (When g as)
      then show ?thesis
        using acts code assms(2) w [of t] by (auto simp: never_attached_def nothing_known_def)
    next
      case Join
      then show ?thesis
        using acts code assms(2) w [of t] by (auto simp: never_attached_def split: if_splits)
    qed
  next
    case (calls call)
    then have "held p G_mutex \<noteq> [Service_thread]" using w [of Service_thread] by simp
    then show ?thesis using assms(2) calls walled_native [of call] by (auto simp: never_attached_def)
  next
    case (works c ev)
    then have "held p G_mutex \<noteq> [Worker_thread]" using w [of Worker_thread] by simp
    then show ?thesis using assms(2) works walled_worker [of ev] by (auto simp: never_attached_def)
  qed
qed

lemma reachable_never_attached:
  assumes "phone_reachable False vm p" shows "never_attached p"
  using assms unfolding phone_reachable_def
proof (induction rule: rtranclp_induct)
  case base
  show ?case by (simp add: never_attached_def loaded_def)
next
  case (step p p')
  then show ?case by (blast intro: never_attached_step)
qed

lemma attach_stays:
  assumes "phone_step False vm p p'" and "never_attached p" and "Do (Attach s) \<in> set (code p Service_thread)"
  shows "Do (Attach s) \<in> set (code p' Service_thread)"
  using assms(1)
proof (cases rule: phone_step.cases)
  case (acts t)
  have w: "walled is_attach nothing_known False (held p G_mutex = [Service_thread]) (code p Service_thread)"
    using assms(2) by (simp add: never_attached_def)
  obtain a rest where code: "code p t = a # rest" using acts by (cases "code p t") auto
  have "a \<noteq> Do (Attach s)" if "t = Service_thread" using w code that by (auto simp: is_attach_def)
  then show ?thesis
    using acts code assms(3) by (cases a) (auto split: if_splits)
qed (use assms(3) in auto)

text \<open>
  C29. \<open>nativeInit\<close> never returns: it holds \<open>g_mutex\<close> when \<open>attach_callbacks\<close> locks it again. So
  whatever Java calls and whatever the worker does, the service object is never attached, Java is
  never called back, and a call of \<open>nativeInit\<close> is never over.
\<close>

theorem native_init_hangs:
  assumes "phone_reachable False vm p" and "code p Service_thread = []"
  shows "g_service (bridge_of p) = None \<and> java_calls (bridge_of p) = [] \<and>
    (\<forall>p'. (phone_step False vm)\<^sup>*\<^sup>* (put_code Service_thread (native_init thiz) p) p' \<longrightarrow>
       code p' Service_thread \<noteq> [] \<and> java_calls (bridge_of p') = [])"
proof -
  let ?p = "put_code Service_thread (native_init thiz) p"
  note inv = reachable_never_attached [OF assms(1)]
  have "phone_step False vm p ?p"
    using phone_step.calls [OF assms(2), of False vm "Call_init thiz"] by simp
  from never_attached_step [OF this inv] have start: "never_attached ?p" .
  have "never_attached p' \<and> Do (Attach thiz) \<in> set (code p' Service_thread)"
    if "(phone_step False vm)\<^sup>*\<^sup>* ?p p'" for p'
    using that
  proof (induction rule: rtranclp_induct)
    case base
    show ?case using start by (simp add: native_defs)
  next
    case (step p1 p2)
    then show ?case using never_attached_step attach_stays by blast
  qed
  then have "code p' Service_thread \<noteq> [] \<and> java_calls (bridge_of p') = []"
    if "(phone_step False vm)\<^sup>*\<^sup>* ?p p'" for p'
    using that by (fastforce simp: never_attached_def)
  then show ?thesis using inv by (simp add: never_attached_def)
qed

section \<open>Runs of one thread\<close>

fun run_thread :: "bool \<Rightarrow> jvm \<Rightarrow> thread \<Rightarrow> nat \<Rightarrow> phone \<Rightarrow> phone" where
  "run_thread re vm t 0 p = p"
| "run_thread re vm t (Suc n) p =
     (case do_action re vm t p of None \<Rightarrow> p | Some p' \<Rightarrow> run_thread re vm t n p')"

lemma run_thread_steps: "(phone_step re vm)\<^sup>*\<^sup>* p (run_thread re vm t n p)"
  by (induction re vm t n p rule: run_thread.induct)
    (auto simp del: do_action.simps split: option.split intro: phone_step.acts converse_rtranclp_into_rtranclp)

definition usual_vm :: jvm where
  "usual_vm = \<lparr>get_env = Env_detached, attach_ok = True\<rparr>"

lemmas run_thread_simps = native_defs can_lock_def worker_ended_def of_client_def put_code_def
  numeral_eq_Suc

theorem native_init_hangs_witness:
  "\<exists>p'. (phone_step False usual_vm)\<^sup>*\<^sup>* (put_code Service_thread (native_init 7) loaded) p' \<and>
     do_action False usual_vm Service_thread p' = None \<and> code p' Service_thread \<noteq> []"
proof -
  let ?p = "put_code Service_thread (native_init 7) loaded"
  let ?p' = "run_thread False usual_vm Service_thread 9 ?p"
  have steps: "(phone_step False usual_vm)\<^sup>*\<^sup>* ?p ?p'" by (rule run_thread_steps)
  have "phone_reachable False usual_vm loaded" by (simp add: phone_reachable_def)
  then have "code ?p' Service_thread \<noteq> []"
    using native_init_hangs [of usual_vm loaded 7] steps by (simp add: loaded_def)
  moreover have "do_action False usual_vm Service_thread ?p' = None"
    by (simp add: loaded_def run_thread_simps)
  ultimately show ?thesis using steps by blast
qed

section \<open>With a reentrant mutex\<close>

text \<open>A client in a session, with both threads idle and no lock taken.\<close>

definition in_session :: "chat_client \<Rightarrow> nat \<Rightarrow> phone \<Rightarrow> bool" where
  "in_session c service p \<longleftrightarrow> code p Service_thread = [] \<and> code p Worker_thread = [] \<and>
     held p G_mutex = [] \<and> held p Callback_mutex = [] \<and> g_client (bridge_of p) = Some c \<and>
     g_jvm (bridge_of p) \<and> g_service (bridge_of p) = Some service \<and> worker_thread c = Worker_running \<and>
     connected c \<and> status_callback c \<and> message_callback c"

lemma reachable_trans:
  "phone_reachable re vm p \<Longrightarrow> (phone_step re vm)\<^sup>*\<^sup>* p p' \<Longrightarrow> phone_reachable re vm p'"
  unfolding phone_reachable_def by (rule rtranclp_trans)

lemma reachable_run:
  "phone_reachable re vm p \<Longrightarrow> phone_reachable re vm (run_thread re vm t n p)"
  by (rule reachable_trans, assumption, rule run_thread_steps)

lemma reachable_call:
  "phone_reachable re vm p \<Longrightarrow> code p Service_thread = [] \<Longrightarrow>
     phone_reachable re vm (put_code Service_thread (native_code call) p)"
  by (rule reachable_trans, assumption, rule r_into_rtranclp, rule phone_step.calls)

lemma reachable_work:
  "phone_reachable re vm p \<Longrightarrow> code p Worker_thread = [] \<Longrightarrow> g_client (bridge_of p) = Some c \<Longrightarrow>
     worker_thread c = Worker_running \<Longrightarrow> event_possible ev c \<Longrightarrow>
     phone_reachable re vm (put_code Worker_thread (worker_code ev) p)"
  by (rule reachable_trans, assumption, rule r_into_rtranclp, rule phone_step.works)

lemma session_reachable:
  "\<exists>p c. phone_reachable True vm p \<and> in_session c 7 p"
proof -
  let ?run = "run_thread True vm"
  let ?p1 = "?run Service_thread 14 (put_code Service_thread (native_code (Call_init 7)) loaded)"
  let ?p2 = "?run Service_thread 8 (put_code Service_thread (native_code (Call_connect ''h'' 1)) ?p1)"
  let ?p3 = "?run Worker_thread 8 (put_code Worker_thread (worker_code (Connects 5)) ?p2)"
  define c1 where "c1 = (new_client [] 0)\<lparr>status_callback := True, message_callback := True\<rparr>"
  define c2 where "c2 = c1\<lparr>cc_host := ''h'', cc_port := 1, running := True, worker_thread := Worker_running\<rparr>"
  have "phone_reachable True vm loaded" by (simp add: phone_reachable_def)
  then have 1: "phone_reachable True vm ?p1"
    by (intro reachable_run reachable_call) (simp_all add: loaded_def)
  have p1: "code ?p1 Service_thread = []" "code ?p1 Worker_thread = []" "held ?p1 G_mutex = []"
    "held ?p1 Callback_mutex = []" "g_client (bridge_of ?p1) = Some c1" "g_jvm (bridge_of ?p1)"
    "g_service (bridge_of ?p1) = Some 7"
    by (simp_all add: loaded_def run_thread_simps set_status_callback_def set_message_callback_def c1_def)
  obtain q where q: "q = ?p1" by blast
  have 2: "phone_reachable True vm ?p2"
    by (intro reachable_run reachable_call 1 p1)
  have no_worker: "worker_thread c1 = No_worker" "socket_fd c1 = - 1" by (simp_all add: c1_def new_client_def)
  have p2: "code ?p2 Service_thread = []" "code ?p2 Worker_thread = []" "held ?p2 G_mutex = []"
    "held ?p2 Callback_mutex = []" "g_jvm (bridge_of ?p2)" "g_service (bridge_of ?p2) = Some 7"
    "g_client (bridge_of ?p2) = Some (c2\<lparr>running := True, socket_fd := - 1, connected := False\<rparr>)"
    using p1 no_worker unfolding q [symmetric]
    by (simp_all add: run_thread_simps c_str_def c2_def)
  define c3 where "c3 = c2\<lparr>running := True, socket_fd := - 1, connected := False\<rparr>"
  have c3: "worker_thread c3 = Worker_running" "\<not> connected c3" "status_callback c3" "message_callback c3"
    by (simp_all add: c3_def c2_def c1_def)
  have p2': "g_client (bridge_of ?p2) = Some c3" using p2(7) by (simp add: c3_def)
  have 3: "phone_reachable True vm ?p3"
    by (intro reachable_run reachable_work [OF 2 p2(2) p2' c3(1)]) (simp add: c3)
  define c4 where "c4 = c3\<lparr>socket_fd := 5, connected := True, calls := calls c3 @ [Status_callback 1]\<rparr>"
  obtain q2 where q2: "q2 = ?p2" by blast
  have p3: "code ?p3 Service_thread = []" "code ?p3 Worker_thread = []" "held ?p3 G_mutex = []"
    "held ?p3 Callback_mutex = []" "g_jvm (bridge_of ?p3)" "g_service (bridge_of ?p3) = Some 7"
    "g_client (bridge_of ?p3) = Some c4"
    using p2 p2' c3 unfolding q2 [symmetric]
    by (simp_all add: run_thread_simps run_callback_def notify_status_def call_void_method_def c4_def)
  have "worker_thread c4 = Worker_running" "connected c4" "status_callback c4" "message_callback c4"
    using c3 by (simp_all add: c4_def)
  then show ?thesis using 3 p3 by (intro exI [of _ ?p3] exI [of _ c4]) (simp add: in_session_def)
qed

text \<open>The effects of the worker that leave its being joined, and the callbacks, as they are.\<close>

fun passing :: "effect \<Rightarrow> bool" where
  "passing (Client (Op_socket _)) = True"
| "passing (Client Op_connected) = True"
| "passing (Client Op_left) = True"
| "passing (Client (Op_log _)) = True"
| "passing (Call_java _ _) = True"
| "passing _ = False"

fun status_is_set :: "guard \<Rightarrow> bool option" where
  "status_is_set (Has_callback (Status_callback _)) = Some True"
| "status_is_set _ = None"

definition joining :: "action list \<Rightarrow> phone \<Rightarrow> bool" where
  "joining rest p \<longleftrightarrow> code p Service_thread = Join # rest \<and> (\<exists>ts. held p G_mutex = Service_thread # ts) \<and>
     of_client (\<lambda>c. worker_thread c = Worker_running \<and> status_callback c) (bridge_of p) \<and>
     walled (\<lambda>e. \<not> passing e) status_is_set True False (code p Worker_thread)"

lemma walled_notify_taken: "walled E K True False (notify call @ r)"
  by (cases call rule: notify_cases) (simp add: call_void_method_def)

lemma walled_worker_joined: "walled (\<lambda>e. \<not> passing e) status_is_set True False (worker_code ev)"
  by (cases ev) (simp_all add: with_callback_mutex_def run_callback_def call_void_method_def
      notify_status_def walled_notify_taken)

lemma joining_step:
  assumes "phone_step re vm p p'" and "joining rest p" shows "joining rest p'"
  using assms(1)
proof (cases rule: phone_step.cases)
  case (acts t)
  obtain c where c: "g_client (bridge_of p) = Some c" "worker_thread c = Worker_running" "status_callback c"
    using assms(2) by (auto simp: joining_def of_client_def split: option.splits)
  have "t = Worker_thread"
  proof (cases t)
    case Service_thread
    then show ?thesis
      using acts assms(2) c by (auto simp: joining_def worker_ended_def of_client_def split: if_splits)
  qed
  note w = assms(2) [unfolded joining_def]
  obtain a as where code: "code p Worker_thread = a # as"
    using acts \<open>t = Worker_thread\<close> by (cases "code p Worker_thread") auto
  show ?thesis
  proof (cases a)
    case (Do e)
    then have "passing e" and p': "p' = put_code Worker_thread as (p\<lparr>bridge_of := apply_effect vm e (bridge_of p)\<rparr>)"
      using acts code w \<open>t = Worker_thread\<close> by auto
    then have "of_client (\<lambda>c. worker_thread c = Worker_running \<and> status_callback c) (apply_effect vm e (bridge_of p))"
      using c by (cases e rule: passing.cases) (auto simp: of_client_def split: option.split)
    then show ?thesis using Do p' code w by (auto simp: joining_def)
  next
    case (When g bs)
    have "guard_holds g (bridge_of p) = b" if "status_is_set g = Some b" for b
      using that c by (cases g rule: status_is_set.cases) (auto simp: of_client_def)
    then show ?thesis
      using acts code w When \<open>t = Worker_thread\<close> by (cases "guard_holds g (bridge_of p)") (auto simp: joining_def)
  qed (use acts code w \<open>t = Worker_thread\<close> in \<open>auto simp: joining_def can_lock_def split: if_splits\<close>)
next
  case (calls call)
  then show ?thesis using assms(2) by (simp add: joining_def)
next
  case (works c ev)
  then show ?thesis using assms(2) walled_worker_joined [of ev] by (simp add: joining_def)
qed

lemma joining_waits: "joining rest p \<Longrightarrow> code p Service_thread \<noteq> [] \<and> \<not> worker_ended p"
  by (auto simp: joining_def worker_ended_def of_client_def split: option.splits)

text \<open>Two ways to lose both threads, from any state in a session.\<close>

lemma disconnect_joins:
  assumes "in_session c s p"
  shows "\<exists>p1 rest. (phone_step re vm)\<^sup>*\<^sup>* p p1 \<and> joining rest p1"
proof -
  let ?p = "put_code Service_thread (native_code Call_disconnect) p"
  let ?p1 = "run_thread re vm Service_thread (if socket_fd c = - 1 then 5 else 6) ?p"
  have "(phone_step re vm)\<^sup>*\<^sup>* p ?p1"
    by (rule converse_rtranclp_into_rtranclp [OF phone_step.calls run_thread_steps])
      (use assms in \<open>simp add: in_session_def\<close>)
  moreover have "\<exists>rest. joining rest ?p1"
    using assms by (simp add: run_thread_simps joining_def in_session_def)
  ultimately show ?thesis by blast
qed

lemma request_and_message_deadlock:
  assumes "in_session c s p"
  shows "\<exists>p1. (phone_step re vm)\<^sup>*\<^sup>* p p1 \<and> \<not> (\<exists>p'. phone_step re vm p1 p')"
proof -
  let ?q = "run_thread re vm Service_thread 2 (put_code Service_thread (native_code (Call_login [] [])) p)"
  let ?call = "Message_callback 3 ''hi'' 9"
  let ?p1 = "run_thread re vm Worker_thread 4 (put_code Worker_thread (worker_code (Calls ?call)) ?q)"
  note s = assms [unfolded in_session_def]
  have "(phone_step re vm)\<^sup>*\<^sup>* p ?q"
    by (rule converse_rtranclp_into_rtranclp [OF phone_step.calls run_thread_steps]) (use s in simp)
  moreover have q: "code ?q Service_thread = Lock Callback_mutex # tl (code ?q Service_thread)"
    "code ?q Worker_thread = []" "held ?q G_mutex = [Service_thread]" "held ?q Callback_mutex = []"
    "bridge_of ?q = bridge_of p"
    using s by (simp_all add: run_thread_simps)
  moreover obtain q where "q = ?q" by blast
  ultimately have q: "(phone_step re vm)\<^sup>*\<^sup>* p q" "code q Service_thread = Lock Callback_mutex # tl (code q Service_thread)"
    "code q Worker_thread = []" "held q G_mutex = [Service_thread]" "held q Callback_mutex = []"
    "bridge_of q = bridge_of p" by simp_all
  let ?p1 = "run_thread re vm Worker_thread 4 (put_code Worker_thread (worker_code (Calls ?call)) q)"
  have "phone_step re vm q (put_code Worker_thread (worker_code (Calls ?call)) q)"
    by (rule phone_step.works [where c = c]) (use s q in simp_all)
  then have "(phone_step re vm)\<^sup>*\<^sup>* p ?p1"
    using q(1) run_thread_steps by (meson rtranclp.rtrancl_into_rtrancl rtranclp_trans)
  moreover have p1: "code ?p1 Service_thread = Lock Callback_mutex # tl (code q Service_thread)"
    "\<exists>r. code ?p1 Worker_thread = Lock G_mutex # r" "held ?p1 G_mutex = [Service_thread]"
    "held ?p1 Callback_mutex = [Worker_thread]"
    using s q by (simp_all add: run_thread_simps run_callback_def notify_message_def call_void_method_def)
  have "\<not> phone_step re vm ?p1 p'" for p'
  proof
    obtain p1 where "p1 = ?p1" by blast
    note p1 = p1 [folded this]
    assume "phone_step re vm ?p1 p'"
    then have "phone_step re vm p1 p'" by (simp only: \<open>p1 = ?p1\<close>)
    then show False
    proof (cases rule: phone_step.cases)
      case (acts t)
      then show ?thesis using p1 by (cases t) (auto simp: can_lock_def)
    qed (use p1 in auto)
  qed
  ultimately show ?thesis by blast
qed

text \<open>
  C30. With a recursive \<open>g_mutex\<close> the bridge would still lose its threads. \<open>nativeDisconnect\<close> waits for
  the worker with \<open>g_mutex\<close> held while the worker, before it ends, needs \<open>g_mutex\<close> to report the lost
  connection: from a state the app reaches, no continuation lets the call return. And a request
  takes \<open>g_mutex\<close> and then the callback mutex while a packet takes them the other way round: from
  such a state a request and a message reach a state in which nothing can happen any more.
\<close>

theorem bridge_deadlocks:
  "\<exists>p1 p2. phone_reachable True vm p1 \<and>
     {p'. (phone_step True vm)\<^sup>*\<^sup>* p1 p'} \<subseteq> {p'. code p' Service_thread \<noteq> [] \<and> \<not> worker_ended p'} \<and>
     phone_reachable True vm p2 \<and> {p'. phone_step True vm p2 p'} = {}"
proof -
  obtain p c where p: "phone_reachable True vm p" "in_session c 7 p"
    using session_reachable by blast
  obtain p1 rest where p1: "(phone_step True vm)\<^sup>*\<^sup>* p p1" "joining rest p1"
    using disconnect_joins [OF p(2)] by blast
  have "joining rest p'" if "(phone_step True vm)\<^sup>*\<^sup>* p1 p'" for p'
    using that by (induction rule: rtranclp_induct) (auto intro: p1(2) joining_step)
  then have "{p'. (phone_step True vm)\<^sup>*\<^sup>* p1 p'} \<subseteq> {p'. code p' Service_thread \<noteq> [] \<and> \<not> worker_ended p'}"
    using joining_waits by blast
  moreover obtain p2 where "(phone_step True vm)\<^sup>*\<^sup>* p p2" "\<not> (\<exists>p'. phone_step True vm p2 p')"
    using request_and_message_deadlock [OF p(2)] by blast
  ultimately show ?thesis using p(1) p1(1) reachable_trans by blast
qed

section \<open>What reaches Java\<close>

text \<open>The call a callback makes, and what a packet does to the client.\<close>

definition java_call :: "callback \<Rightarrow> string \<times> java_value list" where
  "java_call call = (case call of
     Status_callback s \<Rightarrow> (''onConnectionStatusChanged'', [Jint s])
   | Login_callback e u n \<Rightarrow> (''onLoginResult'', [Jint e, Jint u, Jstring (c_str n)])
   | Message_callback f t ts \<Rightarrow> (''onMessageReceived'', [Jint f, Jstring (c_str t), Jlong ts])
   | Friend_list_callback e fs \<Rightarrow>
       (''onFriendListReceived'', [Jint e, Jints (map fst fs), Jstrings (map (\<lambda>f. c_str (snd f)) fs)])
   | Register_callback e u \<Rightarrow> (''onRegisterResult'', [Jint e, Jint u])
   | Security_question_callback e q \<Rightarrow> (''onSecurityQuestionResult'', [Jint e, Jstring (c_str q)])
   | Reset_password_callback e \<Rightarrow> (''onResetPasswordResult'', [Jint e])
   | Version_check_callback e v u d \<Rightarrow>
       (''onVersionCheckResult'', [Jint e, Jint v, Jstring (c_str u), Jstring (c_str d)]))"

lemma notify_java_call: "notify call = call_void_method (fst (java_call call)) (snd (java_call call))"
  by (cases call) (simp_all add: java_call_def notify_status_def notify_login_def notify_message_def
      notify_friend_list_def notify_register_def notify_security_question_def
      notify_reset_password_def notify_version_check_def)

text \<open>The callback a worker's event is reported by, and what the event leaves of the client.\<close>

fun event_callback :: "worker_event \<Rightarrow> callback" where
  "event_callback (Connects fd) = Status_callback 1"
| "event_callback Fails = Status_callback 0"
| "event_callback (Calls call) = call"
| "event_callback Leaves = Status_callback 0"

fun event_client :: "worker_event \<Rightarrow> chat_client \<Rightarrow> chat_client" where
  "event_client (Connects fd) c =
     c\<lparr>socket_fd := fd, connected := True, calls := calls c @ [Status_callback 1]\<rparr>"
| "event_client Fails c = c\<lparr>calls := calls c @ [Status_callback 0], worker_thread := Worker_done\<rparr>"
| "event_client (Calls call) c = c\<lparr>calls := calls c @ [call]\<rparr>"
| "event_client Leaves c =
     c\<lparr>connected := False, calls := calls c @ [Status_callback 0], worker_thread := Worker_done\<rparr>"

text \<open>A packet leaves the client alone or is an event of the worker.\<close>

definition packet_event :: "chat_client \<Rightarrow> chat_client \<Rightarrow> bool" where
  "packet_event c c' \<longleftrightarrow> c' = c \<or> (\<exists>call. callback_set call c \<and> (\<forall>s. call \<noteq> Status_callback s) \<and>
     c' = event_client (Calls call) c)"

lemma packet_event_invoke:
  assumes "\<forall>s. call \<noteq> Status_callback s" and "is_set = callback_set call c"
  shows "packet_event c (invoke is_set call c)"
  using assms by (cases is_set) (auto simp: packet_event_def invoke_def intro!: disjI2 exI [of _ call])

lemma packet_calls:
  assumes "handle_packet c packet = Some c'" shows "packet_event c c'"
proof -
  have "packet_event c c" by (simp add: packet_event_def)
  then have "packet_event c c'" if "dispatch cmd d c = Some c'" for cmd d
    using that by (cases cmd) (auto simp: dispatch_def Let_def intro!: packet_event_invoke
        split: bind_splits decoded.splits)
  then show ?thesis using assms by (auto simp: handle_packet_def packet_event_def split: bind_splits decoded.splits)
qed

lemma worker_runs_callback:
  assumes "code p Worker_thread = run_callback call # rest" and "of_client (callback_set call) (bridge_of p)"
    and "held p G_mutex = []" and "guard_holds Has_service (bridge_of p)" and "env_usable vm"
  shows "\<exists>p'. (phone_step re vm)\<^sup>*\<^sup>* p p' \<and> code p' = (code p)(Worker_thread := rest) \<and> held p' = held p \<and>
    bridge_of p' = (bridge_of p)\<lparr>g_client := map_option (run_op (Op_log call)) (g_client (bridge_of p)),
      java_calls := java_calls (bridge_of p) @ [(the (g_service (bridge_of p)), java_call call)]\<rparr>"
proof -
  let ?p' = "run_thread re vm Worker_thread 6 p"
  obtain s where s: "g_service (bridge_of p) = Some s" using assms(4) by auto
  have "code ?p' = (code p)(Worker_thread := rest) \<and> held ?p' = held p \<and>
    bridge_of ?p' = (bridge_of p)\<lparr>g_client := map_option (run_op (Op_log call)) (g_client (bridge_of p)),
      java_calls := java_calls (bridge_of p) @ [(s, java_call call)]\<rparr>"
    using assms s by (simp add: run_callback_def notify_java_call call_void_method_def run_thread_simps
        fun_upd_idem)
  then show ?thesis using run_thread_steps s by fastforce
qed

text \<open>The worker idle in a session of the attached service, with both mutexes free.\<close>

definition worker_idle :: "chat_client \<Rightarrow> nat \<Rightarrow> phone \<Rightarrow> bool" where
  "worker_idle c service p \<longleftrightarrow> code p Worker_thread = [] \<and> held p G_mutex = [] \<and> held p Callback_mutex = [] \<and>
     g_client (bridge_of p) = Some c \<and> g_jvm (bridge_of p) \<and> g_service (bridge_of p) = Some service \<and>
     worker_thread c = Worker_running"

text \<open>The worker's code of an event: what comes before the callback, the callback, what comes after.\<close>

fun event_before :: "worker_event \<Rightarrow> action list" where
  "event_before (Connects fd) = [Do (Client (Op_socket fd)), Do (Client Op_connected)]"
| "event_before Fails = []"
| "event_before (Calls call) = [Lock Callback_mutex]"
| "event_before Leaves = [Do (Client Op_left)]"

fun event_after :: "worker_event \<Rightarrow> action list" where
  "event_after (Connects fd) = []"
| "event_after Fails = [Do (Client Op_finished)]"
| "event_after (Calls call) = [Unlock Callback_mutex]"
| "event_after Leaves = [Do (Client Op_finished)]"

lemma worker_code_parts:
  "worker_code ev = event_before ev @ run_callback (event_callback ev) # event_after ev"
  by (cases ev) (simp_all add: with_callback_mutex_def)

lemma worker_event_runs:
  assumes "worker_idle c service p" and "env_usable vm" and "event_possible ev c"
    and "callback_set (event_callback ev) c"
  shows "\<exists>p'. (phone_step re vm)\<^sup>*\<^sup>* p p' \<and> held p' = held p \<and> code p' = code p \<and>
    g_client (bridge_of p') = Some (event_client ev c) \<and>
    java_calls (bridge_of p') = java_calls (bridge_of p) @ [(service, java_call (event_callback ev))]"
proof -
  note s = assms(1) [unfolded worker_idle_def]
  let ?call = "event_callback ev"
  let ?p0 = "put_code Worker_thread (worker_code ev) p"
  let ?p1 = "run_thread re vm Worker_thread (length (event_before ev)) ?p0"
  have "phone_step re vm p ?p0" by (rule phone_step.works [where c = c]) (use s assms(3) in simp_all)
  then have 1: "(phone_step re vm)\<^sup>*\<^sup>* p ?p1" using run_thread_steps by (rule converse_rtranclp_into_rtranclp)
  define c1 where "c1 = (case ev of Connects fd \<Rightarrow> c\<lparr>socket_fd := fd, connected := True\<rparr>
    | Leaves \<Rightarrow> c\<lparr>connected := False\<rparr> | _ \<Rightarrow> c)"
  have p1: "code ?p1 = (code p)(Worker_thread := run_callback ?call # event_after ev)"
    "held ?p1 = (case ev of Calls call \<Rightarrow> (held p)(Callback_mutex := [Worker_thread]) | _ \<Rightarrow> held p)"
    "bridge_of ?p1 = (bridge_of p)\<lparr>g_client := Some c1\<rparr>"
    using s unfolding worker_code_parts c1_def
    by (cases ev; simp add: can_lock_def put_code_def fun_eq_iff)+
  have set1: "callback_set ?call c1" using assms(4) by (cases ev; cases ?call) (auto simp: c1_def)
  have "\<exists>p'. (phone_step re vm)\<^sup>*\<^sup>* ?p1 p' \<and> code p' = (code ?p1)(Worker_thread := event_after ev) \<and> held p' = held ?p1 \<and>
    bridge_of p' = (bridge_of ?p1)\<lparr>g_client := map_option (run_op (Op_log ?call)) (g_client (bridge_of ?p1)),
      java_calls := java_calls (bridge_of ?p1) @ [(the (g_service (bridge_of ?p1)), java_call ?call)]\<rparr>"
    by (rule worker_runs_callback)
      (use s set1 assms(2) in \<open>simp_all add: p1 of_client_def split: worker_event.split\<close>)
  then obtain p2 where p2: "(phone_step re vm)\<^sup>*\<^sup>* ?p1 p2" "code p2 = (code ?p1)(Worker_thread := event_after ev)"
    "held p2 = held ?p1" "g_client (bridge_of p2) = Some (run_op (Op_log ?call) c1)"
    "java_calls (bridge_of p2) = java_calls (bridge_of p) @ [(service, java_call ?call)]"
    using s by (auto simp: p1(3))
  let ?p3 = "run_thread re vm Worker_thread (length (event_after ev)) p2"
  have "held ?p3 = held p" "code ?p3 = code p" "g_client (bridge_of ?p3) = Some (event_client ev c)"
    "java_calls (bridge_of ?p3) = java_calls (bridge_of p2)"
    using p1 p2(2-4) s by (cases ev; simp add: c1_def put_code_def fun_eq_iff)+
  moreover have "(phone_step re vm)\<^sup>*\<^sup>* p ?p3"
    using 1 p2(1) run_thread_steps by (meson rtranclp_trans)
  ultimately show ?thesis using p2(5) by (intro exI [of _ ?p3]) simp
qed

text \<open>
  C19. What the worker reports reaches Java, in the program with a recursive \<open>g_mutex\<close> (with
  \<open>std::mutex\<close> no service is ever attached, C29): when the worker of an attached service has connected,
  failed to connect, lost its connection or got a packet that calls a callback, and it finds both
  mutexes free, it calls the method of that callback on the service, once, with the callback's
  numbers and its texts up to their first NUL byte, logs the call, and leaves both mutexes free. A
  packet that does not change the client at all is the only one that is not such an event.
\<close>

theorem callbacks_reach_java:
  assumes "worker_idle c service p" and "env_usable vm" and "event_possible ev c"
    and "callback_set (event_callback ev) c"
  shows "(\<exists>p'. (phone_step True vm)\<^sup>*\<^sup>* p p' \<and> held p' = held p \<and> code p' = code p \<and>
      g_client (bridge_of p') = Some (event_client ev c) \<and>
      java_calls (bridge_of p') = java_calls (bridge_of p) @ [(service, java_call (event_callback ev))]) \<and>
    (\<forall>packet c'. handle_packet c packet = Some c' \<longrightarrow> packet_event c c')"
  using worker_event_runs [OF assms] packet_calls by blast

theorem callbacks_reach_java_witness:
  "\<exists>p p' p''. phone_reachable True usual_vm p \<and> (phone_step True usual_vm)\<^sup>*\<^sup>* p p' \<and>
     java_calls (bridge_of p') = java_calls (bridge_of p)
       @ [(7, ''onMessageReceived'', [Jint 3, Jstring ''hi'', Jlong 9])] \<and>
     (phone_step True usual_vm)\<^sup>*\<^sup>* p p'' \<and>
     java_calls (bridge_of p'') = java_calls (bridge_of p) @ [(7, ''onConnectionStatusChanged'', [Jint 0])]"
proof -
  let ?call = "Message_callback 3 ''hi'' 9"
  obtain p c where p: "phone_reachable True usual_vm p" "in_session c 7 p"
    using session_reachable by blast
  then have idle: "worker_idle c 7 p" and c: "connected c" "message_callback c" "status_callback c"
    by (simp_all add: in_session_def worker_idle_def)
  have env: "env_usable usual_vm" by (simp add: env_usable_def usual_vm_def)
  have "\<exists>p'. (phone_step True usual_vm)\<^sup>*\<^sup>* p p' \<and>
      java_calls (bridge_of p') = java_calls (bridge_of p) @ [(7, java_call ?call)]"
    using callbacks_reach_java [OF idle env, of "Calls ?call"] c by auto
  moreover have "\<exists>p'. (phone_step True usual_vm)\<^sup>*\<^sup>* p p' \<and>
      java_calls (bridge_of p') = java_calls (bridge_of p) @ [(7, java_call (Status_callback 0))]"
    using callbacks_reach_java [OF idle env, of Leaves] c by auto
  ultimately show ?thesis using p(1) by (auto simp: java_call_def c_str_def)
qed

end
