(* ===== verification/Request_Properties.thy ===== *)
theory Request_Properties
  imports Handler_Properties
begin

text \<open>
  What a request does, for every handler: that it is answered, once, with the answer of its kind,
  whatever the database does; whom a chat message reaches and what is stored; when a password is
  reset; what adding a friend changes.
\<close>

section \<open>Answers\<close>

text \<open>The steps of a handler before it answers: a login, a notification.\<close>

inductive quiet_step :: "nat \<Rightarrow> hub \<Rightarrow> hub \<Rightarrow> bool" for r :: nat where
  quiet_login: "quiet_step r h (set_user_connection u (get_id r h) (set_user_id r u h))"
| quiet_notify: "quiet_step r h (snd (send_to_user u (notify_packet i content timestamp) h))"

definition answers_at :: "nat \<Rightarrow> command_code \<Rightarrow> handler \<Rightarrow> server \<Rightarrow> bool" where
  "answers_at r cmd m s \<longleftrightarrow> (\<forall>s'. m s = (Handled, s') \<longrightarrow> (\<exists>h body. (quiet_step r)\<^sup>*\<^sup>* (srv_hub s) h \<and>
     srv_hub s' = conn_send r (encode \<lparr>pkt_version = VERSION, pkt_command = cmd, pkt_data = body\<rparr>) h))"

lemma at_send: "answers_at r cmd (send_response r cmd d) s"
  by (auto simp: answers_at_def send_response_def on_hub_def)

lemma at_answer [intro]:
  "answers_at r LOGIN_RESP (login_answer r e u n) s" "answers_at r MESSAGE_RESP (chat_answer r e m) s"
  "answers_at r FRIEND_LIST_RESP (friend_list_answer r e fs) s" "answers_at r ADD_FRIEND_RESP (add_friend_answer r e) s"
  "answers_at r REGISTER_RESP (register_answer r e u) s" "answers_at r SECURITY_QUESTION_RESP (question_answer r e q) s"
  "answers_at r RESET_PASSWORD_RESP (reset_answer r e) s" "answers_at r VERSION_CHECK_RESP (handle_version_check r req) s"
  unfolding login_answer_def chat_answer_def friend_list_answer_def add_friend_answer_def
    register_answer_def question_answer_def reset_answer_def handle_version_check_def
  by (rule at_send)+

lemma at_db [intro]:
  assumes "\<And>x p. answers_at r cmd (k x) (s\<lparr>srv_pool := p\<rparr>)" shows "answers_at r cmd (on_db m k) s"
  using assms by (auto simp: answers_at_def on_db_def split: prod.splits outcome.splits)

lemma at_cache [intro]:
  assumes "\<And>c. answers_at r cmd k (s\<lparr>srv_cache := c\<rparr>)" shows "answers_at r cmd (on_cache m k) s"
  using assms by (auto simp: answers_at_def on_cache_def split: prod.splits cache_outcome.splits)

lemma at_moved:
  assumes "answers_at r cmd m t" and "(quiet_step r)\<^sup>*\<^sup>* (srv_hub s) (srv_hub t)" and "m' s = m t"
  shows "answers_at r cmd m' s"
  using assms unfolding answers_at_def by (metis rtranclp_trans)

lemma at_if [intro]: "answers_at r cmd a s \<Longrightarrow> answers_at r cmd b s \<Longrightarrow> answers_at r cmd (if c then a else b) s"
  by simp

lemma at_split [intro]: "(\<And>x y. answers_at r cmd (f x y) s) \<Longrightarrow> answers_at r cmd (case z of (x, y) \<Rightarrow> f x y) s"
  by (cases z) simp

lemma at_login: "answers_at r LOGIN_RESP (handle_login env r req) s"
proof -
  let ?tail = "\<lambda>user s. on_cache (cache_set_online (env_redis env) (sint (u_user_id user)) True)
      (on_cache (cache_set_connection_id (env_redis env) (sint (u_user_id user)) (get_id r (srv_hub s)))
        (login_answer r SUCCESS (u_user_id user) (u_username user)))"
  have branches: "answers_at r LOGIN_RESP (\<lambda>s. if \<not> ok then login_answer r USER_NOT_FOUND 0 [] s
      else if is_user_online (u_user_id user) (srv_hub s) then login_answer r USER_ALREADY_ONLINE 0 [] s
      else (let s = on_hub (set_user_id r (u_user_id user)) s;
                s = on_hub (\<lambda>h. set_user_connection (u_user_id user) (get_id r h) h) s
            in ?tail user s s)) s" for ok user s
  proof -
    let ?s = "on_hub (\<lambda>h. set_user_connection (u_user_id user) (get_id r h) h)
      (on_hub (set_user_id r (u_user_id user)) s)"
    consider (no) "\<not> ok" | (online) "ok" "is_user_online (u_user_id user) (srv_hub s)"
      | (yes) "ok" "\<not> is_user_online (u_user_id user) (srv_hub s)" by blast
    then show ?thesis
    proof cases
      case no
      show ?thesis by (rule at_moved [where m = "login_answer r USER_NOT_FOUND 0 []" and t = s]) (use no in auto)
    next
      case online
      show ?thesis
        by (rule at_moved [where m = "login_answer r USER_ALREADY_ONLINE 0 []" and t = s]) (use online in auto)
    next
      case yes
      have "quiet_step r (srv_hub s) (srv_hub ?s)"
        using quiet_login [of r "srv_hub s" "u_user_id user"] by (simp add: on_hub_def get_id_set_user_id)
      then have q: "(quiet_step r)\<^sup>*\<^sup>* (srv_hub s) (srv_hub ?s)" by blast
      have "answers_at r LOGIN_RESP (?tail user ?s) ?s" by (intro at_cache at_answer)
      then show ?thesis by (rule at_moved [OF _ q]) (use yes in \<open>simp add: Let_def\<close>)
    qed
  qed
  show ?thesis unfolding handle_login_def by (rule at_db, rule at_split, rule branches)
qed

lemma at_chat: "answers_at r MESSAGE_RESP (handle_chat_message env r req) s"
proof (cases "get_user_id r (srv_hub s) = 0")
  case True
  then show ?thesis
    by (intro at_moved [where m = "chat_answer r PROTOCOL_ERROR 0" and t = s, OF at_answer(2)])
      (auto simp: handle_chat_message_def)
next
  case False
  let ?u = "get_user_id r (srv_hub s)"
  let ?k = "\<lambda>(ok, msg_id) s.
       if \<not> ok then chat_answer r DATABASE_ERROR 0 s
       else if is_user_online (mreq_to_id req) (srv_hub s)
       then (let encoded = notify_packet ?u (mreq_content req) (env_now env (srv_clock s));
                 s = s\<lparr>srv_clock := Suc (srv_clock s)\<rparr>;
                 s = on_hub (\<lambda>h. snd (send_to_user (mreq_to_id req) encoded h)) s
             in chat_answer r SUCCESS msg_id s)
       else on_cache (cache_increment_unread (env_redis env) (sint (mreq_to_id req)))
              (chat_answer r SUCCESS msg_id) s"
  have "answers_at r MESSAGE_RESP (?k (ok, m)) s" for ok m s
  proof -
    let ?s = "on_hub (\<lambda>h. snd (send_to_user (mreq_to_id req)
        (notify_packet ?u (mreq_content req) (env_now env (srv_clock s))) h)) (s\<lparr>srv_clock := Suc (srv_clock s)\<rparr>)"
    have q: "quiet_step r (srv_hub s) (srv_hub ?s)" by (simp add: on_hub_def quiet_notify)
    consider (no) "\<not> ok" | (online) "ok" "is_user_online (mreq_to_id req) (srv_hub s)"
      | (offline) "ok" "\<not> is_user_online (mreq_to_id req) (srv_hub s)" by blast
    then show ?thesis
    proof cases
      case no
      show ?thesis by (rule at_moved [where m = "chat_answer r DATABASE_ERROR 0" and t = s]) (use no in auto)
    next
      case online
      have "(quiet_step r)\<^sup>*\<^sup>* (srv_hub s) (srv_hub ?s)" using q by blast
      then show ?thesis
        by (rule at_moved [where m = "chat_answer r SUCCESS m", OF at_answer(2)]) (use online in \<open>simp add: Let_def\<close>)
    next
      case offline
      have "answers_at r MESSAGE_RESP (on_cache (cache_increment_unread (env_redis env) (sint (mreq_to_id req)))
          (chat_answer r SUCCESS m)) s" by (intro at_cache at_answer)
      then show ?thesis by (rule at_moved [where t = s]) (use offline in auto)
    qed
  qed
  then have "answers_at r MESSAGE_RESP (?k x) s" for x s by (cases x) blast
  then have "answers_at r MESSAGE_RESP (on_db (db_send_message (env_mysql env) ?u (mreq_to_id req)
      (mreq_content req) 0) ?k) s" by (rule at_db)
  then show ?thesis
    by (rule at_moved [where t = s]) (simp_all add: handle_chat_message_def False Let_def)
qed

lemma at_friend_list: "answers_at r FRIEND_LIST_RESP (handle_friend_list env r) s"
proof -
  let ?u = "get_user_id r (srv_hub s)"
  have "answers_at r FRIEND_LIST_RESP (if ?u = 0 then friend_list_answer r PROTOCOL_ERROR []
     else on_db (db_get_friends (env_mysql env) ?u []) (\<lambda>(ok, fs).
       if \<not> ok then friend_list_answer r DATABASE_ERROR []
       else friend_list_answer r SUCCESS (map (\<lambda>f. (f_friend_id f, f_friend_name f)) fs))) s"
    by (intro at_if at_db at_split at_answer)
  then show ?thesis by (rule at_moved [where t = s]) (simp_all add: handle_friend_list_def Let_def)
qed

lemma at_add_friend: "answers_at r ADD_FRIEND_RESP (handle_add_friend env r req) s"
proof -
  have "answers_at r ADD_FRIEND_RESP (if get_user_id r (srv_hub s) = 0 then add_friend_answer r PROTOCOL_ERROR
     else if afreq_user_id req = afreq_friend_id req then add_friend_answer r CANNOT_ADD_SELF
     else on_db (db_get_user_by_id (env_mysql env) (afreq_friend_id req) (stack_user env)) (\<lambda>(found, _).
       if \<not> found then add_friend_answer r USER_NOT_FOUND
       else on_db (db_add_friend (env_mysql env) (afreq_user_id req) (afreq_friend_id req)) (\<lambda>added.
         if \<not> added then add_friend_answer r FRIEND_REQUEST_EXISTS
         else on_db (db_add_friend (env_mysql env) (afreq_friend_id req) (afreq_user_id req))
           (\<lambda>_. add_friend_answer r SUCCESS)))) s"
    by (intro at_if at_db at_split at_answer)
  then show ?thesis by (rule at_moved [where t = s]) (simp_all add: handle_add_friend_def Let_def)
qed

lemma at_accounts:
  "answers_at r REGISTER_RESP (handle_register env r rr) s"
  "answers_at r SECURITY_QUESTION_RESP (handle_security_question env r sq) s"
  "answers_at r RESET_PASSWORD_RESP (handle_reset_password env r rp) s"
  unfolding handle_register_def handle_security_question_def handle_reset_password_def
  by (intro at_if at_db at_split at_answer)+

text \<open>The answer to a request, and the bodies a request is accepted with.\<close>

fun response_to :: "command_code \<Rightarrow> command_code option" where
  "response_to LOGIN_REQ = Some LOGIN_RESP"
| "response_to MESSAGE_REQ = Some MESSAGE_RESP"
| "response_to FRIEND_LIST_REQ = Some FRIEND_LIST_RESP"
| "response_to ADD_FRIEND_REQ = Some ADD_FRIEND_RESP"
| "response_to REGISTER_REQ = Some REGISTER_RESP"
| "response_to SECURITY_QUESTION_REQ = Some SECURITY_QUESTION_RESP"
| "response_to RESET_PASSWORD_REQ = Some RESET_PASSWORD_RESP"
| "response_to VERSION_CHECK_REQ = Some VERSION_CHECK_RESP"
| "response_to _ = None"

definition is_decoded :: "'a decoded option \<Rightarrow> bool" where
  "is_decoded d = (case d of Some (Decoded _) \<Rightarrow> True | _ \<Rightarrow> False)"

definition accepted :: "packet \<Rightarrow> bool" where
  "accepted p = (case pkt_command p of
     LOGIN_REQ \<Rightarrow> is_decoded (decode_login_request (pkt_data p))
   | MESSAGE_REQ \<Rightarrow> is_decoded (decode_message_request (pkt_data p))
   | FRIEND_LIST_REQ \<Rightarrow> True
   | ADD_FRIEND_REQ \<Rightarrow> 4 \<le> length (pkt_data p)
   | REGISTER_REQ \<Rightarrow> is_decoded (decode_register_request (pkt_data p))
   | SECURITY_QUESTION_REQ \<Rightarrow> is_decoded (decode_security_question_request (pkt_data p))
   | RESET_PASSWORD_REQ \<Rightarrow> is_decoded (decode_reset_password_request (pkt_data p))
   | VERSION_CHECK_REQ \<Rightarrow> is_decoded (decode_version_check_request (pkt_data p))
   | _ \<Rightarrow> False)"

lemma at_decoded:
  assumes "\<And>x. answers_at r cmd (k x) s" and "is_decoded d" shows "answers_at r cmd (on_decoded d k) s"
  using assms by (auto simp: answers_at_def on_decoded_def is_decoded_def split: option.splits decoded.splits)

lemma not_decoded: "\<not> is_decoded d \<Longrightarrow> on_decoded d k s = (Handled, s') \<Longrightarrow> s' = s"
  by (auto simp: on_decoded_def is_decoded_def split: option.splits decoded.splits)

lemma at_message:
  assumes "accepted p" and "response_to (pkt_command p) = Some cmd"
  shows "answers_at r cmd (handle_message env r p) s"
proof (cases "pkt_command p = ADD_FRIEND_REQ")
  case True
  let ?m = "case read_int32 (pkt_data p) 0 of None \<Rightarrow> (\<lambda>s. (Undefined, s))
    | Some i \<Rightarrow> handle_add_friend env r \<lparr>afreq_user_id = get_user_id r (srv_hub s), afreq_friend_id = i\<rparr>"
  have "answers_at r cmd ?m s"
    using assms(2) True by (auto simp: at_add_friend split: option.split) (simp add: answers_at_def)
  then show ?thesis
    by (rule at_moved [where t = s])
      (use assms(1) True in \<open>auto simp: handle_message_def accepted_def split: option.split\<close>)
next
  case False
  then show ?thesis
    using assms
    by (cases "pkt_command p") (auto simp: handle_message_def accepted_def intro!: at_decoded at_login at_chat
        at_friend_list at_accounts at_answer)
qed

lemma not_accepted:
  assumes "\<not> accepted p" and "handle_message env r p s = (Handled, s')" shows "s' = s"
  using assms
  by (cases "pkt_command p") (auto simp: handle_message_def accepted_def handled_def dest: not_decoded)

lemma quiet_sends:
  assumes "(quiet_step r)\<^sup>*\<^sup>* h h'" and "heap h q = Some c"
  shows "\<exists>c' extra. heap h' q = Some c' \<and> conn_sends c' = conn_sends c @ extra \<and>
    (\<forall>d\<in>set extra. \<exists>i content ts. d = notify_packet i content ts)"
  using assms
proof (induction rule: rtranclp_induct)
  case (step h1 h2)
  then obtain c1 extra where c1: "heap h1 q = Some c1" "conn_sends c1 = conn_sends c @ extra"
    "\<forall>d\<in>set extra. \<exists>i content ts. d = notify_packet i content ts" by blast
  from step(2) show ?case
  proof (cases rule: quiet_step.cases)
    case (quiet_login u)
    then show ?thesis using c1
      by (cases "q = r") (auto simp: set_user_connection_def set_user_id_def heap_update_conn)
  next
    case (quiet_notify u i content ts)
    show ?thesis
    proof (cases rule: send_to_user_cases [of u "notify_packet i content ts" h1])
      case 1
      then show ?thesis using c1 quiet_notify by simp
    next
      case (2 j t)
      let ?d = "notify_packet i content ts"
      show ?thesis
      proof (cases "q = t")
        case True
        then have "heap h2 q = Some (c1\<lparr>conn_posted := conn_posted c1 @ [?d], conn_sends := conn_sends c1 @ [?d]\<rparr>)"
          using 2 c1(1) quiet_notify by (simp add: conn_send_def heap_update_conn)
        then show ?thesis using c1 by (intro exI [of _ "extra @ [?d]"] exI conjI) auto
      next
        case False
        then show ?thesis using 2 c1 quiet_notify by (auto simp: conn_send_def heap_update_conn)
      qed
    qed
  qed
qed auto

text \<open>
  C12. Every request is answered once: when its handler ends, a request whose body decodes has sent
  on its connection, after nothing but notifications, one packet: the answer of its kind. A packet
  that is no request, or whose body does not decode, changes nothing at all.
\<close>

theorem every_request_is_answered:
  assumes "handle_message env r p s = (Handled, s')" and "heap (srv_hub s) r = Some c"
  shows "(if accepted p
     then \<exists>cmd body notified c'. response_to (pkt_command p) = Some cmd \<and> heap (srv_hub s') r = Some c' \<and>
       conn_sends c' = conn_sends c @ notified
         @ [encode \<lparr>pkt_version = VERSION, pkt_command = cmd, pkt_data = body\<rparr>] \<and>
       list_all (\<lambda>d. \<exists>i content ts. d = notify_packet i content ts) notified
     else s' = s)"
proof (cases "accepted p")
  case True
  then obtain cmd where cmd: "response_to (pkt_command p) = Some cmd"
    by (cases "pkt_command p") (simp_all add: accepted_def)
  then obtain h body where h: "(quiet_step r)\<^sup>*\<^sup>* (srv_hub s) h"
    "srv_hub s' = conn_send r (encode \<lparr>pkt_version = VERSION, pkt_command = cmd, pkt_data = body\<rparr>) h"
    using at_message [OF True, of cmd r env s] assms(1) unfolding answers_at_def by blast
  obtain c1 extra where "heap h r = Some c1" "conn_sends c1 = conn_sends c @ extra"
    "\<forall>d\<in>set extra. \<exists>i content ts. d = notify_packet i content ts"
    using quiet_sends [OF h(1) assms(2)] by blast
  then show ?thesis
    using True cmd h(2) by (auto simp: conn_send_def heap_update_conn list_all_iff)
next
  case False
  then show ?thesis using not_accepted [OF False assms(1)] by simp
qed

theorem every_request_is_answered_witness:
  "\<exists>s' body c'. handle_message demo_env 0
       \<lparr>pkt_version = 1, pkt_command = VERSION_CHECK_REQ, pkt_data = [0, 0, 0, 1]\<rparr> (demo_started no_tables) = (Handled, s') \<and>
     heap (srv_hub s') 0 = Some c' \<and> last (conn_sends c')
       = encode \<lparr>pkt_version = VERSION, pkt_command = VERSION_CHECK_RESP, pkt_data = body\<rparr>"
proof -
  let ?p = "\<lparr>pkt_version = 1, pkt_command = VERSION_CHECK_REQ, pkt_data = [0, 0, 0, 1]\<rparr>"
  let ?s = "demo_started no_tables"
  have d: "decode_version_check_request [0, 0, 0, 1] = Some (Decoded \<lparr>vcreq_client_version = 1\<rparr>)"
    by code_simp
  then have acc: "accepted ?p" by (simp add: accepted_def is_decoded_def)
  obtain s' where m: "handle_message demo_env 0 ?p ?s = (Handled, s')"
    by (simp add: handle_message_def on_decoded_def d handle_version_check_def send_response_def)
  from every_request_is_answered [OF m, of "(new_connection ''c0'')\<lparr>conn_reading := Reading_header\<rparr>"] acc
  show ?thesis by (fastforce simp: demo_started_sel m)
qed

section \<open>Chat messages\<close>

definition chat_response_packet :: "error_code \<Rightarrow> i32 \<Rightarrow> bytes" where
  "chat_response_packet e m = encode \<lparr>pkt_version = VERSION, pkt_command = MESSAGE_RESP,
     pkt_data = encode_message_response \<lparr>mresp_error_code = e, mresp_msg_id = m\<rparr>\<rparr>"

lemma chat_answer_run:
  "chat_answer r e m s = (Handled, on_hub (conn_send r (chat_response_packet e m)) s)"
  by (simp add: chat_answer_def send_response_def chat_response_packet_def)

lemma account_ready_db:
  assumes "account_ready ru env p"
  shows "library_works env" "follows_schema ru env" "idle_conns p \<noteq> []"
  using assms by (simp_all add: account_ready_def)

lemma chat_stored_runs:
  assumes "account_ready ru (env_mysql env) (srv_pool s)"
    and "insert_message ru (db_clock (srv_pool s) + 4) u i content (db_tables (srv_pool s)) = Some (rs, k, t')"
  shows "db_send_message (env_mysql env) u i content 0 (srv_pool s)
      = (Done (True, word_of_nat k), after_call (srv_pool s) 5 t')"
  using send_message_runs [OF account_ready_db [OF assms(1)], of u i content 0] assms(2) by simp

lemma chat_online_runs:
  assumes "account_ready ru (env_mysql env) (srv_pool s)" and "get_user_id r (srv_hub s) = u" and "u \<noteq> 0"
    and "insert_message ru (db_clock (srv_pool s) + 4) u i content (db_tables (srv_pool s)) = Some (rs, k, t')"
    and "is_user_online i (srv_hub s)"
  shows "handle_chat_message env r \<lparr>mreq_to_id = i, mreq_content = content\<rparr> s =
    (Handled, s\<lparr>srv_pool := after_call (srv_pool s) 5 t', srv_clock := Suc (srv_clock s),
       srv_hub := conn_send r (chat_response_packet SUCCESS (word_of_nat k))
         (snd (send_to_user i (notify_packet u content (env_now env (srv_clock s))) (srv_hub s)))\<rparr>)"
  using assms(2,3,5)
  by (simp add: handle_chat_message_def on_db_def chat_stored_runs [OF assms(1,4)] chat_answer_run Let_def)
    (simp add: on_hub_def)

text \<open>
  C10. A chat message is stored and shown under the name of the connection it came on, whatever the
  request says. Without a login it is refused, whatever it holds: the sender gets one answer, and
  neither the database nor the cache is asked anything. With a login, one row with the sender's own
  id, the addressee and the text is added to the messages, the addressee's connection gets one
  notification with that id and text when he is online, and the sender is told the id of the row;
  and when the database refuses the row, the sender is told so and nothing else changes.
\<close>

theorem chat_message_effect:
  assumes "account_ready ru (env_mysql env) (srv_pool s)" and "\<not> cache_locked (srv_cache s)"
    and "u = get_user_id r (srv_hub s)" and "t = db_tables (srv_pool s)"
  shows "(u = 0 \<longrightarrow> handle_chat_message env r \<lparr>mreq_to_id = i, mreq_content = content\<rparr> s
      = (Handled, on_hub (conn_send r (chat_response_packet PROTOCOL_ERROR 0)) s)) \<and>
    (u \<noteq> 0 \<longrightarrow> (\<exists>s'. handle_chat_message env r \<lparr>mreq_to_id = i, mreq_content = content\<rparr> s = (Handled, s') \<and>
      (case insert_message ru (db_clock (srv_pool s) + 4) u i content t of
         None \<Rightarrow> db_tables (srv_pool s') = t \<and> srv_cache s' = srv_cache s \<and>
           srv_hub s' = conn_send r (chat_response_packet DATABASE_ERROR 0) (srv_hub s)
       | Some (rs, k, t') \<Rightarrow>
           (\<exists>row. db_tables (srv_pool s') = t\<lparr>messages := messages t @ [row], next_msg_id := Suc k\<rparr> \<and>
             mr_from_id row = u \<and> mr_to_id row = i \<and> mr_content row = content \<and> mr_msg_id row = k) \<and>
           srv_hub s' = conn_send r (chat_response_packet SUCCESS (word_of_nat k))
             (if is_user_online i (srv_hub s)
              then snd (send_to_user i (notify_packet u content (env_now env (srv_clock s))) (srv_hub s))
              else srv_hub s))))"
proof (cases "u = 0")
  case True
  then show ?thesis using assms(3) by (simp add: handle_chat_message_def chat_answer_run)
next
  case False
  let ?s = "\<lambda>t'. s\<lparr>srv_pool := after_call (srv_pool s) 5 t'\<rparr>"
  show ?thesis
  proof (cases "insert_message ru (db_clock (srv_pool s) + 4) u i content t")
    case None
    then have "handle_chat_message env r \<lparr>mreq_to_id = i, mreq_content = content\<rparr> s
        = (Handled, on_hub (conn_send r (chat_response_packet DATABASE_ERROR 0)) (?s t))"
      using False assms(3,4) send_message_runs [OF account_ready_db [OF assms(1)], of u i content 0]
      by (simp add: handle_chat_message_def on_db_def chat_answer_run Let_def)
    then show ?thesis using False None by (simp add: on_hub_def)
  next
    case (Some z)
    obtain rs k t' where z: "z = (rs, k, t')" by (cases z)
    then have ins: "insert_message ru (db_clock (srv_pool s) + 4) u i content t = Some (rs, k, t')"
      using Some by simp
    have row: "\<exists>row. t' = t\<lparr>messages := messages t @ [row], next_msg_id := Suc k\<rparr> \<and>
        mr_from_id row = u \<and> mr_to_id row = i \<and> mr_content row = content \<and> mr_msg_id row = k"
      using ins by (auto simp: insert_message_def split: if_splits)
    show ?thesis
    proof (cases "is_user_online i (srv_hub s)")
      case True
      then show ?thesis
        using False row ins assms(3,4) chat_online_runs [OF assms(1), of r u i content rs k t'] by simp
    next
      case off: False
      have "\<not> cache_locked (srv_cache (?s t'))" using assms(2) by simp
      then obtain c' where c': "\<And>k. on_cache (cache_increment_unread (env_redis env) (sint i)) k (?s t')
        = k ((?s t')\<lparr>srv_cache := c'\<rparr>)" using count_unread.continues by blast
      have "handle_chat_message env r \<lparr>mreq_to_id = i, mreq_content = content\<rparr> s
        = (Handled, on_hub (conn_send r (chat_response_packet SUCCESS (word_of_nat k))) ((?s t')\<lparr>srv_cache := c'\<rparr>))"
        using False off assms(3,4) ins c' chat_stored_runs [OF assms(1)]
        by (simp add: handle_chat_message_def on_db_def chat_answer_run Let_def)
      then show ?thesis using False off row ins by (simp add: on_hub_def)
    qed
  qed
qed

section \<open>Resetting a password\<close>

definition reset_response_packet :: "error_code \<Rightarrow> bytes" where
  "reset_response_packet e = encode \<lparr>pkt_version = VERSION, pkt_command = RESET_PASSWORD_RESP,
     pkt_data = encode_reset_password_response \<lparr>rpresp_error_code = e\<rparr>\<rparr>"

lemma reset_answer_run: "reset_answer r e s = (Handled, on_hub (conn_send r (reset_response_packet e)) s)"
  by (simp add: reset_answer_def send_response_def reset_response_packet_def)

lemma reset_stores_hash:
  assumes "account_ready ru (env_mysql env) p" and "stored_hash ru p (coll_key ru n) \<noteq> None"
    and "fits_varchar ru 256 (mh_sha256 env pw)"
  obtains p' where "db_reset_password (env_mysql env) n (mh_sha256 env pw) p = (Done True, p')"
    "stored_hash ru p' = (stored_hash ru p)(coll_key ru n \<mapsto> mh_sha256 env pw)"
proof -
  obtain b p' where ch: "pool_change (env_mysql env) n (mh_sha256 env pw) p = (b, p')"
    by (cases "pool_change (env_mysql env) n (mh_sha256 env pw) p")
  have col: "column_text ru (mh_sha256 env pw)" using sha256_column assms(3) by (simp add: mh_sha256)
  note step = change_step [OF assms(1) col ch]
  have "db_reset_password (env_mysql env) n (mh_sha256 env pw) p = (Done True, p')"
    using ch step reset_runs [OF assms(1), of n "mh_sha256 env pw"]
    by (auto simp: pool_change_def answer_def split: option.splits)
  then show thesis by (rule that) (use step assms(2) in auto)
qed

text \<open>
  C11. A password is reset only for the right answer: \<open>handle_reset_password\<close> reports \<open>SUCCESS\<close>
  exactly when the user exists and the SHA-256 text of the answer is the one stored for him; then
  his stored hash, and nobody else's, becomes that of the new password, and in every other case no
  stored hash changes.
\<close>

theorem reset_needs_answer:
  assumes "account_ready ru (env_mysql env) (srv_pool s)"
    and "rpreq_username req \<noteq> []" "rpreq_new_password req \<noteq> []" "rpreq_security_answer req \<noteq> []"
    and "fits_varchar ru 256 (mh_sha256 env (rpreq_new_password req))"
  shows "\<exists>s' e. handle_reset_password env r req s = (Handled, s') \<and>
    srv_hub s' = conn_send r (reset_response_packet e) (srv_hub s) \<and>
    (e = SUCCESS \<longleftrightarrow> (\<exists>u. account_of ru (db_tables (srv_pool s)) (rpreq_username req) = Some u \<and>
       ur_security_answer u = mh_sha256 env (rpreq_security_answer req))) \<and>
    stored_hash ru (srv_pool s') = (if e = SUCCESS
      then (stored_hash ru (srv_pool s))(coll_key ru (rpreq_username req) \<mapsto> mh_sha256 env (rpreq_new_password req))
      else stored_hash ru (srv_pool s))"
proof -
  let ?n = "rpreq_username req" and ?h = "mh_sha256 env (rpreq_new_password req)"
  let ?p = "after_call (srv_pool s) 7 (db_tables (srv_pool s))"
  have same: "stored_hash ru ?p = stored_hash ru (srv_pool s)" by (simp add: stored_hash_def)
  have ready: "account_ready ru (env_mysql env) ?p" using assms(1) by (simp add: account_ready_def)
  note q = security_question_runs [OF assms(1), of ?n "[]" "[]"]
  show ?thesis
  proof (cases "account_of ru (db_tables (srv_pool s)) ?n")
    case None
    then have "handle_reset_password env r req s = reset_answer r USER_NOT_FOUND (s\<lparr>srv_pool := ?p\<rparr>)"
      using assms(2-4) by (simp add: handle_reset_password_def on_db_def q)
    then show ?thesis using None same
      by (intro exI [of _ "snd (reset_answer r USER_NOT_FOUND (s\<lparr>srv_pool := ?p\<rparr>))"] exI [of _ USER_NOT_FOUND])
        (simp add: reset_answer_run on_hub_def)
  next
    case (Some u)
    show ?thesis
    proof (cases "ur_security_answer u = mh_sha256 env (rpreq_security_answer req)")
      case False
      then have "handle_reset_password env r req s = reset_answer r INVALID_ANSWER (s\<lparr>srv_pool := ?p\<rparr>)"
        using assms(2-4) Some by (simp add: handle_reset_password_def on_db_def q)
      then show ?thesis using Some False same
        by (intro exI [of _ "snd (reset_answer r INVALID_ANSWER (s\<lparr>srv_pool := ?p\<rparr>))"] exI [of _ INVALID_ANSWER])
          (simp add: reset_answer_run on_hub_def)
    next
      case True
      have "stored_hash ru ?p (coll_key ru ?n) \<noteq> None" unfolding same by (simp add: stored_hash_account Some)
      then obtain p' where run: "db_reset_password (env_mysql env) ?n ?h ?p = (Done True, p')"
        and hash: "stored_hash ru p' = (stored_hash ru (srv_pool s))(coll_key ru ?n \<mapsto> ?h)"
        using reset_stores_hash [OF ready] assms(5) unfolding same by blast
      have "handle_reset_password env r req s = reset_answer r SUCCESS (s\<lparr>srv_pool := p'\<rparr>)"
        using assms(2-4) Some True run by (simp add: handle_reset_password_def on_db_def q)
      then show ?thesis using Some True hash
        by (intro exI [of _ "snd (reset_answer r SUCCESS (s\<lparr>srv_pool := p'\<rparr>))"] exI [of _ SUCCESS])
          (simp add: reset_answer_run on_hub_def)
    qed
  qed
qed

section \<open>Concrete requests\<close>

definition chat_hub :: hub where
  "chat_hub = \<lparr>heap = [0 \<mapsto> (new_connection ''c0'')\<lparr>conn_user_id := 1\<rparr>, 1 \<mapsto> (new_connection ''c1'')\<lparr>conn_user_id := 2\<rparr>],
     conn_table = [''c0'' \<mapsto> 0, ''c1'' \<mapsto> 1], user_to_conn = [1 \<mapsto> ''c0'', 2 \<mapsto> ''c1'']\<rparr>"

definition demo_server :: "tables \<Rightarrow> server" where
  "demo_server t = \<lparr>srv_hub = chat_hub, srv_pool = start_pool\<lparr>db_tables := t\<rparr>, srv_cache = idle_cache,
     srv_clock = 0\<rparr>"

definition rex_tables :: tables where
  "rex_tables = no_tables\<lparr>users := [(bob_row ''pw'')\<lparr>ur_security_answer := sha256 healthy_env ''rex''\<rparr>],
     next_user_id := 2\<rparr>"

lemma demo_server_ready:
  "account_ready plain_rules (env_mysql demo_env) (srv_pool (demo_server two_users))"
  "account_ready plain_rules (env_mysql demo_env) (srv_pool (demo_server rex_tables))"
proof -
  have "schema_ok plain_rules two_users" "schema_ok plain_rules rex_tables"
    by (simp_all add: schema_defs two_users_def rex_tables_def bob_row_def no_tables_def int_max_def
        plain_rules_def sha256_shape)
  then show "account_ready plain_rules (env_mysql demo_env) (srv_pool (demo_server two_users))"
    "account_ready plain_rules (env_mysql demo_env) (srv_pool (demo_server rex_tables))"
    using healthy_env_follows
    by (simp_all add: demo_env_def account_ready_def demo_server_def start_pool_def new_pool_def plain_user_def)
      (simp_all add: two_users_def rex_tables_def bob_row_def no_tables_def plain_text_def sha256_shape)
qed

definition chat_guest :: server where
  "chat_guest = (demo_server two_users)\<lparr>srv_hub := chat_hub\<lparr>heap := (heap chat_hub)(2 \<mapsto> new_connection ''c2'')\<rparr>\<rparr>"

theorem chat_message_effect_witness:
  "(\<exists>s' row. handle_chat_message demo_env 1 \<lparr>mreq_to_id = 1, mreq_content = ''hi''\<rparr> (demo_server two_users) = (Handled, s') \<and>
     messages (db_tables (srv_pool s')) = [row] \<and> mr_from_id row = 2 \<and> mr_to_id row = 1 \<and>
     srv_hub s' = conn_send 1 (chat_response_packet SUCCESS 1) (conn_send 0 (notify_packet 2 ''hi'' 0) chat_hub)) \<and>
   handle_chat_message demo_env 2 \<lparr>mreq_to_id = 1, mreq_content = ''hi''\<rparr> chat_guest
     = (Handled, on_hub (conn_send 2 (chat_response_packet PROTOCOL_ERROR 0)) chat_guest)"
proof
  obtain rs t' where ins: "insert_message plain_rules (db_clock (srv_pool (demo_server two_users)) + 4) 2 1 ''hi'' two_users
      = Some (rs, 1, t')"
    using two_users_with_id by (simp add: insert_message_def plain_rules_def bigint_max_def)
      (simp add: two_users_def no_tables_def)
  have 1: "\<not> cache_locked (srv_cache (demo_server two_users))" by (simp add: demo_server_def idle_cache_def)
  have 2: "2 = get_user_id 1 (srv_hub (demo_server two_users))"
    by (simp add: demo_server_def chat_hub_def get_user_id_def)
  have 3: "two_users = db_tables (srv_pool (demo_server two_users))" by (simp add: demo_server_def)
  have "messages two_users = []" by (simp add: two_users_def no_tables_def)
  moreover note chat_message_effect [OF demo_server_ready(1) 1 2 3, of 1 "''hi''"]
  ultimately show "\<exists>s' row. handle_chat_message demo_env 1 \<lparr>mreq_to_id = 1, mreq_content = ''hi''\<rparr> (demo_server two_users)
      = (Handled, s') \<and> messages (db_tables (srv_pool s')) = [row] \<and> mr_from_id row = 2 \<and> mr_to_id row = 1 \<and>
     srv_hub s' = conn_send 1 (chat_response_packet SUCCESS 1) (conn_send 0 (notify_packet 2 ''hi'' 0) chat_hub)"
    using ins by (fastforce simp: demo_server_def chat_hub_def is_user_online_def send_to_user_def demo_env_def)
  have guest: "account_ready plain_rules (env_mysql demo_env) (srv_pool chat_guest)" "\<not> cache_locked (srv_cache chat_guest)"
    "0 = get_user_id 2 (srv_hub chat_guest)"
    using demo_server_ready(1) 1 by (simp_all add: chat_guest_def get_user_id_def new_connection_def)
  show "handle_chat_message demo_env 2 \<lparr>mreq_to_id = 1, mreq_content = ''hi''\<rparr> chat_guest
     = (Handled, on_hub (conn_send 2 (chat_response_packet PROTOCOL_ERROR 0)) chat_guest)"
    using chat_message_effect [OF guest refl, of 1 "''hi''"] by simp
qed

theorem reset_needs_answer_witness:
  "\<exists>s'. handle_reset_password demo_env 0 \<lparr>rpreq_username = ''bob'', rpreq_new_password = ''new'',
       rpreq_security_answer = ''rex''\<rparr> (demo_server rex_tables) = (Handled, s') \<and>
     srv_hub s' = conn_send 0 (reset_response_packet SUCCESS) chat_hub \<and>
     stored_hash plain_rules (srv_pool s') ''bob'' = Some (sha256 healthy_env ''new'')"
proof -
  let ?req = "\<lparr>rpreq_username = ''bob'', rpreq_new_password = ''new'', rpreq_security_answer = ''rex''\<rparr>"
  have env: "env_mysql demo_env = healthy_env" by (simp add: demo_env_def)
  have fits: "fits_varchar plain_rules 256 (mh_sha256 demo_env (rpreq_new_password ?req))"
    by (simp add: mh_sha256 env plain_rules_def sha256_shape)
  have acc: "\<exists>u. account_of plain_rules (db_tables (srv_pool (demo_server rex_tables))) ''bob'' = Some u \<and>
      ur_security_answer u = mh_sha256 demo_env ''rex''"
    by (simp add: demo_server_def rex_tables_def account_of_def users_named_def same_text_def bob_row_def mh_sha256 env)
  have key: "coll_key plain_rules ''bob'' = ''bob''" by (simp add: plain_rules_def)
  show ?thesis
    using reset_needs_answer [OF demo_server_ready(2) _ _ _ fits, of 0] acc
    by (auto simp: key mh_sha256 env demo_server_def)
qed

end
