(* ===== verification/Friend_Requests.thy ===== *)
theory Friend_Requests
  imports Request_Properties
begin

text \<open>
  The friend handlers of server/src/message_handler.cpp on a server whose database answers:
  \<open>handle_add_friend\<close> stores a friendship in both directions, and \<open>handle_friend_list\<close> reads it back
  for either side.
\<close>

definition add_friend_packet :: "error_code \<Rightarrow> bytes" where
  "add_friend_packet e = encode \<lparr>pkt_version = VERSION, pkt_command = ADD_FRIEND_RESP,
     pkt_data = encode_add_friend_response \<lparr>afresp_error_code = e\<rparr>\<rparr>"

definition friend_list_packet :: "error_code \<Rightarrow> (i32 \<times> string) list \<Rightarrow> bytes" where
  "friend_list_packet e fs = encode \<lparr>pkt_version = VERSION, pkt_command = FRIEND_LIST_RESP,
     pkt_data = encode_friend_list_response \<lparr>flresp_error_code = e, flresp_friends = fs\<rparr>\<rparr>"

lemma friend_answer_runs:
  "add_friend_answer r e s = (Handled, on_hub (conn_send r (add_friend_packet e)) s)"
  "friend_list_answer r e fs s = (Handled, on_hub (conn_send r (friend_list_packet e fs)) s)"
  by (simp_all add: add_friend_answer_def friend_list_answer_def send_response_def add_friend_packet_def
      friend_list_packet_def)

text \<open>A database whose accounts and avatars come back whole from the buffers of the queries.\<close>

definition friends_ready :: "sql_rules \<Rightarrow> mysql_env \<Rightarrow> pool \<Rightarrow> bool" where
  "friends_ready ru env p \<longleftrightarrow> account_ready ru env p \<and> (\<forall>u\<in>set (users (db_tables p)). plain_avatar u) \<and>
     CHR 0x00 \<in> set (stack_array env 257)"

lemma friends_readyD:
  assumes "friends_ready ru env p"
  shows "account_ready ru env p" "\<forall>u\<in>set (users (db_tables p)). plain_avatar u"
    "\<exists>junk. c_string (stack_array env 257) = Done junk"
  using assms by (simp_all add: friends_ready_def c_string_def)

lemma readable_entries:
  assumes "friends_ready ru env p" shows "\<forall>e\<in>set (friend_entries (db_tables p) fs). readable_entry e"
  using assms
  by (auto simp: friends_ready_def account_ready_def plain_user_def plain_avatar_def friend_entries_def
      readable_entry_def users_with_id_def)

lemma friends_ready_insert:
  assumes "friends_ready ru env p" and "insert_friend i j (db_tables p) = Some (rs, k, t)"
  shows "friends_ready ru env (after_call p n t)"
proof -
  have "schema_ok ru t"
    using schema_ok_insert_friend [OF assms(2)] assms(1) by (simp add: friends_ready_def account_ready_def)
  moreover have "users t = users (db_tables p)" using assms(2) by (auto simp: insert_friend_def split: if_splits)
  ultimately show ?thesis using assms(1) by (simp add: friends_ready_def account_ready_def)
qed

lemma friends_ready_same:
  "friends_ready ru env p \<Longrightarrow> friends_ready ru env (after_call p n (db_tables p))"
  by (simp add: friends_ready_def account_ready_def)

section \<open>The friend list\<close>

definition id_and_name :: "i32 \<times> string \<times> string option \<Rightarrow> i32 \<times> string" where
  "id_and_name e = (fst e, fst (snd e))"

lemma carried_ids: "map (\<lambda>f. (f_friend_id f, f_friend_name f)) (carry_avatars i a es) = map id_and_name es"
  by (induction es arbitrary: a rule: list.induct) (auto simp: id_and_name_def Let_def split: prod.splits)

lemma friend_list_runs:
  assumes "friends_ready ru (env_mysql env) (srv_pool s)" and "get_user_id r (srv_hub s) = i" and "i \<noteq> 0"
  shows "\<exists>s'. handle_friend_list env r s = (Handled, s') \<and> db_tables (srv_pool s') = db_tables (srv_pool s) \<and>
    srv_hub s' = conn_send r (friend_list_packet SUCCESS
      (map id_and_name (friend_answer ru (srv_pool s) i))) (srv_hub s)"
proof -
  obtain junk where junk: "c_string (stack_array (env_mysql env) 257) = Done junk"
    using friends_readyD(3) [OF assms(1)] by blast
  have "\<forall>e\<in>set (friend_answer ru (srv_pool s) i). readable_entry e"
    unfolding friend_answer_def by (rule readable_entries [OF assms(1)])
  then obtain k where "db_get_friends (env_mysql env) i [] (srv_pool s)
      = (Done (True, [] @ carry_avatars i junk (friend_answer ru (srv_pool s) i)),
         after_call (srv_pool s) k (db_tables (srv_pool s)))"
    using get_friends_runs [OF account_ready_db [OF friends_readyD(1) [OF assms(1)]] _ junk]
    by blast
  then show ?thesis
    using assms(2,3) by (simp add: handle_friend_list_def on_db_def friend_answer_runs carried_ids) (simp add: on_hub_def)
qed

section \<open>Adding a friend\<close>

lemma add_friend_request_runs:
  assumes "friends_ready ru (env_mysql env) (srv_pool s)" and "get_user_id r (srv_hub s) = i" and "i \<noteq> 0" and "i \<noteq> j"
    and "insert_friend i j (db_tables (srv_pool s)) = Some (rs, k, t1)" and "insert_friend j i t1 = Some (rs', k', t2)"
  shows "\<exists>s'. handle_add_friend env r \<lparr>afreq_user_id = i, afreq_friend_id = j\<rparr> s = (Handled, s') \<and>
    srv_hub s' = conn_send r (add_friend_packet SUCCESS) (srv_hub s) \<and> db_tables (srv_pool s') = t2 \<and>
    friends_ready ru (env_mysql env) (srv_pool s')"
proof -
  let ?t = "db_tables (srv_pool s)"
  let ?p1 = "after_call (srv_pool s) 7 ?t" let ?p2 = "after_call ?p1 5 t1" let ?p3 = "after_call ?p2 5 t2"
  obtain junk where junk: "c_string (stack_array (env_mysql env) 257) = Done junk"
    using friends_readyD(3) [OF assms(1)] by blast
  have p1: "friends_ready ru (env_mysql env) ?p1" by (rule friends_ready_same [OF assms(1)])
  have p2: "friends_ready ru (env_mysql env) ?p2" using friends_ready_insert [OF p1, of i j rs k t1 5] assms(5) by simp
  have "friends_ready ru (env_mysql env) ?p3" using friends_ready_insert [OF p2, of j i rs' k' t2 5] assms(6) by simp
  note ready = p1 p2 this
  obtain u us where u: "users_with_id ?t j = u # us"
    using assms(5) by (cases "users_with_id ?t j") (auto simp: insert_friend_def)
  have found: "\<exists>v. db_get_user_by_id (env_mysql env) j user (srv_pool s) = (Done (True, v), ?p1)" for user
    by (simp add: get_user_by_id_runs [OF friends_readyD(1,2) [OF assms(1)] junk] u)
  have first: "db_add_friend (env_mysql env) i j ?p1 = (Done True, ?p2)"
    using add_friend_runs [OF account_ready_db [OF friends_readyD(1) [OF ready(1)]], of i j] assms(5) by simp
  have second: "db_add_friend (env_mysql env) j i ?p2 = (Done True, ?p3)"
    using add_friend_runs [OF account_ready_db [OF friends_readyD(1) [OF ready(2)]], of j i] assms(6) by simp
  obtain v where v: "db_get_user_by_id (env_mysql env) j (stack_user env) (srv_pool s) = (Done (True, v), ?p1)"
    using found by blast
  have "handle_add_friend env r \<lparr>afreq_user_id = i, afreq_friend_id = j\<rparr> s
      = (Handled, on_hub (conn_send r (add_friend_packet SUCCESS)) (s\<lparr>srv_pool := ?p3\<rparr>))"
    using assms(2-4) by (simp add: handle_add_friend_def on_db_def v first second friend_answer_runs)
  then show ?thesis using ready(3) by (intro exI) (auto simp: on_hub_def)
qed

text \<open>The friends of x in the order in which they were added: ids and names.\<close>

definition friend_names :: "tables \<Rightarrow> i32 \<Rightarrow> (i32 \<times> string) list" where
  "friend_names t x = map id_and_name (friend_entries t (friends_of t x))"

lemma friend_names_insert:
  assumes "insert_friend i j t = Some (rs, k, t1)"
  shows "friend_names t1 x = friend_names t x
    @ (if x = i then map (\<lambda>u. (j, ur_username u)) (users_with_id t j) else [])"
  using assms
  by (auto simp: insert_friend_def friend_names_def friend_entries_def friends_of_def users_with_id_def
      id_and_name_def split: if_splits)

lemma friend_answer_names:
  assumes "follows_schema ru env"
  shows "mset (map id_and_name (friend_answer ru p x)) = mset (friend_names (db_tables p) x)"
    and "(\<And>now fs. scan_order ru now fs = fs) \<Longrightarrow>
      map id_and_name (friend_answer ru p x) = friend_names (db_tables p) x"
  using friend_answer_mset [OF assms, of p x] by (simp_all add: friend_names_def) (simp add: friend_answer_def)

text \<open>
  C13. Friendship is mutual: when a logged-in user adds another one, the answer is \<open>SUCCESS\<close>, and
  from then on the friend list of either, asked for on whatever connection he is logged in, is the
  old one with the id and the name of the other added once more: in whatever order the database
  returns the rows, and at the end when it returns them in the order they were added. That holds as
  well when they are friends already: nothing keeps the same friendship from being stored twice.
\<close>

theorem friends_are_mutual:
  assumes "friends_ready ru (env_mysql env) (srv_pool s)" and "t = db_tables (srv_pool s)"
    and "get_user_id r (srv_hub s) = i" and "i \<noteq> 0" and "i \<noteq> j"
    and "users_with_id t i = [u]" and "users_with_id t j = [v]" and "next_friend_row t < int_max"
    and "get_user_id q (srv_hub s) = x" and "x \<noteq> 0"
    and "names = friend_names t x
      @ (if x = i then [(j, ur_username v)] else if x = j then [(i, ur_username u)] else [])"
  shows "\<exists>s1 s2 es. handle_add_friend env r \<lparr>afreq_user_id = i, afreq_friend_id = j\<rparr> s = (Handled, s1) \<and>
    srv_hub s1 = conn_send r (add_friend_packet SUCCESS) (srv_hub s) \<and>
    handle_friend_list env q s1 = (Handled, s2) \<and>
    srv_hub s2 = conn_send q (friend_list_packet SUCCESS es) (srv_hub s1) \<and>
    mset es = mset names \<and> ((\<forall>now fs. scan_order ru now fs = fs) \<longrightarrow> es = names)"
proof -
  obtain rs k t1 where t1: "insert_friend i j t = Some (rs, k, t1)"
    using assms(6-8) by (simp add: insert_friend_def)
  have same: "users_with_id t1 = users_with_id t" "next_friend_row t1 = Suc (next_friend_row t)"
    using t1 by (auto simp: insert_friend_def users_with_id_def fun_eq_iff split: if_splits)
  obtain rs' k' t2 where t2: "insert_friend j i t1 = Some (rs', k', t2)"
    using assms(6-8) by (simp add: insert_friend_def same)
  have entries: "friend_names t2 x = names"
    using assms(5-7) by (simp add: friend_names_insert [OF t2] friend_names_insert [OF t1] same assms(11))
  obtain s1 where s1: "handle_add_friend env r \<lparr>afreq_user_id = i, afreq_friend_id = j\<rparr> s = (Handled, s1)"
    "srv_hub s1 = conn_send r (add_friend_packet SUCCESS) (srv_hub s)" "db_tables (srv_pool s1) = t2"
    "friends_ready ru (env_mysql env) (srv_pool s1)"
    using add_friend_request_runs [OF assms(1,3-5)] t1 t2 assms(2) by blast
  have "get_user_id q (srv_hub s1) = x"
    using assms(9) by (auto simp: s1(2) get_user_id_def conn_ops heap_update_conn with_send_def split: option.splits)
  from friend_list_runs [OF s1(4) this assms(10)] obtain s2 where s2: "handle_friend_list env q s1 = (Handled, s2)"
    "srv_hub s2 = conn_send q (friend_list_packet SUCCESS (map id_and_name (friend_answer ru (srv_pool s1) x))) (srv_hub s1)"
    by blast
  have follows: "follows_schema ru (env_mysql env)"
    using assms(1) by (simp add: friends_ready_def account_ready_def)
  show ?thesis
    using s1(1,2) s2 friend_answer_names [OF follows, of "srv_pool s1" x] unfolding s1(3) entries by blast
qed

theorem friends_are_mutual_witness:
  "\<exists>s1 s2. handle_add_friend demo_env 1 \<lparr>afreq_user_id = 2, afreq_friend_id = 1\<rparr> (demo_server two_users) = (Handled, s1) \<and>
     handle_friend_list demo_env 0 s1 = (Handled, s2) \<and>
     srv_hub s2 = conn_send 0 (friend_list_packet SUCCESS [(2, ''eve'')]) (srv_hub s1)"
proof -
  let ?s = "demo_server two_users"
  have env: "env_mysql demo_env = healthy_env" by (simp add: demo_env_def)
  have tables: "db_tables (srv_pool ?s) = two_users" by (simp add: demo_server_def)
  have "\<forall>u\<in>set (users two_users). plain_avatar u"
    by (simp add: two_users_def bob_row_def plain_avatar_def)
  moreover have "CHR 0x00 \<in> set (stack_array healthy_env 257)"
    by (simp add: stack_array_def healthy_env_def image_constant_conv)
  ultimately have ready: "friends_ready plain_rules (env_mysql demo_env) (srv_pool ?s)"
    using demo_server_ready(1) by (simp add: friends_ready_def env tables)
  have users: "users_with_id two_users 2 = [(bob_row ''pw'')\<lparr>ur_user_id := 2, ur_username := ''eve''\<rparr>]"
    "users_with_id two_users 1 = [bob_row ''pw'']"
    by (simp_all add: two_users_def users_with_id_def user_id_of_def bob_row_def)
  have ids: "get_user_id 1 (srv_hub ?s) = 2" "get_user_id 0 (srv_hub ?s) = 1"
    by (simp_all add: demo_server_def chat_hub_def get_user_id_def)
  have "friend_names two_users 1 = []" "next_friend_row two_users < int_max" "\<forall>now fs. scan_order plain_rules now fs = fs"
    by (simp_all add: friend_names_def friend_entries_def friends_of_def two_users_def no_tables_def int_max_def
        plain_rules_def)
  then show ?thesis
    using friends_are_mutual [OF ready tables [symmetric] ids(1) _ _ users(1,2) _ ids(2) _ refl] by auto
qed

end
