(* ===== verification/Delivery.thy ===== *)
theory Delivery
  imports Request_Properties Chat_Client
begin

text \<open>
  From the server's \<open>send\<close> to the client's callbacks: the packets on the wire of a connection are
  the ones its client dispatches; everything that was sent is written after a bounded number of
  steps as long as no write fails; and after a write that failed nothing is written any more.
\<close>

section \<open>The client reads what the server sent\<close>

lemma server_output_packet:
  assumes "server_output d" and "length d < 4294967296"
  shows "\<exists>p. d = encode p \<and> sendable p"
proof -
  obtain p where p: "d = encode p" "canonical_command (pkt_command p)"
    using assms(1)
    by (auto simp: server_output_def is_answer_def notify_packet_def answer_command_def canonical_listed)
  then have "length (pkt_data p) < 4294967296" using assms(2) by (simp add: length_encode)
  then show ?thesis using p by (auto simp: sendable_def)
qed

lemma server_outputs_packets:
  assumes "\<forall>d\<in>set ds. server_output d \<and> length d < 4294967296"
  shows "\<exists>ps. ds = map encode ps \<and> (\<forall>p\<in>set ps. sendable p)"
  using assms
proof (induction ds)
  case (Cons d ds)
  then obtain p ps where "d = encode p" "sendable p" "ds = map encode ps" "\<forall>p\<in>set ps. sendable p"
    using server_output_packet [of d] by auto
  then show ?case by (intro exI [of _ "p # ps"]) simp
qed simp

text \<open>
  C5. Server and client agree on a session: in every reachable state of the server, a client with an
  empty buffer that receives the bytes written on a connection so far, in whatever pieces,
  dispatches exactly the packets whose bytes were written, in order and whole; the packets that
  were sent and not written yet are the ones in the write queue and the posted closures.
\<close>

theorem client_reads_what_was_sent:
  assumes "server_reachable env starts t n s" and "heap (srv_hub s) r = Some c"
    and "\<forall>d\<in>set (conn_sends c). length d < 4294967296"
    and "read_buffer cl = []" and "concat chunks = conn_wire c"
  shows "\<exists>ps qs. conn_sends c = map encode (ps @ qs) \<and> conn_wire c = concat (map encode ps) \<and>
    map encode qs = write_buffer c @ conn_posted c \<and>
    read_loop cl (map Received chunks) = map_option (\<lambda>cl. (cl\<lparr>read_buffer := []\<rparr>, False)) (dispatch_all ps cl)"
proof -
  obtain written where w: "conn_sends c = written @ write_buffer c @ conn_posted c" "conn_wire c = concat written"
    and out: "\<forall>d\<in>set (conn_sends c). server_output d"
    using reachable_conn_inv [OF assms(1,2)] by (auto simp: conn_inv_def)
  obtain ps where ps: "written = map encode ps" "\<forall>p\<in>set ps. sendable p"
    using server_outputs_packets [of written] out assms(3) w(1) by auto
  obtain qs where qs: "write_buffer c @ conn_posted c = map encode qs" "\<forall>p\<in>set qs. sendable p"
    using server_outputs_packets [of "write_buffer c @ conn_posted c"] out assms(3) w(1) by auto
  have "read_loop cl (map Received chunks) = map_option (\<lambda>cl. (cl\<lparr>read_buffer := []\<rparr>, False)) (dispatch_all ps cl)"
    by (rule read_loop_packets [OF ps(2) assms(4)]) (simp_all add: assms(5) w(2) ps(1))
  then show ?thesis using w ps qs by (intro exI [of _ ps] exI [of _ qs]) simp
qed

section \<open>Writing\<close>

lemma reachable_steps:
  "server_reachable env starts t n s \<Longrightarrow> (handled_step env starts ^^ k) s s' \<Longrightarrow> server_reachable env starts t n s'"
proof (induction k arbitrary: s')
  case (Suc k)
  then show ?case unfolding handled_step_def by (metis relpowp_Suc_E server_reachable.step)
qed simp

text \<open>A connection on which no write has failed, and the completions it still waits for.\<close>

definition flowing :: "connection \<Rightarrow> bool" where
  "flowing c \<longleftrightarrow> (conn_writing c \<longleftrightarrow> write_buffer c \<noteq> [])"

definition pending :: "connection \<Rightarrow> nat" where
  "pending c = 2 * length (conn_posted c) + length (write_buffer c)"

lemma pending_step:
  assumes "heap (srv_hub s) r = Some c" and "flowing c" and "pending c = Suc k"
  shows "\<exists>s' c'. handled_step env starts s s' \<and> heap (srv_hub s') r = Some c' \<and> flowing c' \<and>
    pending c' = k \<and> conn_sends c' = conn_sends c \<and> user_to_conn (srv_hub s') = user_to_conn (srv_hub s)"
proof (cases "conn_posted c")
  case Nil
  then obtain x xs where x: "write_buffer c = x # xs" using assms(3) by (cases "write_buffer c") (auto simp: pending_def)
  have "handled_step env starts s (on_hub (on_write True r) s)"
    using assms(1,2) x by (auto simp: handled_step_def flowing_def intro: server_step.write_ended)
  moreover have "heap (srv_hub (on_hub (on_write True r) s)) r = Some (write_done c)"
    using assms(1) by (simp add: on_hub_def on_write_def heap_update_conn)
  moreover have "user_to_conn (srv_hub (on_hub (on_write True r) s)) = user_to_conn (srv_hub s)"
    by (simp add: on_hub_def on_write_def)
  moreover have "flowing (write_done c) \<and> pending (write_done c) = k \<and> conn_sends (write_done c) = conn_sends c"
    using assms(3) x Nil by (auto simp: flowing_def pending_def do_write_def Let_def)
  ultimately show ?thesis by blast
next
  case (Cons d ds)
  have "handled_step env starts s (on_hub (run_posted r) s)"
    using assms(1) by (auto simp: handled_step_def intro: server_step.closure_run)
  moreover have "heap (srv_hub (on_hub (run_posted r) s)) r = Some (post_closure c)"
    using assms(1) by (simp add: on_hub_def run_posted_def heap_update_conn)
  moreover have "user_to_conn (srv_hub (on_hub (run_posted r) s)) = user_to_conn (srv_hub s)"
    by (simp add: on_hub_def run_posted_def)
  moreover have "flowing (post_closure c) \<and> pending (post_closure c) = k \<and> conn_sends (post_closure c) = conn_sends c"
    using assms(2,3) Cons by (auto simp: flowing_def pending_def do_write_def Let_def)
  ultimately show ?thesis by blast
qed

lemma pending_steps:
  assumes "heap (srv_hub s) r = Some c" and "flowing c"
  shows "\<exists>s' c'. (handled_step env starts ^^ pending c) s s' \<and> heap (srv_hub s') r = Some c' \<and> flowing c' \<and>
    pending c' = 0 \<and> conn_sends c' = conn_sends c \<and> user_to_conn (srv_hub s') = user_to_conn (srv_hub s)"
proof -
  have "\<exists>s' c'. (handled_step env starts ^^ k) s s' \<and> heap (srv_hub s') r = Some c' \<and> flowing c' \<and>
      pending c' = 0 \<and> conn_sends c' = conn_sends c \<and> user_to_conn (srv_hub s') = user_to_conn (srv_hub s)"
    if "heap (srv_hub s) r = Some c" "flowing c" "pending c = k" for k s c
    using that
  proof (induction k arbitrary: s c)
    case (Suc k)
    obtain s1 c1 where 1: "handled_step env starts s s1" "heap (srv_hub s1) r = Some c1" "flowing c1"
      "pending c1 = k" "conn_sends c1 = conn_sends c" "user_to_conn (srv_hub s1) = user_to_conn (srv_hub s)"
      using pending_step [OF Suc.prems] by blast
    from Suc.IH [OF 1(2-4)] 1(1,5,6) show ?case by (metis relpowp_Suc_I2)
  qed auto
  then show ?thesis using assms by blast
qed

text \<open>A connection with nothing pending has written all it was given.\<close>

lemma nothing_pending:
  assumes "server_reachable env starts t n s" and "heap (srv_hub s) r = Some c" and "pending c = 0"
  shows "conn_wire c = concat (conn_sends c)"
  using reachable_conn_inv [OF assms(1,2)] assms(3) by (auto simp: conn_inv_def pending_def)

text \<open>
  C17. Whatever was sent gets written: from every reachable state in which no write of a connection
  has failed, running its posted closures and completing its writes takes it, in exactly two steps
  for each closure and one for each queued buffer, to a state in which every byte passed to \<open>send\<close>
  is on the wire and nothing is pending.
\<close>

theorem everything_sent_is_written:
  assumes "server_reachable env starts t n s" and "heap (srv_hub s) r = Some c" and "flowing c"
  shows "\<exists>s' c'. (handled_step env starts ^^ pending c) s s' \<and> heap (srv_hub s') r = Some c' \<and>
    conn_sends c' = conn_sends c \<and> conn_wire c' = concat (conn_sends c) \<and>
    write_buffer c' = [] \<and> conn_posted c' = [] \<and> \<not> conn_writing c'"
proof -
  obtain s' c' where s': "(handled_step env starts ^^ pending c) s s'" "heap (srv_hub s') r = Some c'"
    "flowing c'" "pending c' = 0" "conn_sends c' = conn_sends c"
    using pending_steps [OF assms(2,3)] by blast
  have "conn_wire c' = concat (conn_sends c)"
    using nothing_pending [OF reachable_steps [OF assms(1) s'(1)] s'(2,4)] s'(5) by simp
  then show ?thesis using s' by (auto simp: flowing_def pending_def)
qed

section \<open>After a write that failed\<close>

definition stalled :: "bytes \<Rightarrow> connection \<Rightarrow> bool" where
  "stalled w c \<longleftrightarrow> \<not> conn_writing c \<and> write_buffer c \<noteq> [] \<and> conn_wire c = w"

interpretation stalled_conns: loop_relation "\<lambda>c c'. stalled w c \<longrightarrow> stalled w c'" for w
proof unfold_locales
  show "stalled w c \<longrightarrow> stalled w (post_closure c)" for c
    by (auto simp: stalled_def do_write_def Let_def split: list.split)
qed (auto simp: stalled_def with_send_def with_login_def)

text \<open>
  C34. A write that failed silences its connection for good: as its buffer stays in the queue, every
  later \<open>send\<close> takes a write to be in progress. Whatever the server does then, also when the client
  goes on to send requests that are served, no byte is written on the connection any more.
\<close>

theorem failed_write_silences:
  assumes "heap (srv_hub s) r = Some c" and "conn_writing c" and "write_buffer c \<noteq> []"
    and "(handled_step env starts)\<^sup>*\<^sup>* (on_hub (on_write False r) s) s'"
  shows "\<exists>c'. heap (srv_hub s') r = Some c' \<and> conn_wire c' = conn_wire c \<and> \<not> conn_writing c'"
proof -
  have "\<exists>c'. heap (srv_hub (on_hub (on_write False r) s)) r = Some c' \<and> stalled (conn_wire c) c'"
    using assms(1,3) by (simp add: on_hub_def on_write_def heap_update_conn stalled_def)
  with assms(4) have "\<exists>c'. heap (srv_hub s') r = Some c' \<and> stalled (conn_wire c) c'"
  proof (induction rule: rtranclp_induct)
    case (step s1 s2)
    then show ?case
      using stalled_conns.step_some [of env starts s1 Handled s2 r] by (force simp: handled_step_def)
  qed
  then show ?thesis by (auto simp: stalled_def)
qed

section \<open>Concrete runs\<close>

lemma version_answer_length: "length version_answer < 4294967296"
  by (simp add: version_answer_def length_encode encode_version_check_response_def text_lengths
      update_url_def update_desc_def)

theorem client_reads_what_was_sent_witness:
  "\<exists>ps. [version_answer] = map encode ps \<and> read_loop (new_client ''h'' 1) (map Received [version_answer])
     = map_option (\<lambda>cl. (cl\<lparr>read_buffer := []\<rparr>, False)) (dispatch_all ps (new_client ''h'' 1))"
proof -
  have pre: "read_buffer (new_client ''h'' 1) = []" "concat [version_answer] = version_answer"
    by (simp_all add: new_client_def)
  have fresh: "write_buffer (new_connection ''c0'') = []" "conn_posted (new_connection ''c0'') = []"
    by (simp_all add: new_connection_def)
  show ?thesis
    using client_reads_what_was_sent [OF demo_written_reachable _ pre(1), of "[version_answer]"]
      version_answer_length fresh pre(2) by fastforce
qed

theorem everything_sent_is_written_witness:
  "\<exists>s' c'. (handled_step demo_env True ^^ 2) demo_answered s' \<and> heap (srv_hub s') 0 = Some c' \<and>
     conn_wire c' = version_answer \<and> \<not> conn_writing c'"
proof -
  let ?c = "(new_connection ''c0'')\<lparr>header_buffer := version_header, body_buffer := [0, 0, 0, 1],
    conn_reading := Reading_header, conn_posted := [version_answer], conn_sends := [version_answer]\<rparr>"
  have "pending ?c = 2" "flowing ?c" "concat (conn_sends ?c) = version_answer"
    by (simp_all add: pending_def flowing_def new_connection_def)
  then show ?thesis
    using everything_sent_is_written [OF demo_answered_reachable demo_answered_conn(2)] by metis
qed

theorem failed_write_silences_witness:
  "\<exists>s' c'. (handled_step demo_env True)\<^sup>*\<^sup>* (on_hub (on_write False 0) demo_writing) s' \<and>
     heap (srv_hub s') 0 = Some c' \<and> conn_wire c' = [] \<and> conn_sends c' = [version_answer]"
proof -
  let ?s = "on_hub (on_write False 0) demo_writing"
  obtain c' where c': "heap (srv_hub ?s) 0 = Some c'" "conn_wire c' = []"
    using failed_write_silences [OF demo_writing_conn(2), where env = demo_env and starts = True and s' = ?s]
    by (auto simp: new_connection_def)
  have "conn_sends c' = [version_answer]"
    using c'(1) demo_writing_conn(2) by (auto simp: on_hub_def on_write_def heap_update_conn)
  then show ?thesis using c' by (intro exI [of _ ?s] exI [of _ c']) simp
qed

end
