(* ===== verification/Spec2Isabelle.thy ===== *)
theory Spec2Isabelle
  imports Codec_Roundtrip Chat_Client Database_Queries Cache_Manager Handler_Properties Server_Config Native_Bridge Friend_Requests Delivery
begin

text \<open>
  A verification library of QQChat: a chat server in C++ (server/) and the native part of its
  Android client (android/app/src/main/cpp/). All paths are below src/, and server files are in
  server/src/ or server/include/qqchat/.

  The program. \<open>main\<close> reads a configuration file, opens a pool of MySQL connections and a Redis
  connection and runs a \<open>ChatServer\<close>, an event loop of one thread. The loop accepts connections;
  each \<open>Connection\<close> reads a 7-byte header and then a body, hands the packet to the
  \<open>MessageHandler\<close>, and writes what the handlers send through a queue. The handlers ask the
  \<open>DatabasePool\<close> and the \<open>CacheManager\<close>, look users up in the tables of the \<open>ConnectionManager\<close>,
  answer on their own connection and notify the connection of another user. On the phone,
  \<open>ChatClient\<close> owns a socket and a worker thread that cuts the stream into packets and calls
  callbacks; native-lib.cpp connects it to the Java service under two mutexes.

  Where each part is modelled.
  \<^item> \<open>Qq_Prelude\<close>: machine types, bytes and characters, loads that may leave an array.
  \<^item> \<open>Wire_Types\<close>, \<open>Wire_Interface\<close>, \<open>Server_Codec\<close>: protocol_codec.hpp and .cpp of the server; the
    locales \<open>wire_field\<close> and \<open>wire_text\<close> are the contract of one writer and one reader of a field.
  \<^item> \<open>Client_Codec\<close>: the client's protocol_codec.hpp and .cpp, interpreting the same locales;
    \<open>Codec_Roundtrip\<close>: what one side writes the other reads, and what arbitrary bytes do.
  \<^item> \<open>Stream_Framing\<close>: the locale \<open>framing\<close>, cutting a byte stream into frames; \<open>Chat_Client\<close>:
    the fields, requests, dispatch and read loop of chat_client.hpp and .cpp, which interprets it;
    \<open>Client_Threads\<close>: \<open>connect\<close>, \<open>disconnect\<close> and the worker of chat_client.cpp, one step per access
    to a shared flag, interleaved by \<open>session_step\<close>; there the worker is shown to execute \<open>read_loop\<close>
    (\<open>worker_executes_read_loop\<close>) and a \<open>disconnect\<close> to end (\<open>disconnect_ends\<close>).
  \<^item> \<open>Native_Bridge\<close>: native-lib.cpp, each function as the list of its lock, effect and join actions,
    interleaved by \<open>phone_step\<close>; what it is about are the locks, so the worker connects, handles a
    packet or ends in one event of a few actions, where \<open>Client_Threads\<close> has the single accesses.
  \<^item> \<open>Sql_Tables\<close>: the schema of sql/init.sql and the statements of the program; \<open>Database_Pool\<close>:
    every method of database_pool.cpp; \<open>Account_Store\<close>: the locale \<open>account_store\<close>, a map from names
    to password hashes, interpreted by the methods of the pool; \<open>Database_Queries\<close>: what requests
    change in the tables and that the schema survives them, and the fixed buffers of the queries.
  \<^item> \<open>Cxx_Numbers\<close>: \<open>std::to_string\<close> and \<open>std::stoi\<close>; \<open>Cache_Manager\<close>: cache_manager.hpp and .cpp,
    with the locale \<open>cache_write\<close>, what a handler relies on when it writes to the cache;
    \<open>Server_Config\<close>: main.cpp.
  \<^item> \<open>Connection_Manager\<close>: connection_manager.hpp and .cpp; \<open>Message_Handler\<close>: message_handler.cpp;
    \<open>Chat_Server\<close>: chat_server.cpp, with \<open>server_step\<close> for the event loop.
  \<^item> \<open>Hub_Invariants\<close>: the locales \<open>conn_relation\<close> and \<open>loop_relation\<close>, what a handler and what a step
    of the loop may do to a connection, \<open>hub_property\<close>, what the tables of the manager keep under
    every step, and the invariants that are instances of them.
  \<^item> \<open>Server_Properties\<close>, \<open>Handler_Properties\<close>, \<open>Request_Properties\<close>, \<open>Friend_Requests\<close>,
    \<open>Delivery\<close>: what the server promises; this theory: whole round trips between two clients and the server.

  How state and errors correspond to the code. An object is a record with the fields of the class;
  connections are shared and live in a heap, the tables of the manager hold references into it. A
  C++ \<open>int\<close> is a word of 32 bits, a \<open>std::string\<close> a list of characters, a vector a list of bytes.
  A read outside an array, an exception that leaves a function, and a wait that never ends are
  results of their own (\<open>None\<close> in the codecs; \<open>Undefined\<close>, \<open>Aborted\<close>, \<open>Hangs\<close> of a handler; \<open>Overread\<close>
  and \<open>Blocks\<close> of the pool; \<open>Threw\<close> and \<open>Deadlock\<close> of the cache). Fields named as history
  (\<open>conn_wire\<close>, \<open>conn_sends\<close>, \<open>conn_logins\<close>, \<open>sent\<close>, \<open>calls\<close>) record what happened and are read by no
  operation.

  What is a parameter. libmysqlclient and the MySQL server are \<open>mysql_env\<close>; theorems
  that need a meaning of SQL assume that it follows \<open>Sql_Tables\<close>, where the order of
  rows that no \<open>ORDER BY\<close> fixes is a parameter of its own (\<open>scan_order\<close>).
  hiredis and Redis are \<open>redis_env\<close>, the wall clock is \<open>env_now\<close>, the JVM
  is \<open>jvm\<close>, the process environment of \<open>main\<close> is \<open>platform\<close>,
  results of the socket API are arguments of the client's functions and of its worker's steps. The
  id of a connection is chosen freely when it is accepted: nothing in the code keeps two connections
  from having the same. Boost.Asio is the freedom of \<open>server_step\<close>: it chooses which
  pending operation completes next, with which bytes or error. Two flags separate the program as it
  is from a repaired one: \<open>starts\<close>, whether anything calls
  \<open>Connection::start\<close> (nothing does), and \<open>reentrant\<close>, whether
  \<open>g_mutex\<close> may be locked twice by a thread (it may not). What is proved for
  \<open>starts\<close> arbitrary holds of both.

  Loops. No definition of the program uses fuel. The loops over a buffer
  (\<open>split_frames\<close>, \<open>drain\<close>, \<open>deliver\<close>) end because the buffer
  gets shorter, the loops over a list or a count are structural; the wait of an empty pool is a
  result and not a loop. The event loop is a relation, and what it is able to reach is stated with a
  number of steps (\<open>everything_sent_is_written\<close>).

  What the properties show: round trips end to end (C1, C2); the framing and the two halves of a
  stream (C3 to C6, C18); who gets what (C7 to C13); the database behind it (C14 to C16); that
  everything sent is written (C17); the way to Java (C19); bodies and configuration (C20 to C25);
  the client's and the cache's invariants (C26, C27); and what the program does wrong, as theorems
  about the code as it is (C28 to C40).

  Not modelled. Log lines go to the standard output and decide nothing. The Java user interface, the
  Gradle and CMake files and the scripts are not C++ code. Time-outs, memory exhaustion and the
  destruction of objects at the end of \<open>main\<close> are left out. Static destructors and
  thread creation that fails are left out. MySQL's character sets enter as the collation key and the
  column limits of \<open>sql_rules\<close>.

  Where the model is simpler than the machine. A \<open>recv\<close> that is blocked when its socket is closed may
  end in any way the kernel likes, and \<open>disconnect\<close> waits that long. Accesses to \<open>socket_fd_\<close>, a plain
  int that two threads use, interleave without tearing. An \<open>INSERT\<close> that is refused leaves
  \<open>AUTO_INCREMENT\<close> alone, where InnoDB may consume a value: then ids have gaps, which no property
  excludes but the ones that name the next id. All uninitialised arrays on the stack hold the same
  bytes \<open>stack_junk\<close>, whatever these are. The \<open>va_list\<close> that \<open>safe_command\<close> hands to \<open>redisCommand\<close> is
  undefined behaviour; the model has the malformed command and lets Redis answer it.
\<close>

section \<open>From one client to the other\<close>

definition arrived :: "nat \<Rightarrow> packet \<Rightarrow> server \<Rightarrow> server" where
  "arrived r p s = on_hub (on_body_read (pkt_data p) r)
     (on_hub (on_header (Some (take HEADER_SIZE (encode p))) r) s)"

lemma arrived_state:
  assumes "served_packet p"
  shows "srv_pool (arrived r p s) = srv_pool s" "srv_cache (arrived r p s) = srv_cache s"
    "srv_clock (arrived r p s) = srv_clock s"
    "srv_hub (arrived r p s) = update_conn r (\<lambda>c. c\<lparr>header_buffer := take HEADER_SIZE (encode p),
       conn_reading := No_read, body_buffer := pkt_data p\<rparr>) (srv_hub s)"
proof -
  have len: "0 < length (pkt_data p)" "length (pkt_data p) < 1048576"
    using assms by (simp_all add: served_packet_def)
  then have "unat (word_of_nat (length (pkt_data p)) :: u32) = length (pkt_data p)"
    by (simp add: unat_of_nat_u32)
  then have "(0 :: u32) < word_of_nat (length (pkt_data p))" "(word_of_nat (length (pkt_data p)) :: u32) < 1024 * 1024"
    using len by (simp_all add: word_less_nat_alt)
  then show "srv_hub (arrived r p s) = update_conn r (\<lambda>c. c\<lparr>header_buffer := take HEADER_SIZE (encode p),
       conn_reading := No_read, body_buffer := pkt_data p\<rparr>) (srv_hub s)"
    by (cases "heap (srv_hub s) r")
      (simp_all add: arrived_def on_hub_def on_header_def header_of_encode(1) [OF assms] on_body_read_def
        do_read_body_def update_conn_def Let_def)
qed (simp_all add: arrived_def on_hub_def)

text \<open>One request on an idle connection: its handler runs, and the connection reads on.\<close>

lemma deliver_request:
  assumes "heap (srv_hub s) r = Some c" and "conn_reading c = Reading_header" and "served_packet p"
    and "handle_message env r p (arrived r p s) = (Handled, s1)"
  shows "deliver env r (encode p) s = (Handled, on_hub (do_read_header r) s1)"
proof -
  have "deliver env r [] s2 = (Handled, s2)" for s2
    by (subst deliver.simps) (simp add: HEADER_SIZE_def split: option.split)
  then show ?thesis
    using deliver_packet [OF assms(1-3), of env "[]"] assms(4) by (simp add: arrived_def)
qed

lemma login_request_packet:
  assumes "length name < 65536" and "length password < 65536"
  shows "\<exists>body. cl_encode_login_request name password
      = encode \<lparr>pkt_version = VERSION, pkt_command = LOGIN_REQ, pkt_data = body\<rparr> \<and>
    served_packet \<lparr>pkt_version = VERSION, pkt_command = LOGIN_REQ, pkt_data = body\<rparr> \<and>
    decode_login_request body = Some (Decoded \<lparr>lreq_username = name, lreq_password = password\<rparr>)"
  using assms
  by (intro exI [of _ "write_string (write_string [] name) password"])
    (simp add: cl_encode_login_request_def cl_encode_eq cl_prim_eqs login_body served_packet_def text_lengths)

text \<open>An idle connection that got one more packet writes it in two steps.\<close>

lemma two_steps_write:
  assumes "server_reachable env starts t n s" and "heap (srv_hub s) r = Some c" and "flowing c"
    and "pending c = 2" and "conn_sends c = ds @ [d]"
  shows "\<exists>s' c'. (handled_step env starts ^^ 2) s s' \<and> heap (srv_hub s') r = Some c' \<and>
    conn_wire c' = concat ds @ d \<and> user_to_conn (srv_hub s') = user_to_conn (srv_hub s)"
proof -
  obtain s' c' where s': "(handled_step env starts ^^ 2) s s'" "heap (srv_hub s') r = Some c'"
    "pending c' = 0" "conn_sends c' = ds @ [d]" "user_to_conn (srv_hub s') = user_to_conn (srv_hub s)"
    using pending_steps [OF assms(2,3), of env starts] assms(4,5) by auto
  with nothing_pending [OF reachable_steps [OF assms(1) s'(1)] s'(2,3)] show ?thesis by auto
qed

text \<open>
  \<open>gained w d d1\<close>: the connection was given the packet \<open>w\<close> to send, and nothing else. A request
  that makes an idle connection gain a packet brings it onto the wire of that connection.
\<close>

definition gained :: "bytes \<Rightarrow> connection \<Rightarrow> connection \<Rightarrow> bool" where
  "gained w d d1 \<longleftrightarrow> conn_posted d1 = conn_posted d @ [w] \<and> conn_sends d1 = conn_sends d @ [w] \<and>
     write_buffer d1 = write_buffer d \<and> conn_writing d1 = conn_writing d"

lemma request_reaches_wire:
  assumes "server_reachable env starts t n s" and "heap (srv_hub s) r = Some c"
    and "conn_reading c = Reading_header" and "served_packet p"
    and "handle_message env r p (arrived r p s) = (Handled, s1)"
    and "heap (srv_hub s) q = Some d" and "flowing d" and "pending d = 0"
    and "heap (srv_hub s1) q = Some d1" and "gained w d d1"
  shows "\<exists>s2 d2. (handled_step env starts ^^ 2) (on_hub (do_read_header r) s1) s2 \<and>
    heap (srv_hub s2) q = Some d2 \<and> conn_wire d2 = conn_wire d @ w \<and>
    user_to_conn (srv_hub s2) = user_to_conn (srv_hub s1)"
proof -
  let ?s1 = "on_hub (do_read_header r) s1"
  have d: "deliver env r (encode p) s = (Handled, ?s1)"
    by (rule deliver_request [OF assms(2-5)])
  have "\<exists>d2. heap (srv_hub ?s1) q = Some d2 \<and> gained w d d2"
    using assms(9,10) by (cases "q = r") (simp_all add: on_hub_def do_read_header_def heap_update_conn gained_def)
  then obtain d2 where d2: "heap (srv_hub ?s1) q = Some d2" "gained w d d2" by blast
  obtain s2 d3 where "(handled_step env starts ^^ 2) ?s1 s2" "heap (srv_hub s2) q = Some d3"
    "conn_wire d3 = concat (conn_sends d) @ w" "user_to_conn (srv_hub s2) = user_to_conn (srv_hub ?s1)"
    using two_steps_write [OF deliver_reachable [OF assms(1) d] d2(1), of "conn_sends d" w] assms(7,8) d2(2)
    by (auto simp: flowing_def pending_def gained_def)
  then show ?thesis
    using nothing_pending [OF assms(1,6,8)] by (auto simp: on_hub_def do_read_header_def)
qed

section \<open>A login\<close>

text \<open>What a login must answer: an error, or the id and the name of the account.\<close>

definition login_result :: "sql_rules \<Rightarrow> server_env \<Rightarrow> server \<Rightarrow> string \<Rightarrow> string \<Rightarrow> error_code \<times> i32 \<times> string" where
  "login_result ru env s name password =
     (case account_of ru (db_tables (srv_pool s)) name of
        None \<Rightarrow> (USER_NOT_FOUND, 0, [])
      | Some u \<Rightarrow>
          if ur_password_hash u \<noteq> mh_sha256 env password then (USER_NOT_FOUND, 0, [])
          else if is_user_online (user_id_of u) (srv_hub s) then (USER_ALREADY_ONLINE, 0, [])
          else (SUCCESS, user_id_of u, ur_username u))"

lemma login_result_name:
  assumes "account_ready ru (env_mysql env) (srv_pool s)" and "login_result ru env s name password = (e, uid, m)"
  shows "length m < 65536"
  using account_of_cases [OF assms(1), of name] assms(2)
  by (cases rule: account_of_cases [OF assms(1), of name])
    (auto simp: login_result_def plain_user_def plain_text_def split: if_splits)

lemma login_request_runs:
  assumes "account_ready ru (env_mysql env) (srv_pool s)" and "\<not> cache_locked (srv_cache s)"
    and "heap (srv_hub s) r = Some c"
    and "login_result ru env s (lreq_username req) (lreq_password req) = (e, uid, m)"
  obtains s' c' where "handle_login env r req s = (Handled, s')" "heap (srv_hub s') r = Some c'"
    "gained (login_response_packet e uid m) c c'"
    "e = SUCCESS \<Longrightarrow> user_to_conn (srv_hub s') uid = Some (conn_id c)"
proof -
  obtain s' h where s': "handle_login env r req s = (Handled, s')"
    "srv_hub s' = conn_send r (login_response_packet e uid m) h"
    and h: "h = (if e = SUCCESS then hub_login r uid (srv_hub s) else srv_hub s)"
    by (rule login_runs [OF assms(1,2), of r req])
      (use assms(4) in \<open>auto simp: login_result_def split: option.splits if_splits\<close>)
  define c1 where "c1 = (if e = SUCCESS then with_login uid c else c)"
  note ops = conn_ops heap_update_conn hub_login_def set_user_connection_def get_id_def
  have heap: "heap (srv_hub s') r = Some (with_send (login_response_packet e uid m) c1)"
    using assms(3) by (simp add: s'(2) h c1_def ops)
  have "e = SUCCESS \<Longrightarrow> user_to_conn (srv_hub s') uid = Some (conn_id c)"
    using assms(3) by (simp add: s'(2) h ops)
  then show thesis
    by (intro that [OF s'(1) heap]) (simp_all add: c1_def with_send_def with_login_def gained_def)
qed

lemma login_callback_reached:
  assumes "length m < 65536" and "read_buffer cl = []" and "login_callback cl"
    and "concat chunks = login_response_packet e uid m"
  shows "read_loop cl (map Received chunks)
    = Some (cl\<lparr>calls := calls cl @ [Login_callback (ucast (error_u16 e)) uid m]\<rparr>, False)"
proof -
  let ?p = "\<lparr>pkt_version = VERSION, pkt_command = LOGIN_RESP, pkt_data = encode_login_response
       \<lparr>lresp_error_code = e, lresp_user_id = uid, lresp_username = m\<rparr>\<rparr>"
  have "dispatch_all [?p] cl = Some (cl\<lparr>calls := calls cl @ [Login_callback (ucast (error_u16 e)) uid m]\<rparr>)"
    using assms(1,3) by (simp add: dispatch_def login_response_body error_int_def invoke_def)
  moreover have "\<forall>p\<in>set [?p]. sendable p"
    using assms(1) by (simp add: sendable_def encode_login_response_def text_lengths)
  ultimately show ?thesis
    using read_loop_packets [of "[?p]" cl chunks "[]"] assms(2,4) by (simp add: login_response_packet_def)
qed

text \<open>
  C2. A login, end to end: on an idle connection of any reachable server, the bytes the client's
  \<open>login\<close> sends are decoded and decided by the server, its answer is written in two steps, and in
  whatever pieces it arrives the client calls its login callback once, with the server's error
  code, or with the id and the name of the account; after a success the server knows the user
  by this connection.
\<close>

theorem login_end_to_end:
  assumes "server_reachable env starts t n s" and "heap (srv_hub s) r = Some c"
    and "conn_reading c = Reading_header" and "flowing c" and "pending c = 0"
    and "account_ready ru (env_mysql env) (srv_pool s)" and "\<not> cache_locked (srv_cache s)"
    and "length name < 65536" and "length password < 65536"
    and "socket_fd cl \<noteq> - 1" and "read_buffer cl = []"
    and "login_result ru env s name password = (e, uid, m)"
  shows "\<exists>req s1 s2 c2 answer. sent (login name password True cl) = sent cl @ [req] \<and>
    deliver env r req s = (Handled, s1) \<and> (handled_step env starts ^^ 2) s1 s2 \<and>
    heap (srv_hub s2) r = Some c2 \<and> conn_wire c2 = conn_wire c @ answer \<and>
    (\<forall>chunks. concat chunks = answer \<longrightarrow> read_loop (login name password True cl) (map Received chunks)
       = Some ((login name password True cl)\<lparr>calls := calls cl @ [Login_callback (ucast (error_u16 e)) uid m]\<rparr>, False)) \<and>
    (e = SUCCESS \<longrightarrow> user_to_conn (srv_hub s2) uid = Some (conn_id c))"
proof -
  let ?cl = "login name password True cl" and ?w = "login_response_packet e uid m"
  let ?req = "\<lparr>lreq_username = name, lreq_password = password\<rparr>"
  obtain body where body: "cl_encode_login_request name password
      = encode \<lparr>pkt_version = VERSION, pkt_command = LOGIN_REQ, pkt_data = body\<rparr>"
    and served: "served_packet \<lparr>pkt_version = VERSION, pkt_command = LOGIN_REQ, pkt_data = body\<rparr>"
    and dec: "decode_login_request body = Some (Decoded ?req)"
    using login_request_packet [OF assms(8,9)] by blast
  let ?p = "\<lparr>pkt_version = VERSION, pkt_command = LOGIN_REQ, pkt_data = body\<rparr>"
  let ?s = "arrived r ?p s"
  note arr = arrived_state [OF served, of r s]
  have ready: "account_ready ru (env_mysql env) (srv_pool ?s)" "\<not> cache_locked (srv_cache ?s)"
    using assms(6,7) by (simp_all add: arr)
  have res: "login_result ru env ?s (lreq_username ?req) (lreq_password ?req) = (e, uid, m)"
    using assms(12) by (simp add: login_result_def arr is_user_online_def cong: option.case_cong if_cong)
  have heap: "heap (srv_hub ?s) r = Some (c\<lparr>header_buffer := take HEADER_SIZE (encode ?p),
      conn_reading := No_read, body_buffer := body\<rparr>)"
    using assms(2) by (simp add: arr heap_update_conn)
  obtain s1 c1 where s1: "handle_login env r ?req ?s = (Handled, s1)" "heap (srv_hub s1) r = Some c1"
    and c1: "gained ?w c c1" and user: "e = SUCCESS \<Longrightarrow> user_to_conn (srv_hub s1) uid = Some (conn_id c)"
    by (rule login_request_runs [OF ready heap res]) (simp_all add: gained_def)
  have m: "handle_message env r ?p ?s = (Handled, s1)"
    using s1(1) by (simp add: handle_message_def on_decoded_def dec)
  have "deliver env r (cl_encode_login_request name password) s = (Handled, on_hub (do_read_header r) s1)"
    unfolding body by (rule deliver_request [OF assms(2,3) served m])
  moreover obtain s2 c2 where "(handled_step env starts ^^ 2) (on_hub (do_read_header r) s1) s2"
    "heap (srv_hub s2) r = Some c2" "conn_wire c2 = conn_wire c @ ?w"
    "e = SUCCESS \<Longrightarrow> user_to_conn (srv_hub s2) uid = Some (conn_id c)"
    using request_reaches_wire [OF assms(1-3) served m assms(2,4,5) s1(2) c1] user by auto
  moreover have "read_loop ?cl (map Received chunks)
      = Some (?cl\<lparr>calls := calls cl @ [Login_callback (ucast (error_u16 e)) uid m]\<rparr>, False)"
    if "concat chunks = ?w" for chunks
    using login_callback_reached [OF login_result_name [OF assms(6,12)], of ?cl chunks e uid] that assms(11)
    by (simp add: login_def send_packet_def)
  moreover have "sent ?cl = sent cl @ [cl_encode_login_request name password]"
    using assms(10) by (simp add: login_def send_packet_def)
  ultimately show ?thesis by blast
qed

theorem login_end_to_end_witness:
  "\<exists>s1 s2 c2 answer. deliver demo_env 0 (cl_encode_login_request ''bob'' ''pw'') (demo_started bob_tables) = (Handled, s1) \<and>
     (handled_step demo_env True ^^ 2) s1 s2 \<and> heap (srv_hub s2) 0 = Some c2 \<and> conn_wire c2 = answer \<and>
     read_loop (login ''bob'' ''pw'' True ((new_client ''h'' 1)\<lparr>socket_fd := 5\<rparr>)) [Received answer]
       = Some ((login ''bob'' ''pw'' True ((new_client ''h'' 1)\<lparr>socket_fd := 5\<rparr>))
           \<lparr>calls := [Login_callback 0 1 ''bob'']\<rparr>, False)"
proof -
  let ?s = "demo_started bob_tables" and ?c = "(new_connection ''c0'')\<lparr>conn_reading := Reading_header\<rparr>"
  let ?cl = "(new_client ''h'' 1)\<lparr>socket_fd := 5\<rparr>"
  have env: "env_mysql demo_env = healthy_env" by (simp add: demo_env_def)
  have idle: "heap (srv_hub ?s) 0 = Some ?c" "conn_reading ?c = Reading_header" "flowing ?c" "pending ?c = 0"
    "conn_wire ?c = []"
    by (simp_all add: demo_started_sel flowing_def pending_def new_connection_def)
  have res: "login_result plain_rules demo_env ?s ''bob'' ''pw'' = (SUCCESS, 1, ''bob'')"
    by (simp add: login_result_def demo_started_sel bob_account mh_sha256 env is_user_online_def)
      (simp add: bob_row_def user_id_of_def)
  have cl: "socket_fd ?cl \<noteq> - 1" "read_buffer ?cl = []" "calls ?cl = []" "sent ?cl = []"
    by (simp_all add: new_client_def)
  have sent: "sent (login ''bob'' ''pw'' True ?cl) = [cl_encode_login_request ''bob'' ''pw'']"
    using cl by (simp add: login_def send_packet_def)
  have ready: "account_ready plain_rules (env_mysql demo_env) (srv_pool ?s)" "\<not> cache_locked (srv_cache ?s)"
    using bob_tables_ready by (simp_all add: env demo_started_sel)
  obtain req s1 s2 c2 answer where *: "sent (login ''bob'' ''pw'' True ?cl) = sent ?cl @ [req]"
    "deliver demo_env 0 req ?s = (Handled, s1)" "(handled_step demo_env True ^^ 2) s1 s2"
    "heap (srv_hub s2) 0 = Some c2" "conn_wire c2 = conn_wire ?c @ answer"
    "\<forall>chunks. concat chunks = answer \<longrightarrow> read_loop (login ''bob'' ''pw'' True ?cl) (map Received chunks)
       = Some ((login ''bob'' ''pw'' True ?cl)\<lparr>calls := calls ?cl @ [Login_callback (ucast (error_u16 SUCCESS)) 1 ''bob'']\<rparr>, False)"
    using login_end_to_end [OF demo_started_reachable idle(1-4) ready _ _ cl(1,2) res] by auto
  have "read_loop (login ''bob'' ''pw'' True ?cl) (map Received [answer])
       = Some ((login ''bob'' ''pw'' True ?cl)\<lparr>calls := [Login_callback 0 1 ''bob'']\<rparr>, False)"
    using *(6) [rule_format, of "[answer]"] cl(3) by (simp del: read_loop.simps)
  moreover have "req = cl_encode_login_request ''bob'' ''pw''" using *(1) sent cl(4) by simp
  ultimately show ?thesis using * idle(5) by auto
qed

section \<open>A chat message\<close>

lemma message_request_packet:
  assumes "length content < 1048000"
  shows "\<exists>body. cl_encode_message_request i content
      = encode \<lparr>pkt_version = VERSION, pkt_command = MESSAGE_REQ, pkt_data = body\<rparr> \<and>
    served_packet \<lparr>pkt_version = VERSION, pkt_command = MESSAGE_REQ, pkt_data = body\<rparr> \<and>
    decode_message_request body = Some (Decoded \<lparr>mreq_to_id = i, mreq_content = content\<rparr>)"
proof -
  let ?body = "write_uint32 (write_int32 [] i) (word_of_nat (length content)) @ str_bytes content"
  have "length ?body = 8 + length content" by (simp add: text_lengths write_flat)
  then have "served_packet \<lparr>pkt_version = VERSION, pkt_command = MESSAGE_REQ, pkt_data = ?body\<rparr>"
    using assms by (simp add: served_packet_def)
  then show ?thesis
    using assms message_body [of content i]
    by (intro exI [of _ ?body]) (simp add: cl_encode_message_request_def cl_encode_eq cl_prim_eqs)
qed

lemma message_callback_reached:
  assumes "length content < 1048000" and "read_buffer cl = []" and "message_callback cl"
    and "concat chunks = notify_packet u content ts"
  shows "read_loop cl (map Received chunks)
    = Some (cl\<lparr>calls := calls cl @ [Message_callback u content ts]\<rparr>, False)"
proof -
  let ?n = "\<lparr>mn_from_id = u, mn_content = content, mn_timestamp = ts\<rparr>"
  let ?p = "\<lparr>pkt_version = VERSION, pkt_command = MESSAGE_NOTIFY, pkt_data = encode_message_notify ?n\<rparr>"
  have "dispatch_all [?p] cl = Some (cl\<lparr>calls := calls cl @ [Message_callback u content ts]\<rparr>)"
    using dispatch_notifications [of "[?n]" cl] assms(1,3) by simp
  moreover have "\<forall>p\<in>set [?p]. sendable p"
    using assms(1) by (simp add: sendable_def encode_message_notify_def text_lengths)
  ultimately show ?thesis
    using read_loop_packets [of "[?p]" cl chunks "[]"] assms(2,4) by (simp add: notify_packet_def)
qed

text \<open>
  C1. A chat message, end to end: when a logged-in user's client sends a message to a user who is
  online on another, idle connection, the server stores it under the sender's id, and in two steps
  the addressee's connection has written one packet that, in whatever pieces it arrives, makes the
  addressee's client call its message callback once, with the sender's id, the text and the
  server's time.
\<close>

theorem message_end_to_end:
  assumes "server_reachable env starts t n s" and "heap (srv_hub s) r = Some c"
    and "conn_reading c = Reading_header" and "conn_user_id c = u" and "u \<noteq> 0"
    and "user_to_conn (srv_hub s) i = Some j" and "conn_table (srv_hub s) j = Some q" and "q \<noteq> r"
    and "heap (srv_hub s) q = Some d" and "flowing d" and "pending d = 0"
    and "account_ready ru (env_mysql env) (srv_pool s)"
    and "insert_message ru (db_clock (srv_pool s) + 4) u i content (db_tables (srv_pool s)) = Some (rs, k, t')"
    and "length content < 1048000" and "socket_fd sender \<noteq> - 1"
    and "read_buffer receiver = []" and "message_callback receiver"
  shows "\<exists>req s1 s2 d2 packet. sent (send_message i content sender) = sent sender @ [req] \<and>
    deliver env r req s = (Handled, s1) \<and>
    (\<exists>row. messages (db_tables (srv_pool s1)) = messages (db_tables (srv_pool s)) @ [row] \<and>
       mr_from_id row = u \<and> mr_to_id row = i \<and> mr_content row = content) \<and>
    (handled_step env starts ^^ 2) s1 s2 \<and> heap (srv_hub s2) q = Some d2 \<and> conn_wire d2 = conn_wire d @ packet \<and>
    (\<forall>chunks. concat chunks = packet \<longrightarrow> read_loop receiver (map Received chunks)
       = Some (receiver\<lparr>calls := calls receiver @ [Message_callback u content (env_now env (srv_clock s))]\<rparr>, False))"
proof -
  let ?w = "notify_packet u content (env_now env (srv_clock s))"
  obtain body where body: "cl_encode_message_request i content
      = encode \<lparr>pkt_version = VERSION, pkt_command = MESSAGE_REQ, pkt_data = body\<rparr>"
    and served: "served_packet \<lparr>pkt_version = VERSION, pkt_command = MESSAGE_REQ, pkt_data = body\<rparr>"
    and dec: "decode_message_request body = Some (Decoded \<lparr>mreq_to_id = i, mreq_content = content\<rparr>)"
    using message_request_packet [OF assms(14)] by blast
  let ?p = "\<lparr>pkt_version = VERSION, pkt_command = MESSAGE_REQ, pkt_data = body\<rparr>"
  let ?s = "arrived r ?p s"
  note arr = arrived_state [OF served, of r s]
  have pre: "account_ready ru (env_mysql env) (srv_pool ?s)" "get_user_id r (srv_hub ?s) = u"
    "insert_message ru (db_clock (srv_pool ?s) + 4) u i content (db_tables (srv_pool ?s)) = Some (rs, k, t')"
    "is_user_online i (srv_hub ?s)"
    using assms(2,4,6,12,13) by (simp_all add: arr get_user_id_def heap_update_conn is_user_online_def)
  have to: "send_to_user i ?w (srv_hub ?s) = (True, conn_send q ?w (srv_hub ?s))"
    using assms(6,7) by (simp add: arr send_to_user_def)
  obtain s1 where m: "handle_message env r ?p ?s = (Handled, s1)"
    and s1: "srv_hub s1 = conn_send r (chat_response_packet SUCCESS (word_of_nat k)) (conn_send q ?w (srv_hub ?s))"
      "db_tables (srv_pool s1) = t'"
    using chat_online_runs [OF pre(1,2) assms(5) pre(3,4)] to
    by (simp add: handle_message_def on_decoded_def dec arr(3))
  have q: "heap (srv_hub s1) q = Some (with_send ?w d)" "gained ?w d (with_send ?w d)"
    using assms(8,9) by (simp_all add: s1 arr conn_ops heap_update_conn gained_def with_send_def)
  have "deliver env r (cl_encode_message_request i content) s = (Handled, on_hub (do_read_header r) s1)"
    unfolding body by (rule deliver_request [OF assms(2,3) served m])
  moreover have "\<exists>row. messages (db_tables (srv_pool (on_hub (do_read_header r) s1)))
      = messages (db_tables (srv_pool s)) @ [row] \<and> mr_from_id row = u \<and> mr_to_id row = i \<and> mr_content row = content"
    using assms(13) by (auto simp: on_hub_def s1(2) insert_message_def split: if_splits)
  moreover obtain s2 d2 where "(handled_step env starts ^^ 2) (on_hub (do_read_header r) s1) s2"
    "heap (srv_hub s2) q = Some d2" "conn_wire d2 = conn_wire d @ ?w"
    using request_reaches_wire [OF assms(1-3) served m assms(9-11) q] by blast
  moreover have "read_loop receiver (map Received chunks)
      = Some (receiver\<lparr>calls := calls receiver @ [Message_callback u content (env_now env (srv_clock s))]\<rparr>, False)"
    if "concat chunks = ?w" for chunks
    by (rule message_callback_reached [OF assms(14,16,17) that])
  moreover have "sent (send_message i content sender) = sent sender @ [cl_encode_message_request i content]"
    using assms(15) by (simp add: send_message_def send_packet_def)
  ultimately show ?thesis by blast
qed

section \<open>Two clients of one server\<close>

text \<open>A login with its two steps of writing, for the states below.\<close>

lemma login_session:
  assumes "server_reachable env True t n s" and "heap (srv_hub s) r = Some c"
    and "conn_reading c = Reading_header" and "flowing c" and "pending c = 0"
    and "account_ready ru (env_mysql env) (srv_pool s)" and "\<not> cache_locked (srv_cache s)"
    and "length name < 65536" and "length password < 65536"
    and "login_result ru env s name password = (SUCCESS, uid, m)"
  shows "\<exists>s2 c2. server_reachable env True t n s2 \<and> heap (srv_hub s2) r = Some c2 \<and>
    conn_reading c2 = Reading_header \<and> flowing c2 \<and> pending c2 = 0 \<and> conn_user_id c2 = uid \<and> conn_id c2 = conn_id c \<and>
    (\<forall>q. q \<noteq> r \<longrightarrow> heap (srv_hub s2) q = heap (srv_hub s) q) \<and> conn_table (srv_hub s2) = conn_table (srv_hub s) \<and>
    user_to_conn (srv_hub s2) = (user_to_conn (srv_hub s))(uid \<mapsto> conn_id c) \<and>
    account_ready ru (env_mysql env) (srv_pool s2) \<and> \<not> cache_locked (srv_cache s2) \<and>
    db_tables (srv_pool s2) = db_tables (srv_pool s)"
proof -
  let ?req = "\<lparr>lreq_username = name, lreq_password = password\<rparr>" and ?w = "login_response_packet SUCCESS uid m"
  obtain body where body: "cl_encode_login_request name password
      = encode \<lparr>pkt_version = VERSION, pkt_command = LOGIN_REQ, pkt_data = body\<rparr>"
    and served: "served_packet \<lparr>pkt_version = VERSION, pkt_command = LOGIN_REQ, pkt_data = body\<rparr>"
    and dec: "decode_login_request body = Some (Decoded ?req)"
    using login_request_packet [OF assms(8,9)] by blast
  let ?p = "\<lparr>pkt_version = VERSION, pkt_command = LOGIN_REQ, pkt_data = body\<rparr>"
  let ?s = "arrived r ?p s"
  note arr = arrived_state [OF served, of r s]
  have ready: "account_ready ru (env_mysql env) (srv_pool ?s)" "\<not> cache_locked (srv_cache ?s)"
    using assms(6,7) by (simp_all add: arr)
  have res: "login_result ru env ?s name password = (SUCCESS, uid, m)"
    using assms(10) by (simp add: login_result_def arr is_user_online_def cong: option.case_cong if_cong)
  obtain s1 where s1: "handle_login env r ?req ?s = (Handled, s1)" "account_ready ru (env_mysql env) (srv_pool s1)"
    "\<not> cache_locked (srv_cache s1)" "db_tables (srv_pool s1) = db_tables (srv_pool s)"
    and hub: "srv_hub s1 = conn_send r ?w (hub_login r uid (srv_hub ?s))"
    by (rule login_runs [OF ready, of r ?req])
      (use res in \<open>auto simp: login_result_def arr split: option.splits if_splits\<close>)
  let ?s1 = "on_hub (do_read_header r) s1"
  let ?s2 = "on_hub (run_posted r) ?s1" let ?s3 = "on_hub (on_write True r) ?s2"
  have m: "handle_message env r ?p ?s = (Handled, s1)"
    using s1(1) by (simp add: handle_message_def on_decoded_def dec)
  note r1 = deliver_reachable [OF assms(1) deliver_request [OF assms(2,3) served m]]
  note ops = on_hub_def do_read_header_def hub conn_ops hub_login_def set_user_connection_def get_id_def
    arr heap_update_conn run_posted_def on_write_def
  have idle: "conn_posted c = []" "write_buffer c = []" "\<not> conn_writing c"
    using assms(4,5) by (auto simp: flowing_def pending_def)
  obtain c1 where c1: "heap (srv_hub ?s1) r = Some c1" "conn_posted c1 = [?w]" "write_buffer c1 = []"
    "conn_reading c1 = Reading_header" "conn_user_id c1 = uid" "conn_id c1 = conn_id c"
    using assms(2) idle by (simp add: ops with_send_def with_login_def)
  have c2: "heap (srv_hub ?s2) r = Some (post_closure c1)" "conn_writing (post_closure c1)"
    using c1 by (simp_all add: on_hub_def run_posted_def heap_update_conn do_write_def)
  have "heap (srv_hub ?s3) r = Some (write_done (post_closure c1))"
    using c2(1) by (simp add: on_hub_def on_write_def heap_update_conn del: write_done.simps post_closure.simps)
  moreover have "conn_reading (write_done (post_closure c1)) = Reading_header \<and> flowing (write_done (post_closure c1)) \<and>
      pending (write_done (post_closure c1)) = 0 \<and> conn_user_id (write_done (post_closure c1)) = uid \<and>
      conn_id (write_done (post_closure c1)) = conn_id c"
    using c1 by (simp add: do_write_def flowing_def pending_def)
  moreover have "server_reachable env True t n ?s3"
    by (rule server_reachable.step [OF server_reachable.step [OF r1 server_step.closure_run [OF c1(1)]]
          server_step.write_ended [OF c2]])
  moreover have "heap (srv_hub ?s3) q = heap (srv_hub s) q" if "q \<noteq> r" for q
    using that by (simp add: ops del: write_done.simps post_closure.simps)
  moreover have "conn_table (srv_hub ?s3) = conn_table (srv_hub s)"
    "user_to_conn (srv_hub ?s3) = (user_to_conn (srv_hub s))(uid \<mapsto> conn_id c)"
    using assms(2) by (simp_all add: ops)
  moreover have "srv_pool ?s3 = srv_pool s1" "srv_cache ?s3 = srv_cache s1" by (simp_all add: on_hub_def)
  ultimately show ?thesis using s1(2-4) by (intro exI [of _ ?s3]) simp
qed

lemma two_users_accounts:
  "account_of plain_rules two_users ''bob'' = Some (bob_row ''pw'')"
  "account_of plain_rules two_users ''eve'' = Some ((bob_row ''pw'')\<lparr>ur_user_id := 2, ur_username := ''eve''\<rparr>)"
  by (simp_all add: account_of_def users_named_def two_users_def same_text_def bob_row_def)
    (simp add: plain_rules_def)

text \<open>Bob on connection 0 and eve on connection 1, both logged in and with nothing left to write.\<close>

lemma two_logged_in:
  "\<exists>s c d. server_reachable demo_env True two_users 1 s \<and> heap (srv_hub s) 1 = Some c \<and>
     conn_reading c = Reading_header \<and> conn_user_id c = 2 \<and>
     user_to_conn (srv_hub s) 1 = Some ''c0'' \<and> conn_table (srv_hub s) ''c0'' = Some 0 \<and>
     heap (srv_hub s) 0 = Some d \<and> flowing d \<and> pending d = 0 \<and>
     account_ready plain_rules (env_mysql demo_env) (srv_pool s) \<and> db_tables (srv_pool s) = two_users"
proof -
  let ?s0 = "demo_started two_users"
  let ?c = "\<lambda>i. (new_connection i)\<lparr>conn_reading := Reading_header\<rparr>"
  let ?s1 = "do_accept (Some (1, ''c1'')) ?s0"
  define s where "s = on_hub (conn_start 1) ?s1"
  have env: "env_mysql demo_env = healthy_env" by (simp add: demo_env_def)
  have r1: "server_reachable demo_env True two_users 1 ?s1"
    by (rule server_reachable.step [OF demo_started_reachable], rule server_step.accepted)
      (simp_all add: demo_started_sel new_connection_def)
  have h1: "heap (srv_hub ?s1) 1 = Some (new_connection ''c1'')"
    by (simp add: do_accept_def on_hub_def)
  have r: "server_reachable demo_env True two_users 1 s"
    unfolding s_def by (rule server_reachable.step [OF r1], rule server_step.started [OF _ h1]) (simp_all add: new_connection_def)
  have h: "heap (srv_hub s) 0 = Some (?c ''c0'')" "heap (srv_hub s) 1 = Some (?c ''c1'')"
    "conn_table (srv_hub s) ''c0'' = Some 0" "user_to_conn (srv_hub s) = Map.empty"
    "db_tables (srv_pool s) = two_users" "\<not> cache_locked (srv_cache s)"
    "srv_pool s = srv_pool ?s0"
    by (simp_all add: s_def do_accept_def on_hub_def conn_start_def do_read_header_def heap_update_conn demo_started_sel
        cm_start_def get_id_def new_connection_def)
  have idle: "conn_reading (?c i) = Reading_header" "flowing (?c i)" "pending (?c i) = 0" "conn_id (?c i) = i" for i
    by (simp_all add: flowing_def pending_def new_connection_def)
  have "account_ready plain_rules healthy_env (srv_pool ?s0)"
    using demo_server_ready(1)
    by (simp add: account_ready_def demo_started_sel demo_server_def start_pool_def new_pool_def env)
  then have ready: "account_ready plain_rules (env_mysql demo_env) (srv_pool s)" by (simp only: env h(7))
  have bob: "login_result plain_rules demo_env s ''bob'' ''pw'' = (SUCCESS, 1, ''bob'')"
    by (simp add: login_result_def h(4,5) two_users_accounts mh_sha256 env is_user_online_def)
      (simp add: bob_row_def user_id_of_def)
  obtain s2 d where s2: "server_reachable demo_env True two_users 1 s2" "heap (srv_hub s2) 0 = Some d"
    "flowing d" "pending d = 0" "\<And>q. q \<noteq> 0 \<Longrightarrow> heap (srv_hub s2) q = heap (srv_hub s) q"
    "conn_table (srv_hub s2) = conn_table (srv_hub s)"
    "user_to_conn (srv_hub s2) = (user_to_conn (srv_hub s))(1 \<mapsto> ''c0'')"
    "account_ready plain_rules (env_mysql demo_env) (srv_pool s2)" "\<not> cache_locked (srv_cache s2)"
    "db_tables (srv_pool s2) = two_users"
    using login_session [OF r h(1) idle(1-3) ready h(6) _ _ bob] h(5) idle(4) by auto
  have h2: "heap (srv_hub s2) 1 = Some (?c ''c1'')" using s2(5) h(2) by simp
  have eve: "login_result plain_rules demo_env s2 ''eve'' ''pw'' = (SUCCESS, 2, ''eve'')"
    by (simp add: login_result_def h(4) s2(7,10) two_users_accounts mh_sha256 env is_user_online_def)
      (simp add: bob_row_def user_id_of_def)
  obtain s3 c where "server_reachable demo_env True two_users 1 s3" "heap (srv_hub s3) 1 = Some c"
    "conn_reading c = Reading_header" "conn_user_id c = 2" "heap (srv_hub s3) 0 = heap (srv_hub s2) 0"
    "conn_table (srv_hub s3) = conn_table (srv_hub s2)"
    "user_to_conn (srv_hub s3) = (user_to_conn (srv_hub s2))(2 \<mapsto> ''c1'')"
    "account_ready plain_rules (env_mysql demo_env) (srv_pool s3)" "db_tables (srv_pool s3) = two_users"
    using login_session [OF s2(1) h2 idle(1-3) s2(8,9) _ _ eve] s2(10) idle(4) by auto
  then show ?thesis using s2 h(3) by (intro exI [of _ s3] exI [of _ c] exI [of _ d]) simp
qed


theorem message_end_to_end_witness:
  "\<exists>s s1 s2 d d2 packet. server_reachable demo_env True two_users 1 s \<and> heap (srv_hub s) 0 = Some d \<and>
     deliver demo_env 1 (cl_encode_message_request 1 ''hi'') s = (Handled, s1) \<and>
     (handled_step demo_env True ^^ 2) s1 s2 \<and> heap (srv_hub s2) 0 = Some d2 \<and> conn_wire d2 = conn_wire d @ packet \<and>
     read_loop ((new_client ''h'' 1)\<lparr>message_callback := True\<rparr>) [Received packet]
       = Some ((new_client ''h'' 1)\<lparr>message_callback := True, calls := [Message_callback 2 ''hi'' 0]\<rparr>, False)"
proof -
  let ?from = "(new_client ''h'' 1)\<lparr>socket_fd := 5\<rparr>" and ?to = "(new_client ''h'' 1)\<lparr>message_callback := True\<rparr>"
  obtain s c d where s: "server_reachable demo_env True two_users 1 s" "heap (srv_hub s) 1 = Some c"
    "conn_reading c = Reading_header" "conn_user_id c = 2"
    "user_to_conn (srv_hub s) 1 = Some ''c0''" "conn_table (srv_hub s) ''c0'' = Some 0"
    "heap (srv_hub s) 0 = Some d" "flowing d" "pending d = 0"
    "account_ready plain_rules (env_mysql demo_env) (srv_pool s)" "db_tables (srv_pool s) = two_users"
    using two_logged_in by blast
  obtain rs k t' where ins: "insert_message plain_rules (db_clock (srv_pool s) + 4) 2 1 ''hi'' (db_tables (srv_pool s))
      = Some (rs, k, t')"
    using two_users_with_id s(11) by (simp add: insert_message_def plain_rules_def bigint_max_def two_users_def no_tables_def)
  have pre: "socket_fd ?from \<noteq> - 1" "read_buffer ?to = []" "message_callback ?to"
    by (simp_all add: new_client_def)
  have cl: "sent ?from = []" "calls ?to = []" "sent (send_message 1 ''hi'' ?from) = [cl_encode_message_request 1 ''hi'']"
    by (simp_all add: new_client_def send_message_def send_packet_def)
  obtain req s1 s2 d2 packet where *: "sent (send_message 1 ''hi'' ?from) = sent ?from @ [req]"
    "deliver demo_env 1 req s = (Handled, s1)" "(handled_step demo_env True ^^ 2) s1 s2"
    "heap (srv_hub s2) 0 = Some d2" "conn_wire d2 = conn_wire d @ packet"
    "\<And>chunks. concat chunks = packet \<Longrightarrow> read_loop ?to (map Received chunks)
       = Some (?to\<lparr>calls := calls ?to @ [Message_callback 2 ''hi'' (env_now demo_env (srv_clock s))]\<rparr>, False)"
    using message_end_to_end [OF s(1-4) _ s(5,6) _ s(7-10) ins _ pre] by auto
  have "read_loop ?to [Received packet] = Some (?to\<lparr>calls := [Message_callback 2 ''hi'' 0]\<rparr>, False)"
    using *(6) [of "[packet]"] cl(2) by (simp add: demo_env_def del: read_loop.simps)
  moreover have "req = cl_encode_message_request 1 ''hi''" using *(1) cl by simp
  ultimately show ?thesis using *(2-5) s(1,7) by blast
qed

end
